(* ===== verification/Go_Prelude.thy ===== *)
theory Go_Prelude
  imports Main "HOL-Library.Char_ord" "HOL-Library.List_Lexorder" "HOL-Library.Code_Target_Nat"
begin

text \<open>
  The part of Go's standard library the modelled code calls on strings: package
  \<open>strings\<close>, UTF-8 decoding (\<open>unicode/utf8\<close>), \<open>unicode.IsSpace\<close> and the decimal
  conversions of \<open>strconv\<close>. A Go string is a sequence of bytes, here a \<^typ>\<open>string\<close>
  (a list of 8-bit characters), so \<open>len\<close> is \<^const>\<open>length\<close>. Where the library works on
  runes, the string is first cut into chunks, each a decoded rune and the bytes it came
  from (\<open>utf8_chunks\<close>).

  The lemmas here are the ones several components share: splitting and joining on a
  separator, prefixes and suffixes, trimming, and the round trip of decimal numbers.
\<close>

named_theorems go_defs \<open>definitions of the string library, for evaluation\<close>

type_synonym ('e, 'a) result = "'e + 'a"

section \<open>Bytes\<close>

definition byte_of :: "char \<Rightarrow> nat" where
  [go_defs]: "byte_of c = of_char c"

definition is_ascii :: "char \<Rightarrow> bool" where
  [go_defs]: "is_ascii c \<longleftrightarrow> byte_of c < 128"

definition is_digit :: "char \<Rightarrow> bool" where
  [go_defs]: "is_digit c \<longleftrightarrow> 48 \<le> byte_of c \<and> byte_of c \<le> 57"

definition is_upper :: "char \<Rightarrow> bool" where
  [go_defs]: "is_upper c \<longleftrightarrow> 65 \<le> byte_of c \<and> byte_of c \<le> 90"

definition is_lower :: "char \<Rightarrow> bool" where
  [go_defs]: "is_lower c \<longleftrightarrow> 97 \<le> byte_of c \<and> byte_of c \<le> 122"

definition ascii_lower :: "char \<Rightarrow> char" where
  [go_defs]: "ascii_lower c = (if is_upper c then char_of (byte_of c + 32) else c)"

definition ascii_upper :: "char \<Rightarrow> char" where
  [go_defs]: "ascii_upper c = (if is_lower c then char_of (byte_of c - 32) else c)"

section \<open>Prefixes, suffixes, search\<close>

definition has_prefix :: "string \<Rightarrow> string \<Rightarrow> bool" where
  [go_defs]: "has_prefix s p \<longleftrightarrow> take (length p) s = p"

definition has_suffix :: "string \<Rightarrow> string \<Rightarrow> bool" where
  [go_defs]: "has_suffix s p \<longleftrightarrow> length p \<le> length s \<and> drop (length s - length p) s = p"

definition trim_prefix :: "string \<Rightarrow> string \<Rightarrow> string" where
  [go_defs]: "trim_prefix s p = (if has_prefix s p then drop (length p) s else s)"

definition trim_suffix :: "string \<Rightarrow> string \<Rightarrow> string" where
  [go_defs]: "trim_suffix s p = (if has_suffix s p then take (length s - length p) s else s)"

fun contains :: "string \<Rightarrow> string \<Rightarrow> bool" where
  "contains [] p = (p = [])"
| "contains (c # cs) p = (has_prefix (c # cs) p \<or> contains cs p)"

definition contains_any :: "string \<Rightarrow> string \<Rightarrow> bool" where
  [go_defs]: "contains_any s cs \<longleftrightarrow> list_ex (\<lambda>c. c \<in> set cs) s"

text \<open>\<open>strings.Cut\<close> with a one-byte separator, and \<open>strings.IndexByte\<close>.\<close>

definition go_cut :: "char \<Rightarrow> string \<Rightarrow> string \<times> string \<times> bool" where
  [go_defs]: "go_cut c s =
     (case dropWhile (\<lambda>x. x \<noteq> c) s of
        [] \<Rightarrow> (s, [], False)
      | _ # rest \<Rightarrow> (takeWhile (\<lambda>x. x \<noteq> c) s, rest, True))"

definition index_byte :: "char \<Rightarrow> string \<Rightarrow> nat option" where
  [go_defs]: "index_byte c s =
     (if c \<in> set s then Some (length (takeWhile (\<lambda>x. x \<noteq> c) s)) else None)"

definition last_index_byte :: "char \<Rightarrow> string \<Rightarrow> nat option" where
  [go_defs]: "last_index_byte c s =
     (if c \<in> set s then Some (length s - 1 - length (takeWhile (\<lambda>x. x \<noteq> c) (rev s))) else None)"

text \<open>\<open>strings.TrimLeft\<close>, \<open>TrimRight\<close> and \<open>Trim\<close> with an ASCII cut set.\<close>

definition trim_left :: "string \<Rightarrow> string \<Rightarrow> string" where
  [go_defs]: "trim_left s cs = dropWhile (\<lambda>c. c \<in> set cs) s"

definition trim_right :: "string \<Rightarrow> string \<Rightarrow> string" where
  [go_defs]: "trim_right s cs = rev (dropWhile (\<lambda>c. c \<in> set cs) (rev s))"

definition trim_both :: "string \<Rightarrow> string \<Rightarrow> string" where
  [go_defs]: "trim_both s cs = trim_right (trim_left s cs) cs"

section \<open>Splitting and joining\<close>

text \<open>\<open>strings.Split\<close> with a one-byte separator: never empty.\<close>

fun split_sep :: "char \<Rightarrow> string \<Rightarrow> string list" where
  "split_sep c [] = [[]]"
| "split_sep c (x # xs) =
     (if x = c then [] # split_sep c xs
      else (case split_sep c xs of [] \<Rightarrow> [[x]] | p # ps \<Rightarrow> (x # p) # ps))"

fun join_sep :: "string \<Rightarrow> string list \<Rightarrow> string" where
  "join_sep sep [] = []"
| "join_sep sep [x] = x"
| "join_sep sep (x # y # zs) = x @ sep @ join_sep sep (y # zs)"

text \<open>The runs of elements that do not satisfy \<open>p\<close> (\<open>strings.FieldsFunc\<close>).\<close>

function fields :: "('a \<Rightarrow> bool) \<Rightarrow> 'a list \<Rightarrow> 'a list list" where
  "fields p xs =
     (case dropWhile p xs of
        [] \<Rightarrow> []
      | y # ys \<Rightarrow> (y # takeWhile (\<lambda>x. \<not> p x) ys) # fields p (dropWhile (\<lambda>x. \<not> p x) ys))"
  by pat_completeness auto
termination
proof (relation "measure (\<lambda>(p, xs). length xs)")
  fix p :: "'a \<Rightarrow> bool" and xs y ys
  assume "dropWhile p xs = y # ys"
  then have "length (y # ys) \<le> length xs" by (metis length_dropWhile_le)
  moreover have "length (dropWhile (\<lambda>x. \<not> p x) ys) \<le> length ys" by (rule length_dropWhile_le)
  ultimately show "((p, dropWhile (\<lambda>x. \<not> p x) ys), (p, xs)) \<in> measure (\<lambda>(p, xs). length xs)"
    by simp
qed simp

declare fields.simps [simp del]

section \<open>UTF-8\<close>

definition in_range :: "nat \<Rightarrow> nat \<Rightarrow> nat \<Rightarrow> bool" where
  [go_defs]: "in_range lo hi n \<longleftrightarrow> lo \<le> n \<and> n \<le> hi"

definition rune_error :: nat where
  [go_defs]: "rune_error = 65533"

text \<open>
  \<open>utf8.DecodeRuneInString\<close> on the bytes of a non-empty string: the rune and its width.
  An invalid or truncated encoding is the replacement rune with width 1.
\<close>

fun utf8_second :: "nat \<Rightarrow> nat \<times> nat" where
  "utf8_second b =
     (if b = 224 then (160, 191) else if b = 237 then (128, 159)
      else if b = 240 then (144, 191) else if b = 244 then (128, 143) else (128, 191))"

definition utf8_first :: "nat list \<Rightarrow> nat \<times> nat" where
  [go_defs]: "utf8_first bs =
     (case bs of
        [] \<Rightarrow> (rune_error, 0)
      | b0 # r0 \<Rightarrow>
        if b0 < 128 then (b0, 1)
        else (case r0 of
          [] \<Rightarrow> (rune_error, 1)
        | b1 # r1 \<Rightarrow>
          if \<not> in_range 194 244 b0 \<or> \<not> in_range (fst (utf8_second b0)) (snd (utf8_second b0)) b1
          then (rune_error, 1)
          else if b0 < 224 then ((b0 - 192) * 64 + (b1 - 128), 2)
          else (case r1 of
            [] \<Rightarrow> (rune_error, 1)
          | b2 # r2 \<Rightarrow>
            if \<not> in_range 128 191 b2 then (rune_error, 1)
            else if b0 < 240 then ((b0 - 224) * 4096 + (b1 - 128) * 64 + (b2 - 128), 3)
            else (case r2 of
              [] \<Rightarrow> (rune_error, 1)
            | b3 # _ \<Rightarrow>
              if \<not> in_range 128 191 b3 then (rune_error, 1)
              else ((b0 - 240) * 262144 + (b1 - 128) * 4096 + (b2 - 128) * 64 + (b3 - 128), 4)))))"

fun utf8_chunks :: "string \<Rightarrow> (nat \<times> string) list" where
  "utf8_chunks [] = []"
| "utf8_chunks (c # cs) =
     (let (r, n) = utf8_first (map byte_of (take 4 (c # cs)))
      in (r, take n (c # cs)) # utf8_chunks (drop (n - 1) cs))"

definition runes :: "string \<Rightarrow> nat list" where
  [go_defs]: "runes s = map fst (utf8_chunks s)"

definition unchunk :: "(nat \<times> string) list \<Rightarrow> string" where
  [go_defs]: "unchunk cs = concat (map snd cs)"

text \<open>Valid UTF-8: no chunk is the replacement rune made from a stray byte.\<close>

definition valid_utf8 :: "string \<Rightarrow> bool" where
  [go_defs]: "valid_utf8 s \<longleftrightarrow> list_all (\<lambda>(r, bs). r \<noteq> rune_error \<or> length bs = 3) (utf8_chunks s)"

definition utf8_encode :: "nat \<Rightarrow> string" where
  [go_defs]: "utf8_encode r0 =
     (let r = (if r0 > 1114111 \<or> in_range 55296 57343 r0 then rune_error else r0)
      in map char_of
        (if r < 128 then [r]
         else if r < 2048 then [192 + r div 64, 128 + r mod 64]
         else if r < 65536 then [224 + r div 4096, 128 + r div 64 mod 64, 128 + r mod 64]
         else [240 + r div 262144, 128 + r div 4096 mod 64, 128 + r div 64 mod 64, 128 + r mod 64]))"

definition is_space :: "nat \<Rightarrow> bool" where
  [go_defs]: "is_space r \<longleftrightarrow>
     in_range 9 13 r \<or> r \<in> {32, 133, 160, 5760, 8232, 8233, 8239, 8287, 12288} \<or> in_range 8192 8202 r"

section \<open>Rune-wise string functions\<close>

definition go_trim_space :: "string \<Rightarrow> string" where
  [go_defs]: "go_trim_space s =
     (let sp = (\<lambda>c. is_space (fst c))
      in unchunk (rev (dropWhile sp (rev (dropWhile sp (utf8_chunks s))))))"

definition fields_func :: "(nat \<Rightarrow> bool) \<Rightarrow> string \<Rightarrow> string list" where
  [go_defs]: "fields_func p s = map unchunk (fields (\<lambda>c. p (fst c)) (utf8_chunks s))"

text \<open>
  \<open>strings.ToLower\<close> and \<open>ToUpper\<close>. On ASCII strings the mapping is written out; the
  Unicode case tables, used for runes from 128 on, are the parameter \<open>tab\<close>.
\<close>

definition map_runes :: "(nat \<Rightarrow> nat) \<Rightarrow> string \<Rightarrow> string" where
  [go_defs]: "map_runes f s = concat (map (\<lambda>r. utf8_encode (f r)) (runes s))"

definition to_lower :: "(nat \<Rightarrow> nat) \<Rightarrow> string \<Rightarrow> string" where
  [go_defs]: "to_lower tab s =
     (if list_all is_ascii s then map ascii_lower s
      else map_runes (\<lambda>r. if r < 128 then byte_of (ascii_lower (char_of r)) else tab r) s)"

definition to_upper :: "(nat \<Rightarrow> nat) \<Rightarrow> string \<Rightarrow> string" where
  [go_defs]: "to_upper tab s =
     (if list_all is_ascii s then map ascii_upper s
      else map_runes (\<lambda>r. if r < 128 then byte_of (ascii_upper (char_of r)) else tab r) s)"

text \<open>
  \<open>strings.EqualFold\<close> against an ASCII constant that holds neither k nor s (the only ASCII
  letters with a non-ASCII simple case folding): equality of the ASCII-lowered bytes.
\<close>

definition equal_fold_const :: "string \<Rightarrow> string \<Rightarrow> bool" where
  [go_defs]: "equal_fold_const s k \<longleftrightarrow> map ascii_lower s = map ascii_lower k"

section \<open>Decimal numbers\<close>

fun show_nat :: "nat \<Rightarrow> string" where
  "show_nat n = (if n < 10 then [char_of (48 + n)] else show_nat (n div 10) @ [char_of (48 + n mod 10)])"

declare show_nat.simps [simp del]

definition show_int :: "int \<Rightarrow> string" where
  [go_defs]: "show_int i = (if i < 0 then CHR ''-'' # show_nat (nat (- i)) else show_nat (nat i))"

fun read_digits :: "nat \<Rightarrow> string \<Rightarrow> nat option" where
  "read_digits acc [] = Some acc"
| "read_digits acc (c # cs) =
     (if is_digit c then read_digits (acc * 10 + (byte_of c - 48)) cs else None)"

definition read_nat :: "string \<Rightarrow> nat option" where
  [go_defs]: "read_nat s = (if s = [] then None else read_digits 0 s)"

text \<open>\<open>strconv.ParseInt(s, 10, 64)\<close> and \<open>strconv.Atoi\<close>: \<^const>\<open>None\<close> is the syntax or range error.\<close>

definition parse_int64 :: "string \<Rightarrow> int option" where
  [go_defs]: "parse_int64 s =
     (case s of
        [] \<Rightarrow> None
      | c # cs \<Rightarrow>
          let neg = (c = CHR ''-'');
              ds = (if c = CHR ''-'' \<or> c = CHR ''+'' then cs else c # cs)
          in (case read_nat ds of
                None \<Rightarrow> None
              | Some n \<Rightarrow>
                  if neg then (if int n \<le> 2 ^ 63 then Some (- int n) else None)
                  else (if int n < 2 ^ 63 then Some (int n) else None)))"

section \<open>Hexadecimal\<close>

definition hex_digit :: "nat \<Rightarrow> char" where
  [go_defs]: "hex_digit n = (if n < 10 then char_of (48 + n) else char_of (87 + n))"

text \<open>\<open>hex.EncodeToString\<close> and \<open>hex.DecodeString\<close> (\<^const>\<open>None\<close> is the error).\<close>

definition hex_encode :: "string \<Rightarrow> string" where
  [go_defs]: "hex_encode bs = concat (map (\<lambda>b. [hex_digit (byte_of b div 16), hex_digit (byte_of b mod 16)]) bs)"

definition hex_value :: "char \<Rightarrow> nat option" where
  [go_defs]: "hex_value c =
     (let n = byte_of c
      in if in_range 48 57 n then Some (n - 48)
         else if in_range 97 102 n then Some (n - 87)
         else if in_range 65 70 n then Some (n - 55) else None)"

fun hex_decode :: "string \<Rightarrow> string option" where
  "hex_decode [] = Some []"
| "hex_decode [c] = None"
| "hex_decode (c # d # cs) =
     (case hex_value c of None \<Rightarrow> None | Some h \<Rightarrow>
      case hex_value d of None \<Rightarrow> None | Some l \<Rightarrow>
      case hex_decode cs of None \<Rightarrow> None | Some bs \<Rightarrow> Some (char_of (16 * h + l) # bs))"

section \<open>Lemmas on splitting and joining\<close>

lemma split_sep_neq_Nil [simp]: "split_sep c s \<noteq> []"
  by (induction s) (auto split: list.splits)

lemma split_sep_no_sep: "p \<in> set (split_sep c s) \<Longrightarrow> c \<notin> set p"
  by (induction s arbitrary: p) (auto split: list.splits if_splits)

lemma split_sep_chars: "p \<in> set (split_sep c s) \<Longrightarrow> set p \<subseteq> set s"
proof (induction s arbitrary: p)
  case (Cons x xs)
  then show ?case
    by (fastforce split: if_splits list.splits)
qed simp

lemma join_split [simp]: "join_sep [c] (split_sep c s) = s"
proof (induction s)
  case (Cons x xs)
  obtain p ps where "split_sep c xs = p # ps" by (cases "split_sep c xs") auto
  with Cons show ?case by (cases ps) auto
qed simp

lemma split_sep_simple: "c \<notin> set p \<Longrightarrow> split_sep c p = [p]"
  by (induction p) auto

lemma split_sep_append: "c \<notin> set p \<Longrightarrow> split_sep c (p @ c # s) = p # split_sep c s"
  by (induction p) auto

lemma split_join:
  "ps \<noteq> [] \<Longrightarrow> \<forall>p \<in> set ps. c \<notin> set p \<Longrightarrow> split_sep c (join_sep [c] ps) = ps"
proof (induction "[c]" ps rule: join_sep.induct)
  case (3 x y zs)
  then show ?case by (simp add: split_sep_append)
qed (simp_all add: split_sep_simple)

lemma split_sep_join_append:
  "ps \<noteq> [] \<Longrightarrow> \<forall>p \<in> set ps. c \<notin> set p \<Longrightarrow>
   split_sep c (join_sep [c] ps @ c # s) = ps @ split_sep c s"
proof (induction "[c]" ps rule: join_sep.induct)
  case (3 x y zs)
  then show ?case by (simp add: split_sep_append)
qed (simp_all add: split_sep_append)

lemma join_sep_eq_Nil: "[] \<notin> set ps \<Longrightarrow> join_sep sep ps = [] \<longleftrightarrow> ps = []"
  by (cases "(sep, ps)" rule: join_sep.cases) auto

lemma set_join_sep: "set (join_sep sep ps) \<subseteq> set sep \<union> \<Union> (set ` set ps)"
  by (induction sep ps rule: join_sep.induct) auto

section \<open>Lemmas on prefixes and trimming\<close>

lemma has_prefix_iff: "has_prefix s p \<longleftrightarrow> (\<exists>t. s = p @ t)"
  by (metis append_eq_conv_conj append_take_drop_id has_prefix_def)

lemma has_suffix_iff: "has_suffix s p \<longleftrightarrow> (\<exists>t. s = t @ p)"
proof
  assume "has_suffix s p"
  then have "s = take (length s - length p) s @ p"
    by (metis append_take_drop_id has_suffix_def)
  then show "\<exists>t. s = t @ p" ..
qed (auto simp: has_suffix_def)

lemma has_prefix_append [simp]: "has_prefix (p @ s) p"
  by (simp add: has_prefix_def)

lemma trim_prefix_append [simp]: "trim_prefix (p @ s) p = s"
  by (simp add: trim_prefix_def)

lemma trim_right_no_end: "trim_right s cs = [] \<or> last (trim_right s cs) \<notin> set cs"
proof (cases "dropWhile (\<lambda>c. c \<in> set cs) (rev s)")
  case (Cons a xs)
  then show ?thesis
    by (metis (no_types, lifting) hd_dropWhile last_rev list.simps(3) trim_right_def)
qed (simp add: trim_right_def)

section \<open>Lemmas on UTF-8\<close>

lemma byte_of_less [simp]: "byte_of c < 256"
  by (simp add: byte_of_def)

lemma char_of_byte_of [simp]: "char_of (byte_of c) = c"
  by (simp add: byte_of_def)

lemma byte_of_inject [simp]: "byte_of c = byte_of d \<longleftrightarrow> c = d"
  by (simp add: byte_of_def)

lemma utf8_first_width: "bs \<noteq> [] \<Longrightarrow> 1 \<le> snd (utf8_first bs) \<and> snd (utf8_first bs) \<le> length bs"
  by (auto simp: utf8_first_def split: list.splits)

lemma unchunk_utf8_chunks [simp]: "unchunk (utf8_chunks s) = s"
proof (induction s rule: utf8_chunks.induct)
  case (2 c cs)
  obtain r n where rn: "utf8_first (map byte_of (take 4 (c # cs))) = (r, n)" by force
  with utf8_first_width [of "map byte_of (take 4 (c # cs))"] have n: "1 \<le> n" by auto
  then have "drop (n - 1) cs = drop n (c # cs)" by (cases n) auto
  with 2 rn show ?case by (simp add: unchunk_def)
qed (simp add: unchunk_def)

lemma utf8_chunks_ascii:
  "list_all is_ascii s \<Longrightarrow> utf8_chunks s = map (\<lambda>c. (byte_of c, [c])) s"
  by (induction s) (auto simp: utf8_first_def is_ascii_def)

lemma runes_ascii: "list_all is_ascii s \<Longrightarrow> runes s = map byte_of s"
  by (simp add: runes_def utf8_chunks_ascii comp_def)

lemma valid_utf8_ascii: "list_all is_ascii s \<Longrightarrow> valid_utf8 s"
  by (auto simp: valid_utf8_def utf8_chunks_ascii list_all_iff is_ascii_def rune_error_def)

lemma unchunk_map [simp]: "unchunk (map (\<lambda>c. (f c, [c])) s) = s"
  by (induction s) (auto simp: unchunk_def)

lemma go_trim_space_ascii:
  assumes "list_all is_ascii s"
  shows "go_trim_space s =
    rev (dropWhile (\<lambda>c. is_space (byte_of c)) (rev (dropWhile (\<lambda>c. is_space (byte_of c)) s)))"
proof -
  have *: "dropWhile (\<lambda>c. is_space (fst c)) (map (\<lambda>c. (byte_of c, [c])) t)
    = map (\<lambda>c. (byte_of c, [c])) (dropWhile (\<lambda>c. is_space (byte_of c)) t)" for t
    by (simp add: dropWhile_map comp_def)
  show ?thesis
    using assms by (simp add: go_trim_space_def utf8_chunks_ascii * rev_map [of "\<lambda>c. (byte_of c, [c])"])
qed

section \<open>Lemmas on decimal numbers\<close>

lemma is_digit_char_of: "d < 10 \<Longrightarrow> is_digit (char_of (48 + d)) \<and> byte_of (char_of (48 + d)) = 48 + d"
  by (simp add: is_digit_def byte_of_def)

lemma read_digits_append:
  "read_digits acc (xs @ ys) = (case read_digits acc xs of None \<Rightarrow> None | Some n \<Rightarrow> read_digits n ys)"
  by (induction acc xs rule: read_digits.induct) auto

lemma read_digits_show: "read_digits 0 (show_nat n) = Some n"
proof (induction n rule: show_nat.induct)
  case (1 n)
  show ?case
  proof (cases "n < 10")
    case True
    then show ?thesis
      using is_digit_char_of [of n] by (subst show_nat.simps) simp
  next
    case False
    have d: "n mod 10 < 10" by simp
    show ?thesis
      using 1 False is_digit_char_of [OF d]
      by (subst show_nat.simps) (simp add: read_digits_append)
  qed
qed

lemma show_nat_neq_Nil [simp]: "show_nat n \<noteq> []"
  by (subst show_nat.simps) simp

lemma read_show_nat [simp]: "read_nat (show_nat n) = Some n"
  by (simp add: read_nat_def read_digits_show)

lemma show_nat_digits: "list_all is_digit (show_nat n)"
proof (induction n rule: show_nat.induct)
  case (1 n)
  have "n mod 10 < 10" by simp
  with 1 is_digit_char_of show ?case
    by (subst show_nat.simps) (auto simp: is_digit_char_of)
qed

lemma hex_digit_byte: "n < 16 \<Longrightarrow> byte_of (hex_digit n) = (if n < 10 then 48 + n else 87 + n)"
  by (simp add: hex_digit_def byte_of_def)

lemma hex_value_digit: "n < 16 \<Longrightarrow> hex_value (hex_digit n) = Some n"
  by (auto simp: hex_value_def hex_digit_byte in_range_def)

lemma hex_decode_encode [simp]: "hex_decode (hex_encode bs) = Some bs"
proof (induction bs)
  case (Cons b bs)
  have "byte_of b div 16 < 16" using byte_of_less [of b] by (simp add: less_mult_imp_div_less)
  with Cons show ?case by (simp add: hex_encode_def hex_value_digit)
qed (simp add: hex_encode_def)

lemma length_hex_encode [simp]: "length (hex_encode bs) = 2 * length bs"
  by (induction bs) (auto simp: hex_encode_def)

lemma set_hex_encode: "c \<in> set (hex_encode bs) \<Longrightarrow> in_range 48 57 (byte_of c) \<or> in_range 97 102 (byte_of c)"
proof -
  assume "c \<in> set (hex_encode bs)"
  then obtain b where "c = hex_digit (byte_of b div 16) \<or> c = hex_digit (byte_of b mod 16)"
    by (auto simp: hex_encode_def)
  moreover have "byte_of b div 16 < 16" using byte_of_less [of b] by (simp add: less_mult_imp_div_less)
  moreover have "byte_of b mod 16 < 16" by simp
  ultimately obtain n where "n < 16" "c = hex_digit n" by blast
  then show ?thesis by (auto simp: hex_digit_byte in_range_def)
qed

lemma show_nat_inject [simp]: "show_nat m = show_nat n \<longleftrightarrow> m = n"
  by (metis option.inject read_show_nat)

lemma parse_show_int:
  assumes "- (2 ^ 63) \<le> i" "i < 2 ^ 63"
  shows "parse_int64 (show_int i) = Some i"
proof (cases "i < 0")
  case True
  with assms show ?thesis by (simp add: show_int_def parse_int64_def)
next
  case False
  obtain c cs where c: "show_nat (nat i) = c # cs" by (cases "show_nat (nat i)") auto
  have "is_digit c" using show_nat_digits [of "nat i"] c by simp
  then have "c \<noteq> CHR ''-''" "c \<noteq> CHR ''+''" by (auto simp: is_digit_def byte_of_def)
  moreover have "read_nat (c # cs) = Some (nat i)" using read_show_nat [of "nat i"] c by simp
  ultimately show ?thesis
    using False assms c by (simp add: show_int_def parse_int64_def)
qed

end
