(* ===== verification/Go_Path.thy ===== *)
theory Go_Path
  imports Go_Prelude
begin

text \<open>
  Go's packages \<open>path\<close> and \<open>path/filepath\<close> on Unix, as far as the modelled code uses them:
  \<open>Clean\<close>, \<open>Join\<close>, \<open>Base\<close>, \<open>Dir\<close>, \<open>Ext\<close>, \<open>IsAbs\<close>, \<open>IsLocal\<close>. A path is normalised
  into a pair of "rooted" and its list of elements (\<open>path_norm\<close>) and printed back
  (\<open>path_render\<close>); \<open>path_clean\<close> is the composition. The lemmas give the round trip of the
  two, the idempotence of cleaning, and what joining a plain name onto a directory yields.
\<close>

section \<open>Normal form\<close>

abbreviation dot :: string where "dot \<equiv> ''.''"
abbreviation dotdot :: string where "dotdot \<equiv> ''..''"
abbreviation slash :: char where "slash \<equiv> CHR ''/''"

definition clean_step :: "bool \<Rightarrow> string list \<Rightarrow> string \<Rightarrow> string list" where
  [go_defs]: "clean_step rooted out p =
     (if p = [] \<or> p = dot then out
      else if p = dotdot then
        (if out \<noteq> [] \<and> last out \<noteq> dotdot then butlast out
         else if rooted then out else out @ [dotdot])
      else out @ [p])"

definition clean_parts :: "bool \<Rightarrow> string list \<Rightarrow> string list" where
  [go_defs]: "clean_parts rooted ps = foldl (clean_step rooted) [] ps"

definition path_norm :: "string \<Rightarrow> bool \<times> string list" where
  [go_defs]: "path_norm s =
     (let rooted = has_prefix s ''/'' in (rooted, clean_parts rooted (split_sep slash s)))"

fun path_render :: "bool \<times> string list \<Rightarrow> string" where
  "path_render (rooted, ps) =
     (if rooted then ''/'' @ join_sep ''/'' ps else if ps = [] then dot else join_sep ''/'' ps)"

definition path_clean :: "string \<Rightarrow> string" where
  [go_defs]: "path_clean s = path_render (path_norm s)"

text \<open>\<open>path.Join\<close> (and \<open>filepath.Join\<close>): leading empty elements are dropped, all empty is \<open>""\<close>.\<close>

definition path_join :: "string list \<Rightarrow> string" where
  [go_defs]: "path_join es =
     (case dropWhile (\<lambda>e. e = []) es of [] \<Rightarrow> [] | e # es' \<Rightarrow> path_clean (join_sep ''/'' (e # es')))"

definition path_base :: "string \<Rightarrow> string" where
  [go_defs]: "path_base s =
     (if s = [] then dot
      else let t = rev (takeWhile (\<lambda>c. c \<noteq> slash) (dropWhile (\<lambda>c. c = slash) (rev s)))
           in if t = [] then ''/'' else t)"

definition path_dir :: "string \<Rightarrow> string" where
  [go_defs]: "path_dir s = path_clean (rev (dropWhile (\<lambda>c. c \<noteq> slash) (rev s)))"

definition path_ext :: "string \<Rightarrow> string" where
  [go_defs]: "path_ext s =
     (let t = rev (takeWhile (\<lambda>c. c \<noteq> slash) (rev s))
      in if CHR ''.'' \<in> set t then CHR ''.'' # rev (takeWhile (\<lambda>c. c \<noteq> CHR ''.'') (rev t)) else [])"

definition is_abs :: "string \<Rightarrow> bool" where
  [go_defs]: "is_abs s \<longleftrightarrow> has_prefix s ''/''"

definition is_local :: "string \<Rightarrow> bool" where
  [go_defs]: "is_local s \<longleftrightarrow>
     \<not> is_abs s \<and> s \<noteq> [] \<and>
     (let t = (if list_ex (\<lambda>p. p = dot \<or> p = dotdot) (split_sep slash s) then path_clean s else s)
      in t \<noteq> dotdot \<and> \<not> has_prefix t ''../'')"

text \<open>A name that stands for exactly one directory entry.\<close>

definition plain_name :: "string \<Rightarrow> bool" where
  [go_defs]: "plain_name n \<longleftrightarrow> n \<noteq> [] \<and> n \<noteq> dot \<and> n \<noteq> dotdot \<and> slash \<notin> set n"

text \<open>Normal element lists: plain names, after leading \<open>..\<close> elements when not rooted.\<close>

definition norm_parts :: "bool \<Rightarrow> string list \<Rightarrow> bool" where
  "norm_parts rooted ps \<longleftrightarrow>
     (\<exists>k ns. ps = replicate k dotdot @ ns \<and> list_all plain_name ns \<and> (rooted \<longrightarrow> k = 0))"

section \<open>Cleaning yields a normal form\<close>

lemma plain_name_simps [simp]: "\<not> plain_name []" "\<not> plain_name dot" "\<not> plain_name dotdot"
  by (simp_all add: plain_name_def)

lemma norm_parts_Nil [simp]: "norm_parts r []"
  by (auto simp: norm_parts_def)

lemma norm_parts_plain: "list_all plain_name ps \<Longrightarrow> norm_parts r ps"
  by (auto simp: norm_parts_def intro!: exI [of _ 0])

lemma norm_parts_snoc: "norm_parts r ps \<Longrightarrow> plain_name p \<Longrightarrow> norm_parts r (ps @ [p])"
  unfolding norm_parts_def
proof (elim exE conjE)
  fix k ns
  assume "ps = replicate k dotdot @ ns" "list_all plain_name ns" "r \<longrightarrow> k = 0" "plain_name p"
  then show "\<exists>k ns. ps @ [p] = replicate k dotdot @ ns \<and> list_all plain_name ns \<and> (r \<longrightarrow> k = 0)"
    by (intro exI [of _ k] exI [of _ "ns @ [p]"]) simp
qed

lemma norm_parts_butlast:
  assumes "norm_parts r ps" "last ps \<noteq> dotdot"
  shows "norm_parts r (butlast ps)"
proof -
  from assms(1) obtain k ns where ps: "ps = replicate k dotdot @ ns" "list_all plain_name ns" "r \<longrightarrow> k = 0"
    by (auto simp: norm_parts_def)
  show ?thesis
  proof (cases ns rule: rev_cases)
    case Nil
    with ps assms(2) have "k = 0" by (cases k) (auto simp: last_replicate simp del: replicate.simps)
    with Nil ps show ?thesis by simp
  next
    case (snoc ms m)
    with ps show ?thesis by (auto simp: norm_parts_def butlast_append)
  qed
qed

lemma norm_parts_dotdot:
  assumes "norm_parts False ps" "ps = [] \<or> last ps = dotdot"
  shows "norm_parts False (ps @ [dotdot])"
proof -
  from assms(1) obtain k ns where ps: "ps = replicate k dotdot @ ns" "list_all plain_name ns"
    by (auto simp: norm_parts_def)
  with assms(2) have "ns = []" by (cases ns rule: rev_cases) auto
  with ps show ?thesis
    by (auto simp: norm_parts_def replicate_append_same intro!: exI [of _ "Suc k"] exI [of _ "[]"])
qed

lemma clean_step_norm:
  assumes "norm_parts r out" "slash \<notin> set p"
  shows "norm_parts r (clean_step r out p)"
proof -
  have "norm_parts True out \<Longrightarrow> last out = dotdot \<Longrightarrow> out = []"
    by (cases out rule: rev_cases) (auto simp: norm_parts_def)
  then show ?thesis
    using assms norm_parts_snoc [of r out p] norm_parts_plain [of "[p]" r]
    by (cases r) (auto simp: clean_step_def plain_name_def norm_parts_butlast norm_parts_dotdot)
qed

lemma foldl_clean_step_norm:
  "norm_parts r out \<Longrightarrow> \<forall>p \<in> set ps. slash \<notin> set p \<Longrightarrow> norm_parts r (foldl (clean_step r) out ps)"
  by (induction ps arbitrary: out) (auto simp: clean_step_norm)

lemma path_norm_norm: "norm_parts (fst (path_norm s)) (snd (path_norm s))"
  by (auto simp: path_norm_def clean_parts_def Let_def split_sep_no_sep intro!: foldl_clean_step_norm)

section \<open>Rendering and normalising are inverse\<close>

lemma foldl_clean_step_plain:
  "list_all plain_name ps \<Longrightarrow> foldl (clean_step r) out ps = out @ ps"
  by (induction ps arbitrary: out) (auto simp: clean_step_def plain_name_def)

lemma foldl_clean_step_dotdots:
  "foldl (clean_step False) (replicate j dotdot) (replicate k dotdot) = replicate (j + k) dotdot"
proof (induction k arbitrary: j)
  case (Suc k)
  have "clean_step False (replicate j dotdot) dotdot = replicate (Suc j) dotdot"
    by (cases j) (auto simp: clean_step_def replicate_append_same)
  with Suc [of "Suc j"] show ?case by simp
qed simp

lemma clean_parts_norm: "norm_parts r ps \<Longrightarrow> clean_parts r ps = ps"
proof -
  assume "norm_parts r ps"
  then obtain k ns where "ps = replicate k dotdot @ ns" "list_all plain_name ns" "r \<longrightarrow> k = 0"
    by (auto simp: norm_parts_def)
  then show ?thesis
    using foldl_clean_step_dotdots [of 0 k]
    by (cases r) (auto simp: clean_parts_def foldl_clean_step_plain)
qed

lemma norm_parts_no_slash: "norm_parts r ps \<Longrightarrow> p \<in> set ps \<Longrightarrow> slash \<notin> set p \<and> p \<noteq> []"
proof -
  assume "norm_parts r ps" "p \<in> set ps"
  then have "p = dotdot \<or> plain_name p" by (auto simp: norm_parts_def list_all_iff)
  then show ?thesis by (auto simp: plain_name_def)
qed

lemma join_sep_hd:
  "p \<noteq> [] \<Longrightarrow> hd (join_sep sep (p # ps)) = hd p \<and> join_sep sep (p # ps) \<noteq> []"
  by (cases ps) auto

lemma path_norm_render:
  assumes n: "norm_parts r ps"
  shows "path_norm (path_render (r, ps)) = (r, ps)"
proof (cases ps)
  case Nil
  then show ?thesis
    by (auto simp: path_norm_def has_prefix_def clean_parts_def clean_step_def)
next
  case (Cons a as)
  have ns: "slash \<notin> set p \<and> p \<noteq> []" if "p \<in> set ps" for p
    using norm_parts_no_slash [OF n that] .
  then have hd: "hd (join_sep ''/'' ps) = hd a" "join_sep ''/'' ps \<noteq> []"
    using join_sep_hd [of a "''/''" as] Cons by auto
  have sp: "split_sep slash (join_sep ''/'' ps) = ps"
    using ns Cons by (intro split_join) auto
  show ?thesis
  proof (cases r)
    case True
    have "clean_parts True ([] # ps) = clean_parts True ps"
      by (simp add: clean_parts_def clean_step_def)
    with True sp clean_parts_norm [OF n] show ?thesis
      by (simp add: path_norm_def has_prefix_def)
  next
    case False
    have "\<not> has_prefix (join_sep ''/'' ps) ''/''"
    proof
      assume "has_prefix (join_sep ''/'' ps) ''/''"
      then have "hd (join_sep ''/'' ps) = slash" by (auto simp: has_prefix_iff)
      with hd ns [of a] Cons show False by (cases a) auto
    qed
    with False Cons sp clean_parts_norm [OF n] show ?thesis
      by (simp add: path_norm_def del: join_sep.simps split_sep.simps)
  qed
qed

lemma path_norm_clean [simp]: "path_norm (path_clean s) = path_norm s"
  using path_norm_render [OF path_norm_norm] by (simp add: path_clean_def)

lemma path_clean_idem: "path_clean (path_clean s) = path_clean s"
  by (metis path_clean_def path_norm_clean)

lemma path_clean_norm_eq: "path_clean s = path_clean t \<longleftrightarrow> path_norm s = path_norm t"
  by (metis path_clean_def path_norm_clean)

section \<open>Joining\<close>

lemma path_norm_append:
  assumes "s \<noteq> []"
  shows "path_norm (s @ slash # t) =
    (fst (path_norm s), foldl (clean_step (fst (path_norm s))) (snd (path_norm s)) (split_sep slash t))"
proof -
  have "split_sep slash (s @ slash # t) = split_sep slash s @ split_sep slash t"
    using split_sep_join_append [of "split_sep slash s" slash t] split_sep_no_sep by fastforce
  moreover have "has_prefix (s @ slash # t) ''/'' = has_prefix s ''/''"
    using assms by (cases s) (auto simp: has_prefix_def)
  ultimately show ?thesis by (simp add: path_norm_def clean_parts_def Let_def)
qed

lemma path_join_norm:
  assumes "d \<noteq> []" "list_all plain_name ns"
  shows "path_norm (path_join (d # ns)) = (fst (path_norm d), snd (path_norm d) @ ns)"
proof (cases ns)
  case Nil
  with assms(1) show ?thesis by (simp add: path_join_def)
next
  case (Cons m ms)
  have "split_sep slash (join_sep ''/'' ns) = ns"
    using assms(2) Cons by (intro split_join) (auto simp: list_all_iff plain_name_def)
  with path_norm_append [OF assms(1), of "join_sep ''/'' ns"] assms(2)
  have "path_norm (d @ slash # join_sep ''/'' ns) = (fst (path_norm d), snd (path_norm d) @ ns)"
    by (simp add: foldl_clean_step_plain)
  moreover have "path_join (d # ns) = path_clean (d @ slash # join_sep ''/'' ns)"
    using assms(1) Cons by (simp add: path_join_def)
  ultimately show ?thesis by simp
qed

lemma path_join_clean:
  "d \<noteq> [] \<Longrightarrow> path_clean (path_join (d # ns)) = path_join (d # ns)"
  by (simp add: path_join_def path_clean_idem)

lemma path_clean_not_Nil: "path_clean s \<noteq> []"
proof -
  obtain r ps where "path_norm s = (r, ps)" by force
  with path_norm_norm [of s] have "norm_parts r ps" by simp
  then have "[] \<notin> set ps" using norm_parts_no_slash by blast
  with \<open>path_norm s = (r, ps)\<close> show ?thesis
    by (auto simp: path_clean_def join_sep_eq_Nil)
qed

section \<open>Local names\<close>

lemma plain_name_is_local: "plain_name n \<Longrightarrow> is_local n"
  by (auto simp: is_local_def plain_name_def is_abs_def has_prefix_iff split_sep_simple Let_def)

lemma path_base_plain: "plain_name n \<Longrightarrow> path_base n = n"
proof -
  assume "plain_name n"
  then have n: "n \<noteq> []" "slash \<notin> set n" by (auto simp: plain_name_def)
  then have "dropWhile (\<lambda>c. c = slash) (rev n) = rev n"
    by (cases n rule: rev_cases) auto
  moreover have "takeWhile (\<lambda>c. c \<noteq> slash) (rev n) = rev n"
    using n by (intro takeWhile_eq_all_conv [THEN iffD2]) auto
  ultimately show ?thesis using n by (simp add: path_base_def del: takeWhile_eq_all_conv)
qed

lemma path_base_no_slash: "path_base s = ''/'' \<or> slash \<notin> set (path_base s)"
  by (auto simp: path_base_def Let_def dest: set_takeWhileD)

lemma path_base_not_Nil [simp]: "path_base s \<noteq> []"
  by (simp add: path_base_def Let_def)

end
