(* ===== verification/Kernel_Api.thy ===== *)
theory Kernel_Api
  imports Go_Path "HOL-Library.Word"
begin

text \<open>
  The system calls the program makes through \<open>golang.org/x/sys/unix\<close> and \<open>os.File\<close>. The
  kernel is not part of the repository, so it is a parameter: a record of functions over an
  arbitrary world type \<open>'w\<close>, each returning an errno or a value and the next world. Every
  definition that makes a system call takes this record as its first argument.

  What the code relies on is stated as locales over that record: \<open>fd_kernel\<close> (how calls
  open and close descriptors) and \<open>dir_kernel\<close> (what \<open>openat\<close> with \<open>O_NOFOLLOW\<close> returns).
  \<open>traced\<close> wraps any kernel so that it also logs its calls; theorems about the log hold for
  every kernel, without any law.
\<close>

section \<open>Types\<close>

datatype errno =
  ENOENT | EEXIST | ENOTDIR | EISDIR | ENOTEMPTY | EACCES | EPERM | ELOOP | EMLINK
| EIO | ENOSPC | EBADF | EINVAL | ENAMETOOLONG | EMFILE | EXDEV

record oflags =
  of_wronly :: bool
  of_creat :: bool
  of_trunc :: bool
  of_excl :: bool
  of_directory :: bool
  of_nofollow :: bool
  of_cloexec :: bool

definition o_rdonly :: oflags where
  [go_defs]: "o_rdonly = \<lparr>of_wronly = False, of_creat = False, of_trunc = False, of_excl = False,
     of_directory = False, of_nofollow = False, of_cloexec = False\<rparr>"

datatype ftype = FReg | FDir | FLnk | FOther

text \<open>\<open>st_bits\<close> are the permission bits \<open>st_mode & 07777\<close>.\<close>

record kstat =
  st_type :: ftype
  st_bits :: "32 word"
  st_uid :: int
  st_gid :: int
  st_size :: nat

type_synonym ('w, 'a) call = "'w \<Rightarrow> (errno + 'a) \<times> 'w"

record 'w kernel =
  k_open :: "string \<Rightarrow> oflags \<Rightarrow> ('w, int) call"
  k_dup :: "int \<Rightarrow> ('w, int) call"
  k_close :: "int \<Rightarrow> ('w, unit) call"
  k_openat :: "int \<Rightarrow> string \<Rightarrow> oflags \<Rightarrow> 32 word \<Rightarrow> ('w, int) call"
  k_readlinkat :: "int \<Rightarrow> string \<Rightarrow> ('w, string) call"
  k_fstatat :: "int \<Rightarrow> string \<Rightarrow> ('w, kstat) call"
  k_fstat :: "int \<Rightarrow> ('w, kstat) call"
  k_mkdirat :: "int \<Rightarrow> string \<Rightarrow> 32 word \<Rightarrow> ('w, unit) call"
  k_unlinkat :: "int \<Rightarrow> string \<Rightarrow> bool \<Rightarrow> ('w, unit) call"
  k_renameat :: "int \<Rightarrow> string \<Rightarrow> int \<Rightarrow> string \<Rightarrow> ('w, unit) call"
  k_fchmod :: "int \<Rightarrow> 32 word \<Rightarrow> ('w, unit) call"
  k_fchown :: "int \<Rightarrow> int \<Rightarrow> int \<Rightarrow> ('w, unit) call"
  k_write :: "int \<Rightarrow> string \<Rightarrow> ('w, unit) call"
  k_readdir :: "int \<Rightarrow> ('w, (string \<times> kstat) list) call"

section \<open>A kernel that logs its calls\<close>

datatype event =
  EvDup int "errno + int"
| EvClose int
| EvOpenat int string oflags "errno + int"
| EvReadlinkat int string
| EvFstatat int string
| EvFstat int
| EvMkdirat int string
| EvUnlinkat int string
| EvRenameat int string int string
| EvFchmod int
| EvFchown int
| EvWrite int
| EvReaddir int
| EvOpenPath string "errno + int"

definition logged :: "('w, 'a) call \<Rightarrow> ((errno + 'a) \<Rightarrow> event) \<Rightarrow> ('w \<times> event list, 'a) call" where
  "logged c ev = (\<lambda>(w, t). let (r, w') = c w in (r, (w', t @ [ev r])))"

definition traced :: "'w kernel \<Rightarrow> ('w \<times> event list) kernel" where
  "traced k = \<lparr>
     k_open = (\<lambda>p fl. logged (k_open k p fl) (EvOpenPath p)),
     k_dup = (\<lambda>d. logged (k_dup k d) (EvDup d)),
     k_close = (\<lambda>d. logged (k_close k d) (\<lambda>_. EvClose d)),
     k_openat = (\<lambda>d n fl m. logged (k_openat k d n fl m) (EvOpenat d n fl)),
     k_readlinkat = (\<lambda>d n. logged (k_readlinkat k d n) (\<lambda>_. EvReadlinkat d n)),
     k_fstatat = (\<lambda>d n. logged (k_fstatat k d n) (\<lambda>_. EvFstatat d n)),
     k_fstat = (\<lambda>d. logged (k_fstat k d) (\<lambda>_. EvFstat d)),
     k_mkdirat = (\<lambda>d n m. logged (k_mkdirat k d n m) (\<lambda>_. EvMkdirat d n)),
     k_unlinkat = (\<lambda>d n f. logged (k_unlinkat k d n f) (\<lambda>_. EvUnlinkat d n)),
     k_renameat = (\<lambda>d n d' n'. logged (k_renameat k d n d' n') (\<lambda>_. EvRenameat d n d' n')),
     k_fchmod = (\<lambda>d m. logged (k_fchmod k d m) (\<lambda>_. EvFchmod d)),
     k_fchown = (\<lambda>d u g. logged (k_fchown k d u g) (\<lambda>_. EvFchown d)),
     k_write = (\<lambda>d b. logged (k_write k d b) (\<lambda>_. EvWrite d)),
     k_readdir = (\<lambda>d. logged (k_readdir k d) (\<lambda>_. EvReaddir d))\<rparr>"

text \<open>
  The descriptors a log makes trustworthy, starting from \<open>S\<close>: the results of duplicating
  and of opening relative to a trusted descriptor.
\<close>

fun ev_new :: "int set \<Rightarrow> event \<Rightarrow> int set" where
  "ev_new S (EvDup d (Inr f)) = insert f S"
| "ev_new S (EvOpenat d n fl (Inr f)) = insert f S"
| "ev_new S _ = S"

text \<open>
  A call that stays inside the directory tree below descriptor \<open>root\<close>: it works on the root
  or on a trusted descriptor, names a single entry (no slash, not \<open>.\<close> or \<open>..\<close>), and opens
  it without following a symbolic link. A path-based open is never confined.
\<close>

fun ev_ok :: "int \<Rightarrow> int set \<Rightarrow> event \<Rightarrow> bool" where
  "ev_ok root S (EvDup d _) = (d = root \<or> d \<in> S)"
| "ev_ok root S (EvClose d) = True"
| "ev_ok root S (EvOpenat d n fl _) = ((d = root \<or> d \<in> S) \<and> plain_name n \<and> of_nofollow fl)"
| "ev_ok root S (EvReadlinkat d n) = ((d = root \<or> d \<in> S) \<and> plain_name n)"
| "ev_ok root S (EvFstatat d n) = ((d = root \<or> d \<in> S) \<and> plain_name n)"
| "ev_ok root S (EvFstat d) = (d = root \<or> d \<in> S)"
| "ev_ok root S (EvMkdirat d n) = ((d = root \<or> d \<in> S) \<and> plain_name n)"
| "ev_ok root S (EvUnlinkat d n) = ((d = root \<or> d \<in> S) \<and> plain_name n)"
| "ev_ok root S (EvRenameat d n d' n') =
     ((d = root \<or> d \<in> S) \<and> plain_name n \<and> (d' = root \<or> d' \<in> S) \<and> plain_name n')"
| "ev_ok root S (EvFchmod d) = (d = root \<or> d \<in> S)"
| "ev_ok root S (EvFchown d) = (d = root \<or> d \<in> S)"
| "ev_ok root S (EvWrite d) = (d = root \<or> d \<in> S)"
| "ev_ok root S (EvReaddir d) = (d = root \<or> d \<in> S)"
| "ev_ok root S (EvOpenPath p _) = False"

fun confined :: "int \<Rightarrow> int set \<Rightarrow> event list \<Rightarrow> bool" where
  "confined root S [] = True"
| "confined root S (e # es) = (ev_ok root S e \<and> confined root (ev_new S e) es)"

definition trusted :: "int set \<Rightarrow> event list \<Rightarrow> int set" where
  "trusted S es = foldl ev_new S es"

section \<open>What a program run on a traced kernel looks like\<close>

text \<open>
  \<open>confines root S P f g\<close>: the run \<open>g\<close> on the traced kernel gives the same result and world
  as the run \<open>f\<close> on the kernel itself, logs only confined calls, and the result satisfies
  \<open>P\<close> with the descriptors trusted at the end.
\<close>

definition confines ::
  "int \<Rightarrow> int set \<Rightarrow> (int set \<Rightarrow> 'a \<Rightarrow> bool) \<Rightarrow> ('w \<Rightarrow> 'a \<times> 'w) \<Rightarrow> ('w \<times> event list \<Rightarrow> 'a \<times> 'w \<times> event list) \<Rightarrow> bool" where
  "confines root S P f g \<longleftrightarrow>
     (\<forall>w t. \<exists>es. g (w, t) = (fst (f w), (snd (f w), t @ es)) \<and> confined root S es \<and>
        P (trusted S es) (fst (f w)))"

lemma confined_append: "confined root S (es @ fs) \<longleftrightarrow> confined root S es \<and> confined root (trusted S es) fs"
  by (induction es arbitrary: S) (auto simp: trusted_def)

lemma trusted_simps [simp]:
  "trusted S [] = S" "trusted S (e # es) = trusted (ev_new S e) es"
  "trusted S (es @ fs) = trusted (trusted S es) fs"
  by (simp_all add: trusted_def)

lemma confines_return: "P S a \<Longrightarrow> confines root S P (\<lambda>w. (a, w)) (\<lambda>w. (a, w))"
  by (auto simp: confines_def)

lemma confines_bind:
  assumes "confines root S Q f g"
    and "\<And>S' a. Q S' a \<Longrightarrow> confines root S' P (f' a) (g' a)"
  shows "confines root S P (\<lambda>w. case f w of (a, w1) \<Rightarrow> f' a w1) (\<lambda>w. case g w of (a, w1) \<Rightarrow> g' a w1)"
proof (unfold confines_def, intro allI)
  fix w t
  obtain a w1 where f: "f w = (a, w1)" by force
  with assms(1) obtain es where g: "g (w, t) = (a, (w1, t @ es))" "confined root S es" "Q (trusted S es) a"
    unfolding confines_def by (metis fst_conv snd_conv)
  obtain b w2 where f': "f' a w1 = (b, w2)" by force
  from assms(2) [OF g(3)] obtain fs where
    g': "g' a (w1, t @ es) = (b, (w2, (t @ es) @ fs))" "confined root (trusted S es) fs"
      "P (trusted (trusted S es) fs) b"
    unfolding confines_def by (metis f' fst_conv snd_conv)
  show "\<exists>es. (case g (w, t) of (a, w1) \<Rightarrow> g' a w1) =
      (fst (case f w of (a, w1) \<Rightarrow> f' a w1), (snd (case f w of (a, w1) \<Rightarrow> f' a w1), t @ es)) \<and>
    confined root S es \<and> P (trusted S es) (fst (case f w of (a, w1) \<Rightarrow> f' a w1))"
    using f f' g g' by (intro exI [of _ "es @ fs"]) (simp add: confined_append)
qed

lemma confines_logged:
  assumes "\<And>r. ev_ok root S (ev r)" and "\<And>r. P (ev_new S (ev r)) r"
  shows "confines root S P c (logged c ev)"
  using assms by (auto simp: confines_def logged_def split: prod.splits)

lemma confines_if:
  "(b \<Longrightarrow> confines root S P f g) \<Longrightarrow> (\<not> b \<Longrightarrow> confines root S P f' g') \<Longrightarrow>
   confines root S P (\<lambda>w. if b then f w else f' w) (\<lambda>w. if b then g w else g' w)"
  by (cases b) simp_all

lemma confines_sum:
  "(\<And>e. r = Inl e \<Longrightarrow> confines root S P (f e) (g e)) \<Longrightarrow>
   (\<And>x. r = Inr x \<Longrightarrow> confines root S P (f' x) (g' x)) \<Longrightarrow>
   confines root S P (\<lambda>w. case r of Inl e \<Rightarrow> f e w | Inr x \<Rightarrow> f' x w)
     (\<lambda>w. case r of Inl e \<Rightarrow> g e w | Inr x \<Rightarrow> g' x w)"
  by (cases r) simp_all

lemma confines_option:
  "(r = None \<Longrightarrow> confines root S P f g) \<Longrightarrow>
   (\<And>x. r = Some x \<Longrightarrow> confines root S P (f' x) (g' x)) \<Longrightarrow>
   confines root S P (\<lambda>w. case r of None \<Rightarrow> f w | Some x \<Rightarrow> f' x w)
     (\<lambda>w. case r of None \<Rightarrow> g w | Some x \<Rightarrow> g' x w)"
  by (cases r) simp_all

text \<open>One rule per system call: what it must satisfy to be confined, and what it adds.\<close>

abbreviation from_root :: "int \<Rightarrow> int set \<Rightarrow> int \<Rightarrow> bool" where
  "from_root root S d \<equiv> d = root \<or> d \<in> S"

definition grown :: "int set \<Rightarrow> int set \<Rightarrow> errno + int \<Rightarrow> bool" where
  "grown S S' r \<longleftrightarrow> S' = (case r of Inl _ \<Rightarrow> S | Inr f \<Rightarrow> insert f S)"

lemma confines_dup:
  "from_root root S d \<Longrightarrow> confines root S (grown S) (k_dup k d) (k_dup (traced k) d)"
  unfolding traced_def
  by (simp, rule confines_logged) (auto simp: grown_def split: sum.splits)

lemma confines_openat:
  "from_root root S d \<Longrightarrow> plain_name n \<Longrightarrow> of_nofollow fl \<Longrightarrow>
   confines root S (grown S) (k_openat k d n fl m) (k_openat (traced k) d n fl m)"
  unfolding traced_def
  by (simp, rule confines_logged) (auto simp: grown_def split: sum.splits)

lemma confines_close:
  "confines root S (\<lambda>S' _. S' = S) (k_close k d) (k_close (traced k) d)"
  by (simp add: traced_def confines_logged)

lemma confines_on_fd:
  assumes "from_root root S d"
  shows "confines root S (\<lambda>S' _. S' = S) (k_fstat k d) (k_fstat (traced k) d)"
    and "confines root S (\<lambda>S' _. S' = S) (k_fchmod k d m) (k_fchmod (traced k) d m)"
    and "confines root S (\<lambda>S' _. S' = S) (k_fchown k d u g) (k_fchown (traced k) d u g)"
    and "confines root S (\<lambda>S' _. S' = S) (k_write k d b) (k_write (traced k) d b)"
    and "confines root S (\<lambda>S' _. S' = S) (k_readdir k d) (k_readdir (traced k) d)"
  using assms by (simp_all add: traced_def confines_logged)

lemma confines_on_entry:
  assumes "from_root root S d" "plain_name n"
  shows "confines root S (\<lambda>S' _. S' = S) (k_readlinkat k d n) (k_readlinkat (traced k) d n)"
    and "confines root S (\<lambda>S' _. S' = S) (k_fstatat k d n) (k_fstatat (traced k) d n)"
    and "confines root S (\<lambda>S' _. S' = S) (k_mkdirat k d n m) (k_mkdirat (traced k) d n m)"
    and "confines root S (\<lambda>S' _. S' = S) (k_unlinkat k d n f) (k_unlinkat (traced k) d n f)"
  using assms by (simp_all add: traced_def confines_logged)

lemma confines_renameat:
  "from_root root S d \<Longrightarrow> plain_name n \<Longrightarrow> from_root root S d' \<Longrightarrow> plain_name n' \<Longrightarrow>
   confines root S (\<lambda>S' _. S' = S) (k_renameat k d n d' n') (k_renameat (traced k) d n d' n')"
  by (simp add: traced_def confines_logged)

lemmas confines_calls = confines_dup confines_openat confines_close confines_on_fd
  confines_on_entry confines_renameat

lemmas confines_intros = confines_if confines_sum confines_option

lemma confines_mono:
  "confines root S P f g \<Longrightarrow> (\<And>S' a. P S' a \<Longrightarrow> Q S' a) \<Longrightarrow> confines root S Q f g"
  unfolding confines_def by meson

text \<open>A call that is not one of the kernel leaves the log alone.\<close>

definition quiet :: "('w \<Rightarrow> 'a \<times> 'w) \<Rightarrow> 'w \<times> event list \<Rightarrow> 'a \<times> 'w \<times> event list" where
  "quiet f = (\<lambda>(w, t). case f w of (a, w') \<Rightarrow> (a, (w', t)))"

lemma confines_quiet: "confines root S (\<lambda>S' _. S' = S) f (quiet f)"
  by (auto simp: confines_def quiet_def split: prod.splits)

lemma ev_ok_mono: "ev_ok root S e \<Longrightarrow> S \<subseteq> T \<Longrightarrow> ev_ok root T e"
  by (cases e) auto

lemma ev_new_mono: "S \<subseteq> T \<Longrightarrow> ev_new S e \<subseteq> ev_new T e"
  by (cases "(S, e)" rule: ev_new.cases) auto

lemma confined_mono: "confined root S es \<Longrightarrow> S \<subseteq> T \<Longrightarrow> confined root T es"
proof (induction es arbitrary: S T)
  case (Cons e es)
  then show ?case using ev_ok_mono ev_new_mono by (metis confined.simps(2))
qed simp

section \<open>Hoare triples\<close>

definition triple :: "('w \<Rightarrow> bool) \<Rightarrow> ('w \<Rightarrow> 'a \<times> 'w) \<Rightarrow> ('a \<Rightarrow> 'w \<Rightarrow> bool) \<Rightarrow> bool" where
  "triple P f Q \<longleftrightarrow> (\<forall>w. P w \<longrightarrow> (case f w of (a, w') \<Rightarrow> Q a w'))"

lemma tripleD: "triple P f Q \<Longrightarrow> P w \<Longrightarrow> f w = (a, w') \<Longrightarrow> Q a w'"
  by (force simp: triple_def)

lemma triple_return: "(\<And>w. P w \<Longrightarrow> Q a w) \<Longrightarrow> triple P (\<lambda>w. (a, w)) Q"
  by (simp add: triple_def)

lemma triple_bind:
  "triple P f Q \<Longrightarrow> (\<And>a. triple (Q a) (g a) R) \<Longrightarrow>
   triple P (\<lambda>w. case f w of (a, w1) \<Rightarrow> g a w1) R"
  unfolding triple_def by (fastforce split: prod.splits)

lemma triple_conseq:
  "triple P f Q \<Longrightarrow> (\<And>w. P' w \<Longrightarrow> P w) \<Longrightarrow> (\<And>a w. Q a w \<Longrightarrow> Q' a w) \<Longrightarrow> triple P' f Q'"
  unfolding triple_def by (fastforce split: prod.splits)

lemma triple_if:
  "(b \<Longrightarrow> triple P f Q) \<Longrightarrow> (\<not> b \<Longrightarrow> triple P g Q) \<Longrightarrow> triple P (\<lambda>w. if b then f w else g w) Q"
  by (cases b) simp_all

lemma triple_sum:
  "(\<And>e. r = Inl e \<Longrightarrow> triple P (f e) Q) \<Longrightarrow> (\<And>x. r = Inr x \<Longrightarrow> triple P (g x) Q) \<Longrightarrow>
   triple P (\<lambda>w. case r of Inl e \<Rightarrow> f e w | Inr x \<Rightarrow> g x w) Q"
  by (cases r) simp_all

lemma triple_option:
  "(r = None \<Longrightarrow> triple P f Q) \<Longrightarrow> (\<And>x. r = Some x \<Longrightarrow> triple P (g x) Q) \<Longrightarrow>
   triple P (\<lambda>w. case r of None \<Rightarrow> f w | Some x \<Rightarrow> g x w) Q"
  by (cases r) simp_all

lemma triple_False: "triple (\<lambda>_. False) f Q"
  by (simp add: triple_def)

lemma triple_pure: "(b \<Longrightarrow> triple P f Q) \<Longrightarrow> triple (\<lambda>w. b \<and> P w) f Q"
  by (simp add: triple_def)

lemma triple_exI: "(\<And>x. triple (P x) f Q) \<Longrightarrow> triple (\<lambda>w. \<exists>x. P x w) f Q"
  unfolding triple_def by (fastforce split: prod.splits)

lemmas triple_intros = triple_if triple_sum triple_option

section \<open>Laws of descriptors\<close>

text \<open>
  \<open>fds w\<close> is the set of open descriptors. \<open>dup\<close>, \<open>open\<close> and \<open>openat\<close> return a descriptor
  that was not open, \<open>close\<close> releases its argument whatever it returns, and no other call
  opens or closes any.
\<close>

definition opened :: "int set \<Rightarrow> 'e + int \<Rightarrow> int set \<Rightarrow> bool" where
  "opened F r A \<longleftrightarrow> (case r of Inl _ \<Rightarrow> A = F | Inr f \<Rightarrow> 0 \<le> f \<and> f \<notin> F \<and> A = insert f F)"

lemma opened_simps [simp]:
  "opened F (Inl e) A \<longleftrightarrow> A = F"
  "opened F (Inr f) A \<longleftrightarrow> 0 \<le> f \<and> f \<notin> F \<and> A = insert f F"
  by (simp_all add: opened_def)

locale fd_kernel =
  fixes k :: "'w kernel" and fds :: "'w \<Rightarrow> int set"
  assumes open_fds: "k_open k p fl w = (r, w') \<Longrightarrow>
      (case r of Inl _ \<Rightarrow> fds w' = fds w | Inr f \<Rightarrow> 0 \<le> f \<and> f \<notin> fds w \<and> fds w' = insert f (fds w))"
    and dup_fds: "k_dup k d w = (r, w') \<Longrightarrow>
      (case r of Inl _ \<Rightarrow> fds w' = fds w | Inr f \<Rightarrow> 0 \<le> f \<and> f \<notin> fds w \<and> fds w' = insert f (fds w))"
    and openat_fds: "k_openat k d n fl m w = (r, w') \<Longrightarrow>
      (case r of Inl _ \<Rightarrow> fds w' = fds w | Inr f \<Rightarrow> 0 \<le> f \<and> f \<notin> fds w \<and> fds w' = insert f (fds w))"
    and close_fds: "k_close k d w = (rc, w') \<Longrightarrow> fds w' = fds w - {d}"
    and readlinkat_fds: "k_readlinkat k d n w = (rs, w') \<Longrightarrow> fds w' = fds w"
    and fstatat_fds: "k_fstatat k d n w = (rt, w') \<Longrightarrow> fds w' = fds w"
    and fstat_fds: "k_fstat k d w = (rt, w') \<Longrightarrow> fds w' = fds w"
    and mkdirat_fds: "k_mkdirat k d n m w = (rc, w') \<Longrightarrow> fds w' = fds w"
    and unlinkat_fds: "k_unlinkat k d n b w = (rc, w') \<Longrightarrow> fds w' = fds w"
    and renameat_fds: "k_renameat k d n d' n' w = (rc, w') \<Longrightarrow> fds w' = fds w"
    and fchmod_fds: "k_fchmod k d m w = (rc, w') \<Longrightarrow> fds w' = fds w"
    and fchown_fds: "k_fchown k d u g w = (rc, w') \<Longrightarrow> fds w' = fds w"
    and write_fds: "k_write k d b' w = (rc, w') \<Longrightarrow> fds w' = fds w"
    and readdir_fds: "k_readdir k d w = (re, w') \<Longrightarrow> fds w' = fds w"
begin

lemmas fds_laws = open_fds dup_fds openat_fds close_fds readlinkat_fds fstatat_fds fstat_fds
  mkdirat_fds unlinkat_fds renameat_fds fchmod_fds fchown_fds write_fds readdir_fds

lemma open_triple:
  "triple (\<lambda>w. fds w = F) (k_open k p fl) (\<lambda>r w. opened F r (fds w))"
  by (auto simp: triple_def opened_def dest!: open_fds split: sum.splits prod.splits)

lemma dup_triple:
  "triple (\<lambda>w. fds w = F) (k_dup k d) (\<lambda>r w. opened F r (fds w))"
  by (auto simp: triple_def opened_def dest!: dup_fds split: sum.splits prod.splits)

lemma openat_triple:
  "triple (\<lambda>w. fds w = F) (k_openat k d n fl m) (\<lambda>r w. opened F r (fds w))"
  by (auto simp: triple_def opened_def dest!: openat_fds split: sum.splits prod.splits)

lemma close_triple:
  "triple (\<lambda>w. fds w = F) (k_close k d) (\<lambda>_ w. fds w = F - {d})"
  by (auto simp: triple_def dest!: close_fds split: prod.splits)

lemma keep_triples:
  "triple (\<lambda>w. fds w = F) (k_readlinkat k d n) (\<lambda>_ w. fds w = F)"
  "triple (\<lambda>w. fds w = F) (k_fstatat k d n) (\<lambda>_ w. fds w = F)"
  "triple (\<lambda>w. fds w = F) (k_fstat k d) (\<lambda>_ w. fds w = F)"
  "triple (\<lambda>w. fds w = F) (k_mkdirat k d n m) (\<lambda>_ w. fds w = F)"
  "triple (\<lambda>w. fds w = F) (k_unlinkat k d n b) (\<lambda>_ w. fds w = F)"
  "triple (\<lambda>w. fds w = F) (k_renameat k d n d' n') (\<lambda>_ w. fds w = F)"
  "triple (\<lambda>w. fds w = F) (k_fchmod k d m) (\<lambda>_ w. fds w = F)"
  "triple (\<lambda>w. fds w = F) (k_fchown k d u g) (\<lambda>_ w. fds w = F)"
  "triple (\<lambda>w. fds w = F) (k_write k d b') (\<lambda>_ w. fds w = F)"
  "triple (\<lambda>w. fds w = F) (k_readdir k d) (\<lambda>_ w. fds w = F)"
  by (auto simp: triple_def dest!: fds_laws split: prod.splits)

end

section \<open>Laws of directory lookup\<close>

text \<open>
  \<open>obj w d\<close> is the file object an open descriptor refers to, \<open>ent w p n\<close> the object entry
  \<open>n\<close> of directory object \<open>p\<close> names. \<open>openat\<close> of a single name with \<open>O_NOFOLLOW\<close> returns
  a new descriptor for exactly that entry, and opening neither removes entries nor moves
  other descriptors. (The laws describe a file system that no other process changes
  between the calls.)
\<close>

fun path_lookup :: "('o \<Rightarrow> string \<Rightarrow> 'o option) \<Rightarrow> 'o \<Rightarrow> string list \<Rightarrow> 'o option" where
  "path_lookup ent p [] = Some p"
| "path_lookup ent p (n # ns) = (case ent p n of None \<Rightarrow> None | Some c \<Rightarrow> path_lookup ent c ns)"

definition grows :: "('w \<Rightarrow> int \<Rightarrow> 'o option) \<Rightarrow> ('w \<Rightarrow> 'o \<Rightarrow> string \<Rightarrow> 'o option) \<Rightarrow> 'w \<Rightarrow> 'w \<Rightarrow> bool" where
  "grows obj ent w w' \<longleftrightarrow>
     (\<forall>p n c. ent w p n = Some c \<longrightarrow> ent w' p n = Some c) \<and> (\<forall>x p. obj w x = Some p \<longrightarrow> obj w' x = Some p)"

locale dir_kernel =
  fixes k :: "'w kernel" and obj :: "'w \<Rightarrow> int \<Rightarrow> 'o option" and ent :: "'w \<Rightarrow> 'o \<Rightarrow> string \<Rightarrow> 'o option"
  assumes dup_dir: "k_dup k d w = (r, w') \<Longrightarrow> grows obj ent w w' \<and>
      (\<forall>f. r = Inr f \<longrightarrow> obj w f = None \<and> obj w' f = obj w d)"
    and openat_dir: "of_nofollow fl \<Longrightarrow> plain_name n \<Longrightarrow> k_openat k d n fl m w = (r, w') \<Longrightarrow>
      grows obj ent w w' \<and> (\<forall>f. r = Inr f \<longrightarrow> obj w f = None \<and>
        (\<exists>p c. obj w d = Some p \<and> ent w' p n = Some c \<and> obj w' f = Some c))"
    and close_dir: "k_close k d w = (rc, w') \<Longrightarrow> ent w' = ent w \<and> (\<forall>x. x \<noteq> d \<longrightarrow> obj w' x = obj w x)"
    and readlinkat_dir: "k_readlinkat k d n w = (rs, w') \<Longrightarrow> ent w' = ent w \<and> obj w' = obj w"
    and fstatat_dir: "k_fstatat k d n w = (rt, w') \<Longrightarrow> ent w' = ent w \<and> obj w' = obj w"
begin

text \<open>Descriptor \<open>d\<close> refers to what path \<open>ps\<close> of plain names leads to from the object of \<open>root\<close>.\<close>

definition at :: "int \<Rightarrow> 'o \<Rightarrow> int \<Rightarrow> string list \<Rightarrow> 'w \<Rightarrow> bool" where
  "at root p d ps w \<longleftrightarrow>
     obj w root = Some p \<and> (\<exists>c. obj w d = Some c \<and> path_lookup (ent w) p ps = Some c)"

end

lemma path_lookup_append:
  "path_lookup ent p (ps @ qs) = (case path_lookup ent p ps of None \<Rightarrow> None | Some c \<Rightarrow> path_lookup ent c qs)"
  by (induction ps arbitrary: p) (auto split: option.splits)

lemma grows_lookup:
  "grows obj ent w w' \<Longrightarrow> path_lookup (ent w) p ps = Some c \<Longrightarrow> path_lookup (ent w') p ps = Some c"
  by (induction ps arbitrary: p) (auto simp: grows_def split: option.splits)

context dir_kernel
begin

lemma at_grows: "at root p d ps w \<Longrightarrow> grows obj ent w w' \<Longrightarrow> at root p d ps w'"
  using grows_lookup [of obj ent w w' p ps] by (fastforce simp: at_def grows_def)

lemma dup_at:
  "triple (\<lambda>w. obj w root = Some p) (k_dup k root)
     (\<lambda>r w. obj w root = Some p \<and> (\<forall>f. r = Inr f \<longrightarrow> f \<noteq> root \<and> at root p f [] w))"
  by (fastforce simp: triple_def at_def grows_def dest!: dup_dir split: prod.splits)

lemma openat_at:
  assumes "of_nofollow fl" "plain_name n"
  shows "triple (at root p d ps) (k_openat k d n fl m)
     (\<lambda>r w. at root p d ps w \<and> (\<forall>f. r = Inr f \<longrightarrow> f \<noteq> root \<and> f \<noteq> d \<and> at root p f (ps @ [n]) w))"
proof (unfold triple_def, clarify)
  fix w r w'
  assume at: "at root p d ps w" and eq: "k_openat k d n fl m w = (r, w')"
  from openat_dir [OF assms eq] have g: "grows obj ent w w'" by blast
  have at': "at root p d ps w'" by (rule at_grows [OF at g])
  moreover have "f \<noteq> root \<and> f \<noteq> d \<and> at root p f (ps @ [n]) w'" if "r = Inr f" for f
  proof -
    from openat_dir [OF assms eq] that obtain q c where
      f: "obj w f = None" "obj w d = Some q" "ent w' q n = Some c" "obj w' f = Some c" by blast
    moreover from f(2) g have "obj w' d = Some q" by (simp add: grows_def)
    ultimately show ?thesis
      using at at' by (auto simp: at_def path_lookup_append split: option.splits)
  qed
  ultimately show "at root p d ps w' \<and>
      (\<forall>f. r = Inr f \<longrightarrow> f \<noteq> root \<and> f \<noteq> d \<and> at root p f (ps @ [n]) w')" by blast
qed

lemma close_at:
  "d \<noteq> root \<Longrightarrow> d \<noteq> f \<Longrightarrow> triple (at root p f ps) (k_close k d) (\<lambda>_. at root p f ps)"
  by (auto simp: triple_def at_def dest!: close_dir split: prod.splits)

lemma close_root: "d \<noteq> root \<Longrightarrow> triple (\<lambda>w. obj w root = Some p) (k_close k d) (\<lambda>_ w. obj w root = Some p)"
  by (auto simp: triple_def dest!: close_dir split: prod.splits)

lemma look_root:
  "triple (\<lambda>w. obj w root = Some p) (k_readlinkat k d n) (\<lambda>_ w. obj w root = Some p)"
  "triple (\<lambda>w. obj w root = Some p) (k_fstatat k d n) (\<lambda>_ w. obj w root = Some p)"
  by (auto simp: triple_def dest!: readlinkat_dir fstatat_dir split: prod.splits)

end

section \<open>Laws of file contents\<close>

text \<open>
  \<open>data w c\<close> are the bytes of file object \<open>c\<close> and \<open>off w d\<close> the offset of descriptor \<open>d\<close>.
  Opening without \<open>O_CREAT\<close> and \<open>O_TRUNC\<close> changes nothing; \<open>O_CREAT | O_EXCL\<close> makes a new
  empty object that no entry named before; a write stores its bytes at the offset; renaming
  within a directory replaces the target entry in one step, does nothing when both names are
  the same file, and changes nothing when it fails.
\<close>

definition same_files ::
  "('w \<Rightarrow> 'o \<Rightarrow> string \<Rightarrow> 'o option) \<Rightarrow> ('w \<Rightarrow> 'o \<Rightarrow> string) \<Rightarrow> 'w \<Rightarrow> 'w \<Rightarrow> bool" where
  "same_files ent data w w' \<longleftrightarrow> ent w' = ent w \<and> data w' = data w"

definition set_entry :: "('o \<Rightarrow> string \<Rightarrow> 'o option) \<Rightarrow> 'o \<Rightarrow> string \<Rightarrow> 'o option \<Rightarrow> 'o \<Rightarrow> string \<Rightarrow> 'o option" where
  "set_entry e p n c = e(p := (e p)(n := c))"

lemma set_entry_apply [simp]:
  "set_entry e p n c q m = (if q = p \<and> m = n then c else e q m)"
  by (simp add: set_entry_def)

locale file_kernel = dir_kernel k obj ent
  for k :: "'w kernel" and obj :: "'w \<Rightarrow> int \<Rightarrow> 'o option" and ent :: "'w \<Rightarrow> 'o \<Rightarrow> string \<Rightarrow> 'o option" +
  fixes data :: "'w \<Rightarrow> 'o \<Rightarrow> string" and off :: "'w \<Rightarrow> int \<Rightarrow> nat"
  assumes dup_file: "k_dup k d w = (r, w') \<Longrightarrow> same_files ent data w w'"
    and openat_keep: "\<not> of_creat fl \<Longrightarrow> \<not> of_trunc fl \<Longrightarrow> k_openat k d n fl m w = (r, w') \<Longrightarrow>
      same_files ent data w w'"
    and openat_fail: "k_openat k d n fl m w = (Inl e, w') \<Longrightarrow> same_files ent data w w'"
    and openat_excl: "of_creat fl \<Longrightarrow> of_excl fl \<Longrightarrow> plain_name n \<Longrightarrow> k_openat k d n fl m w = (Inr f, w') \<Longrightarrow>
      \<exists>p c. obj w d = Some p \<and> ent w p n = None \<and> (\<forall>q x. ent w q x \<noteq> Some c) \<and> f \<noteq> d \<and>
        ent w' = set_entry (ent w) p n (Some c) \<and> data w' = (data w)(c := []) \<and>
        obj w' d = Some p \<and> obj w' f = Some c \<and> off w' f = 0"
    and close_file: "k_close k d w = (rc, w') \<Longrightarrow> same_files ent data w w' \<and> (\<forall>x. x \<noteq> d \<longrightarrow> off w' x = off w x)"
    and readlinkat_file: "k_readlinkat k d n w = (rs, w') \<Longrightarrow> same_files ent data w w'"
    and fstatat_file: "k_fstatat k d n w = (rt, w') \<Longrightarrow> same_files ent data w w'"
    and fstat_file: "k_fstat k d w = (rt, w') \<Longrightarrow> same_files ent data w w' \<and> obj w' = obj w \<and> off w' = off w"
    and fchmod_file: "k_fchmod k d m w = (rc, w') \<Longrightarrow> same_files ent data w w' \<and> obj w' = obj w \<and> off w' = off w"
    and write_file: "k_write k d b w = (rc, w') \<Longrightarrow> ent w' = ent w \<and> obj w' = obj w \<and>
      (\<forall>c. obj w d \<noteq> Some c \<longrightarrow> data w' c = data w c)"
    and write_data: "k_write k d b w = (Inr (), w') \<Longrightarrow> obj w d = Some c \<Longrightarrow> off w d \<le> length (data w c) \<Longrightarrow>
      data w' c = take (off w d) (data w c) @ b @ drop (off w d + length b) (data w c) \<and>
      off w' d = off w d + length b"
    and renameat_fail: "k_renameat k d n d n' w = (Inl e, w') \<Longrightarrow> same_files ent data w w' \<and> obj w' = obj w"
    and renameat_ok: "k_renameat k d n d n' w = (Inr (), w') \<Longrightarrow> obj w d = Some p \<Longrightarrow> ent w p n = Some c \<Longrightarrow>
      obj w' = obj w \<and> data w' = data w \<and>
      ent w' = (if ent w p n' = Some c then ent w else set_entry (set_entry (ent w) p n None) p n' (Some c))"
    and unlinkat_file: "k_unlinkat k d n isdir w = (rc, w') \<Longrightarrow> data w' = data w \<and> obj w' = obj w \<and>
      (ent w' = ent w \<or> (\<exists>p. obj w d = Some p \<and> ent w' = set_entry (ent w) p n None))"

end
