(* ===== verification/Jail.thy ===== *)
theory Jail
  imports Kernel_Api
begin

text \<open>
  Package \<open>internal/jail\<close>: file operations confined to a directory descriptor. A
  \<open>jail_root\<close> is the code's \<open>Root\<close>; the operations take the kernel, the root, their
  arguments and the world, and return an error or a result and the next world, with every
  system call of the source in the source's order (descriptors are closed where the code
  closes them, including in deferred calls).

  The path algorithm is \<open>components\<close> (lexical normalisation that refuses to climb above the
  root), \<open>walk\<close> (one pass of \<open>openat\<close> over the components, or the new component list when
  a symbolic link is met) and \<open>resolve\<close> (at most \<open>maxSymlinks\<close> passes).
\<close>

section \<open>Errors and the root\<close>

datatype body_error = MaxBytesError | UnexpectedEOF | BodyReadError

datatype jail_error =
  ErrInvalid | ErrEscape | ErrTooManyLinks | ErrNotEmpty | ErrNotDir
| Sys errno | Body body_error | RandFailed

record jail_root =
  r_fd :: int
  r_name :: string

definition maxSymlinks :: nat where
  "maxSymlinks = 8"

definition is_escape :: "jail_error \<Rightarrow> bool" where
  "is_escape e \<longleftrightarrow> e = ErrEscape \<or> e = ErrTooManyLinks"

definition IsNotExist :: "jail_error \<Rightarrow> bool" where
  "IsNotExist e \<longleftrightarrow> e = Sys ENOENT"

section \<open>Lexical components\<close>

abbreviation nul :: char where "nul \<equiv> CHR 0x00"
abbreviation backslash :: char where "backslash \<equiv> CHR 0x5C"

fun components_loop :: "string list \<Rightarrow> string list \<Rightarrow> jail_error + string list" where
  "components_loop out [] = Inr out"
| "components_loop out (p # ps) =
     (if p = [] \<or> p = dot then components_loop out ps
      else if p = dotdot then (if out = [] then Inl ErrEscape else components_loop (butlast out) ps)
      else if nul \<in> set p then Inl ErrInvalid
      else components_loop (out @ [p]) ps)"

definition components :: "string \<Rightarrow> jail_error + string list" where
  "components rel =
     (if nul \<in> set rel then Inl ErrInvalid
      else if backslash \<in> set rel then Inl ErrInvalid
      else components_loop [] (split_sep slash rel))"

definition joinComponents :: "string list \<Rightarrow> string \<Rightarrow> jail_error + string list" where
  "joinComponents base target =
     (let prefix = join_sep ''/'' base
      in if prefix = [] then components target else components (prefix @ ''/'' @ target))"

section \<open>Walking and resolving\<close>

definition isSymlinkAt :: "'w kernel \<Rightarrow> int \<Rightarrow> string \<Rightarrow> 'w \<Rightarrow> bool \<times> 'w" where
  "isSymlinkAt k dirfd name w =
     (case k_fstatat k dirfd name w of
        (Inl _, w1) \<Rightarrow> (False, w1)
      | (Inr st, w1) \<Rightarrow> (st_type st = FLnk, w1))"

text \<open>
  The error branch of the loop body of \<open>walk\<close>: \<open>openat\<close> failed with \<open>e\<close> on \<open>name\<close>, with
  \<open>base\<close> the components before it and \<open>rest\<close> those after it.
\<close>

definition walk_fail ::
  "'w kernel \<Rightarrow> int \<Rightarrow> string list \<Rightarrow> string \<Rightarrow> string list \<Rightarrow> errno \<Rightarrow> 'w \<Rightarrow>
    (jail_error + int \<times> string list) \<times> 'w" where
  "walk_fail k dirfd base name rest e w =
     (case (if e = ELOOP \<or> e = EMLINK then (True, w) else isSymlinkAt k dirfd name w) of (islink, w1) \<Rightarrow>
      if islink then
        (case k_readlinkat k dirfd name w1 of (lr, w2) \<Rightarrow>
         case k_close k dirfd w2 of (_, w3) \<Rightarrow>
         case lr of
           Inl _ \<Rightarrow> (Inl (Sys e), w3)
         | Inr target \<Rightarrow>
             if has_prefix target ''/'' then (Inl ErrEscape, w3)
             else (case joinComponents base target of
                     Inl je \<Rightarrow> (Inl je, w3)
                   | Inr joined \<Rightarrow> (Inr (-1, joined @ rest), w3)))
      else
        (case k_close k dirfd w1 of (_, w2) \<Rightarrow> (Inl (Sys e), w2)))"

fun walk_loop ::
  "'w kernel \<Rightarrow> int \<Rightarrow> string list \<Rightarrow> string list \<Rightarrow> oflags \<Rightarrow> 32 word \<Rightarrow> 'w \<Rightarrow>
    (jail_error + int \<times> string list) \<times> 'w" where
  "walk_loop k dirfd base [] flags mode w = (Inr (dirfd, []), w)"
| "walk_loop k dirfd base (name # rest) flags mode w =
     (case k_openat k dirfd name
        (if rest = [] then flags\<lparr>of_nofollow := True, of_cloexec := True\<rparr>
         else o_rdonly\<lparr>of_nofollow := True, of_cloexec := True, of_directory := True\<rparr>)
        (if rest = [] then mode else 0) w of (r, w1) \<Rightarrow>
      case r of
        Inl e \<Rightarrow> walk_fail k dirfd base name rest e w1
      | Inr fd \<Rightarrow>
          (case k_close k dirfd w1 of (_, w2) \<Rightarrow>
           walk_loop k fd (base @ [name]) rest flags mode w2))"

definition walk ::
  "'w kernel \<Rightarrow> jail_root \<Rightarrow> string list \<Rightarrow> oflags \<Rightarrow> 32 word \<Rightarrow> 'w \<Rightarrow>
    (jail_error + int \<times> string list) \<times> 'w" where
  "walk k r parts flags mode w =
     (case k_dup k (r_fd r) w of (d, w1) \<Rightarrow>
      case d of
        Inl e \<Rightarrow> (Inl (Sys e), w1)
      | Inr dirfd \<Rightarrow>
          if parts = [] then
            (if of_creat flags then (case k_close k dirfd w1 of (_, w2) \<Rightarrow> (Inl ErrInvalid, w2))
             else (Inr (dirfd, []), w1))
          else walk_loop k dirfd [] parts flags mode w1)"

fun resolve_loop ::
  "nat \<Rightarrow> 'w kernel \<Rightarrow> jail_root \<Rightarrow> string list \<Rightarrow> oflags \<Rightarrow> 32 word \<Rightarrow> 'w \<Rightarrow> (jail_error + int) \<times> 'w" where
  "resolve_loop 0 k r parts flags mode w = (Inl ErrTooManyLinks, w)"
| "resolve_loop (Suc n) k r parts flags mode w =
     (case walk k r parts flags mode w of (res, w1) \<Rightarrow>
      case res of
        Inl e \<Rightarrow> (Inl e, w1)
      | Inr fp \<Rightarrow> if 0 \<le> fst fp then (Inr (fst fp), w1)
                  else resolve_loop n k r (snd fp) flags mode w1)"

definition resolve ::
  "'w kernel \<Rightarrow> jail_root \<Rightarrow> string \<Rightarrow> oflags \<Rightarrow> 32 word \<Rightarrow> 'w \<Rightarrow> (jail_error + int) \<times> 'w" where
  "resolve k r rel flags mode w =
     (case components rel of
        Inl e \<Rightarrow> (Inl e, w)
      | Inr parts \<Rightarrow> resolve_loop maxSymlinks k r parts flags mode w)"

definition parentOf ::
  "'w kernel \<Rightarrow> jail_root \<Rightarrow> string \<Rightarrow> 'w \<Rightarrow> (jail_error + int \<times> string) \<times> 'w" where
  "parentOf k r rel w =
     (case components rel of
        Inl e \<Rightarrow> (Inl e, w)
      | Inr parts \<Rightarrow>
          if parts = [] then (Inl ErrInvalid, w)
          else (case resolve k r (join_sep ''/'' (butlast parts))
                  (o_rdonly\<lparr>of_directory := True, of_cloexec := True\<rparr>) 0 w of (res, w1) \<Rightarrow>
                case res of
                  Inl e \<Rightarrow> (Inl e, w1)
                | Inr fd \<Rightarrow> (Inr (fd, last parts), w1)))"

section \<open>Operations\<close>

definition fileName :: "string \<Rightarrow> string" where
  "fileName rel = (if is_local rel then rel else dot)"

definition OpenRoot :: "'w kernel \<Rightarrow> string \<Rightarrow> 'w \<Rightarrow> (errno + jail_root) \<times> 'w" where
  "OpenRoot k path w =
     (case k_open k path (o_rdonly\<lparr>of_directory := True, of_cloexec := True\<rparr>) w of (res, w1) \<Rightarrow>
      case res of
        Inl e \<Rightarrow> (Inl e, w1)
      | Inr fd \<Rightarrow> (Inr \<lparr>r_fd = fd, r_name = path\<rparr>, w1))"

definition CloseRoot :: "'w kernel \<Rightarrow> jail_root \<Rightarrow> 'w \<Rightarrow> (errno + unit) \<times> jail_root \<times> 'w" where
  "CloseRoot k r w =
     (if r_fd r < 0 then (Inr (), r, w)
      else (case k_close k (r_fd r) w of (res, w1) \<Rightarrow> (res, r\<lparr>r_fd := -1\<rparr>, w1)))"

definition Open :: "'w kernel \<Rightarrow> jail_root \<Rightarrow> string \<Rightarrow> 'w \<Rightarrow> (jail_error + int) \<times> 'w" where
  "Open k r rel w = resolve k r rel (o_rdonly\<lparr>of_cloexec := True\<rparr>) 0 w"

text \<open>\<open>chmodNote\<close>: the \<open>Stat\<close> result only feeds the log line.\<close>

definition chmodNote :: "'w kernel \<Rightarrow> int \<Rightarrow> 32 word \<Rightarrow> 'w \<Rightarrow> (jail_error + unit) \<times> 'w" where
  "chmodNote k fd perm w =
     (case k_fstat k fd w of (_, w1) \<Rightarrow>
      case k_fchmod k fd perm w1 of (res, w2) \<Rightarrow>
      case res of Inl e \<Rightarrow> (Inl (Sys e), w2) | Inr _ \<Rightarrow> (Inr (), w2))"

definition perm_777 :: "32 word \<Rightarrow> 32 word" where
  "perm_777 perm = and perm 0x1FF"

definition Create :: "'w kernel \<Rightarrow> jail_root \<Rightarrow> string \<Rightarrow> 32 word \<Rightarrow> 'w \<Rightarrow> (jail_error + int) \<times> 'w" where
  "Create k r rel perm w =
     (case resolve k r rel (o_rdonly\<lparr>of_wronly := True, of_creat := True, of_trunc := True, of_cloexec := True\<rparr>)
             (perm_777 perm) w of (res, w1) \<Rightarrow>
      case res of
        Inl e \<Rightarrow> (Inl e, w1)
      | Inr fd \<Rightarrow>
          (case chmodNote k fd perm w1 of (cr, w2) \<Rightarrow>
           case cr of
             Inl e \<Rightarrow> (case k_close k fd w2 of (_, w3) \<Rightarrow> (Inl e, w3))
           | Inr _ \<Rightarrow> (Inr fd, w2)))"

text \<open>\<open>io.Copy\<close> from a reader that yields the given chunks and then an error or end of file.\<close>

fun io_copy :: "'w kernel \<Rightarrow> int \<Rightarrow> string list \<Rightarrow> body_error option \<Rightarrow> 'w \<Rightarrow> (jail_error + unit) \<times> 'w" where
  "io_copy k fd [] err w = (case err of None \<Rightarrow> (Inr (), w) | Some e \<Rightarrow> (Inl (Body e), w))"
| "io_copy k fd (c # cs) err w =
     (case k_write k fd c w of (res, w1) \<Rightarrow>
      case res of Inl e \<Rightarrow> (Inl (Sys e), w1) | Inr _ \<Rightarrow> io_copy k fd cs err w1)"

definition tmp_name :: "string \<Rightarrow> string" where
  "tmp_name rnd = ''.bootstash-'' @ hex_encode rnd"

text \<open>
  The body of \<open>Replace\<close> after the temporary file is open, up to the deferred calls: copy,
  chmod, close, rename, each error returning early.
\<close>

definition replace_body ::
  "'w kernel \<Rightarrow> int \<Rightarrow> string \<Rightarrow> string \<Rightarrow> int \<Rightarrow> 32 word \<Rightarrow> string list \<Rightarrow> body_error option \<Rightarrow> 'w \<Rightarrow>
    (jail_error + unit) \<times> 'w" where
  "replace_body k dirfd name tmp fd perm body err w =
     (case io_copy k fd body err w of (cr, w1) \<Rightarrow>
      case cr of
        Inl e \<Rightarrow> (case k_close k fd w1 of (_, w2) \<Rightarrow> (Inl e, w2))
      | Inr _ \<Rightarrow>
          (case chmodNote k fd perm w1 of (mr, w2) \<Rightarrow>
           case mr of
             Inl e \<Rightarrow> (case k_close k fd w2 of (_, w3) \<Rightarrow> (Inl e, w3))
           | Inr _ \<Rightarrow>
               (case k_close k fd w2 of (clr, w3) \<Rightarrow>
                case clr of
                  Inl e \<Rightarrow> (Inl (Sys e), w3)
                | Inr _ \<Rightarrow>
                    (case k_renameat k dirfd tmp dirfd name w3 of (rr, w4) \<Rightarrow>
                     case rr of Inl e \<Rightarrow> (Inl (Sys e), w4) | Inr _ \<Rightarrow> (Inr (), w4)))))"

text \<open>\<open>Replace\<close> once \<open>parentOf\<close> has given the directory; the deferred close of \<open>dirfd\<close> comes last.\<close>

definition replace_in ::
  "'w kernel \<Rightarrow> int \<Rightarrow> string \<Rightarrow> 32 word \<Rightarrow> string option \<Rightarrow> string list \<Rightarrow> body_error option \<Rightarrow> 'w \<Rightarrow>
    (jail_error + unit) \<times> 'w" where
  "replace_in k dirfd name perm rnd body err w =
     (case rnd of
        None \<Rightarrow> (case k_close k dirfd w of (_, w1) \<Rightarrow> (Inl RandFailed, w1))
      | Some bytes \<Rightarrow>
          (case k_openat k dirfd (tmp_name bytes)
                  (o_rdonly\<lparr>of_wronly := True, of_creat := True, of_excl := True,
                             of_nofollow := True, of_cloexec := True\<rparr>) (perm_777 perm) w of (fr, w1) \<Rightarrow>
           case fr of
             Inl e \<Rightarrow> (case k_close k dirfd w1 of (_, w2) \<Rightarrow> (Inl (Sys e), w2))
           | Inr fd \<Rightarrow>
               (case replace_body k dirfd name (tmp_name bytes) fd perm body err w1 of (br, w2) \<Rightarrow>
                case br of
                  Inl e \<Rightarrow>
                    (case k_unlinkat k dirfd (tmp_name bytes) False w2 of (_, w3) \<Rightarrow>
                     case k_close k dirfd w3 of (_, w4) \<Rightarrow> (Inl e, w4))
                | Inr _ \<Rightarrow> (case k_close k dirfd w2 of (_, w3) \<Rightarrow> (Inr (), w3)))))"

definition Replace ::
  "'w kernel \<Rightarrow> jail_root \<Rightarrow> string \<Rightarrow> 32 word \<Rightarrow> string option \<Rightarrow> string list \<Rightarrow> body_error option \<Rightarrow> 'w \<Rightarrow>
    (jail_error + unit) \<times> 'w" where
  "Replace k r rel perm rnd body err w =
     (case parentOf k r rel w of (pr, w1) \<Rightarrow>
      case pr of
        Inl e \<Rightarrow> (Inl e, w1)
      | Inr dn \<Rightarrow> replace_in k (fst dn) (snd dn) perm rnd body err w1)"

definition keepSetgid :: "'w kernel \<Rightarrow> int \<Rightarrow> string \<Rightarrow> 'w \<Rightarrow> (jail_error + unit) \<times> 'w" where
  "keepSetgid k dirfd name w =
     (case k_fstat k dirfd w of (ps, w1) \<Rightarrow>
      case ps of
        Inl e \<Rightarrow> (Inl (Sys e), w1)
      | Inr parent \<Rightarrow>
          if and (st_bits parent) 0x400 = 0 then (Inr (), w1)
          else (case k_openat k dirfd name
                       (o_rdonly\<lparr>of_directory := True, of_nofollow := True, of_cloexec := True\<rparr>) 0 w1 of (fr, w2) \<Rightarrow>
                case fr of
                  Inl e \<Rightarrow> (Inl (Sys e), w2)
                | Inr fd \<Rightarrow>
                    (case k_fstat k fd w2 of (cs, w3) \<Rightarrow>
                     case cs of
                       Inl e \<Rightarrow> (case k_close k fd w3 of (_, w4) \<Rightarrow> (Inl (Sys e), w4))
                     | Inr child \<Rightarrow>
                         if and (st_bits child) 0x400 \<noteq> 0
                         then (case k_close k fd w3 of (_, w4) \<Rightarrow> (Inr (), w4))
                         else (case k_fchmod k fd (or (st_bits child) 0x400) w3 of (mr, w4) \<Rightarrow>
                               case k_close k fd w4 of (_, w5) \<Rightarrow>
                               case mr of Inl e \<Rightarrow> (Inl (Sys e), w5) | Inr _ \<Rightarrow> (Inr (), w5)))))"

definition Mkdir :: "'w kernel \<Rightarrow> jail_root \<Rightarrow> string \<Rightarrow> 32 word \<Rightarrow> 'w \<Rightarrow> (jail_error + unit) \<times> 'w" where
  "Mkdir k r rel perm w =
     (case parentOf k r rel w of (pr, w1) \<Rightarrow>
      case pr of
        Inl e \<Rightarrow> (Inl e, w1)
      | Inr dn \<Rightarrow>
          (case k_mkdirat k (fst dn) (snd dn) (perm_777 perm) w1 of (mr, w2) \<Rightarrow>
           case mr of
             Inl e \<Rightarrow> (case k_close k (fst dn) w2 of (_, w3) \<Rightarrow> (Inl (Sys e), w3))
           | Inr _ \<Rightarrow>
               (case keepSetgid k (fst dn) (snd dn) w2 of (kr, w3) \<Rightarrow>
                case k_close k (fst dn) w3 of (_, w4) \<Rightarrow> (kr, w4))))"

definition remove_error :: "errno \<Rightarrow> jail_error" where
  "remove_error e = (if e = ENOTEMPTY \<or> e = EEXIST then ErrNotEmpty else Sys e)"

definition Remove :: "'w kernel \<Rightarrow> jail_root \<Rightarrow> string \<Rightarrow> 'w \<Rightarrow> (jail_error + unit) \<times> 'w" where
  "Remove k r rel w =
     (case parentOf k r rel w of (pr, w1) \<Rightarrow>
      case pr of
        Inl e \<Rightarrow> (Inl e, w1)
      | Inr dn \<Rightarrow>
          (case k_fstatat k (fst dn) (snd dn) w1 of (sr, w2) \<Rightarrow>
           case sr of
             Inl e \<Rightarrow> (case k_close k (fst dn) w2 of (_, w3) \<Rightarrow> (Inl (Sys e), w3))
           | Inr st \<Rightarrow>
               (case k_unlinkat k (fst dn) (snd dn) (st_type st = FDir) w2 of (ur, w3) \<Rightarrow>
                case k_close k (fst dn) w3 of (_, w4) \<Rightarrow>
                case ur of Inl e \<Rightarrow> (Inl (remove_error e), w4) | Inr _ \<Rightarrow> (Inr (), w4))))"

text \<open>The \<open>FileInfo\<close> of \<open>Stat\<close>: its name is the base of the name the file was opened with.\<close>

definition Stat :: "'w kernel \<Rightarrow> jail_root \<Rightarrow> string \<Rightarrow> 'w \<Rightarrow> (jail_error + string \<times> kstat) \<times> 'w" where
  "Stat k r rel w =
     (case Open k r rel w of (res, w1) \<Rightarrow>
      case res of
        Inl e \<Rightarrow> (Inl e, w1)
      | Inr fd \<Rightarrow>
          (case k_fstat k fd w1 of (sr, w2) \<Rightarrow>
           case k_close k fd w2 of (_, w3) \<Rightarrow>
           case sr of Inl e \<Rightarrow> (Inl (Sys e), w3) | Inr st \<Rightarrow> (Inr (path_base (fileName rel), st), w3)))"

definition Chown :: "'w kernel \<Rightarrow> jail_root \<Rightarrow> string \<Rightarrow> int \<Rightarrow> int \<Rightarrow> 'w \<Rightarrow> (jail_error + unit) \<times> 'w" where
  "Chown k r rel uid gid w =
     (case Open k r rel w of (res, w1) \<Rightarrow>
      case res of
        Inl e \<Rightarrow> (Inl e, w1)
      | Inr fd \<Rightarrow>
          (case k_fstat k fd w1 of (_, w2) \<Rightarrow>
           case k_fchown k fd uid gid w2 of (cr, w3) \<Rightarrow>
           case k_close k fd w3 of (_, w4) \<Rightarrow>
           case cr of Inl e \<Rightarrow> (Inl (Sys e), w4) | Inr _ \<Rightarrow> (Inr (), w4)))"

definition ReadDirNames ::
  "'w kernel \<Rightarrow> jail_root \<Rightarrow> string \<Rightarrow> 'w \<Rightarrow> (jail_error + (string \<times> kstat) list) \<times> 'w" where
  "ReadDirNames k r rel w =
     (case Open k r rel w of (res, w1) \<Rightarrow>
      case res of
        Inl e \<Rightarrow> (Inl e, w1)
      | Inr fd \<Rightarrow>
          (case k_fstat k fd w1 of (sr, w2) \<Rightarrow>
           case sr of
             Inl e \<Rightarrow> (case k_close k fd w2 of (_, w3) \<Rightarrow> (Inl (Sys e), w3))
           | Inr st \<Rightarrow>
               if st_type st \<noteq> FDir then (case k_close k fd w2 of (_, w3) \<Rightarrow> (Inl ErrNotDir, w3))
               else (case k_readdir k fd w2 of (dr, w3) \<Rightarrow>
                     case k_close k fd w3 of (_, w4) \<Rightarrow>
                     case dr of Inl e \<Rightarrow> (Inl (Sys e), w4) | Inr infos \<Rightarrow> (Inr infos, w4))))"

section \<open>Components are plain names\<close>

lemma plain_nameI: "n \<noteq> [] \<Longrightarrow> n \<noteq> dot \<Longrightarrow> n \<noteq> dotdot \<Longrightarrow> slash \<notin> set n \<Longrightarrow> plain_name n"
  by (simp only: plain_name_def simp_thms)

lemma components_loop_plain:
  "components_loop out ps = Inr qs \<Longrightarrow> list_all plain_name out \<Longrightarrow> \<forall>p \<in> set ps. slash \<notin> set p \<Longrightarrow>
   list_all plain_name qs"
proof (induction out ps rule: components_loop.induct)
  case (2 out p ps)
  have "list_all plain_name (butlast out)"
    using "2.prems"(2) by (metis in_set_butlastD list_all_iff)
  moreover have "\<not> (p = [] \<or> p = dot) \<Longrightarrow> p \<noteq> dotdot \<Longrightarrow> list_all plain_name (out @ [p])"
    using "2.prems" by (simp add: plain_nameI)
  ultimately show ?case
    using 2 by (simp split: if_split_asm)
qed simp

lemma components_plain: "components rel = Inr ps \<Longrightarrow> list_all plain_name ps"
  using components_loop_plain [of "[]" "split_sep slash rel" ps] split_sep_no_sep [of _ slash rel]
  by (simp add: components_def split: if_split_asm)

lemma joinComponents_plain: "joinComponents base target = Inr ps \<Longrightarrow> list_all plain_name ps"
  by (auto simp: joinComponents_def Let_def split: if_splits dest: components_plain)

section \<open>Every system call stays below the root\<close>

lemma isSymlinkAt_confined:
  "from_root root S d \<Longrightarrow> plain_name n \<Longrightarrow>
   confines root S (\<lambda>S' _. S' = S) (isSymlinkAt k d n) (isSymlinkAt (traced k) d n)"
  unfolding isSymlinkAt_def
  by (rule confines_bind, erule confines_on_entry, assumption)
     (auto intro!: confines_intros confines_return)

definition walk_post :: "int set \<Rightarrow> int set \<Rightarrow> jail_error + int \<times> string list \<Rightarrow> bool" where
  "walk_post S S' r \<longleftrightarrow> S \<subseteq> S' \<and>
     (case r of Inl _ \<Rightarrow> True | Inr (fd, ps) \<Rightarrow> list_all plain_name ps \<and> (0 \<le> fd \<longrightarrow> fd \<in> S'))"

lemma walk_post_mono: "walk_post S S' r \<Longrightarrow> T \<subseteq> S \<Longrightarrow> walk_post T S' r"
  by (auto simp: walk_post_def)

lemma walk_fail_confined:
  assumes "from_root root S d" "plain_name n" "list_all plain_name rest"
  shows "confines root S (walk_post S) (walk_fail k d base n rest e) (walk_fail (traced k) d base n rest e)"
  unfolding walk_fail_def
proof (rule confines_bind [where Q = "\<lambda>S' _. S' = S"])
  show "confines root S (\<lambda>S' _. S' = S)
      (\<lambda>w. if e = ELOOP \<or> e = EMLINK then (True, w) else isSymlinkAt k d n w)
      (\<lambda>w. if e = ELOOP \<or> e = EMLINK then (True, w) else isSymlinkAt (traced k) d n w)"
    by (intro confines_if confines_return isSymlinkAt_confined assms) simp
qed (use assms in \<open>auto simp: walk_post_def dest: joinComponents_plain
       intro!: confines_intros confines_bind [OF confines_close] confines_bind [OF confines_on_entry(1)]
         confines_return\<close>)

lemma walk_loop_confined:
  assumes "from_root root S d" "d \<in> S" "list_all plain_name rest"
  shows "confines root S (walk_post S) (walk_loop k d base rest fl m) (walk_loop (traced k) d base rest fl m)"
  using assms
proof (induction rest arbitrary: d base S)
  case Nil
  then show ?case
    by (simp add: confines_return walk_post_def)
next
  case (Cons n rest)
  have IH: "confines root S' (walk_post S) (walk_loop k fd (base @ [n]) rest fl m)
      (walk_loop (traced k) fd (base @ [n]) rest fl m)" if "S' = insert fd S" for S' fd
    using Cons.IH [of fd S' "base @ [n]"] Cons.prems that
    by (auto elim!: confines_mono intro: walk_post_mono)
  show ?case
    unfolding walk_loop.simps
    using Cons.prems
    by (intro confines_bind [OF confines_openat] confines_intros confines_bind [OF confines_close]
          IH walk_fail_confined)
       (auto simp: grown_def intro: walk_fail_confined)
qed

lemma walk_confined:
  "list_all plain_name parts \<Longrightarrow>
   confines (r_fd r) S (walk_post S) (walk k r parts fl m) (walk (traced k) r parts fl m)"
  unfolding walk_def
  by (intro confines_bind [OF confines_dup] confines_intros confines_bind [OF confines_close]
        confines_return confines_mono [OF walk_loop_confined])
     (auto simp: grown_def walk_post_def)

definition fd_post :: "int set \<Rightarrow> int set \<Rightarrow> 'e + int \<Rightarrow> bool" where
  "fd_post S S' r \<longleftrightarrow> S \<subseteq> S' \<and> (case r of Inl _ \<Rightarrow> True | Inr fd \<Rightarrow> fd \<in> S')"

lemma resolve_loop_confined:
  "list_all plain_name parts \<Longrightarrow>
   confines (r_fd r) S (fd_post S) (resolve_loop n k r parts fl m) (resolve_loop n (traced k) r parts fl m)"
proof (induction n arbitrary: parts S)
  case 0
  then show ?case by (simp add: confines_return fd_post_def)
next
  case (Suc n)
  have IH: "confines (r_fd r) S' (fd_post S) (resolve_loop n k r ps fl m) (resolve_loop n (traced k) r ps fl m)"
    if "S \<subseteq> S'" "list_all plain_name ps" for S' ps
    using Suc.IH [OF that(2), of S'] that(1) by (auto elim!: confines_mono simp: fd_post_def)
  show ?case
    unfolding resolve_loop.simps
    by (intro confines_bind [OF walk_confined [OF Suc.prems]] confines_intros confines_return IH)
       (auto simp: walk_post_def fd_post_def)
qed

lemma resolve_confined:
  "confines (r_fd r) S (fd_post S) (resolve k r rel fl m) (resolve (traced k) r rel fl m)"
  unfolding resolve_def
  by (intro confines_intros confines_return resolve_loop_confined)
     (auto simp: fd_post_def components_plain)

definition parent_post :: "int set \<Rightarrow> int set \<Rightarrow> 'e + int \<times> string \<Rightarrow> bool" where
  "parent_post S S' r \<longleftrightarrow> S \<subseteq> S' \<and> (case r of Inl _ \<Rightarrow> True | Inr (fd, n) \<Rightarrow> fd \<in> S' \<and> plain_name n)"

lemma parentOf_confined:
  "confines (r_fd r) S (parent_post S) (parentOf k r rel) (parentOf (traced k) r rel)"
  unfolding parentOf_def
  by (intro confines_intros confines_return confines_bind [OF resolve_confined])
     (auto simp: fd_post_def parent_post_def list_all_iff dest!: components_plain)

lemma tmp_name_plain [simp]: "plain_name (tmp_name rnd)"
  using set_hex_encode [of slash rnd]
  by (auto simp: plain_name_def tmp_name_def in_range_def byte_of_def)

lemma chmodNote_confined:
  "from_root root S d \<Longrightarrow>
   confines root S (\<lambda>S' _. S' = S) (chmodNote k d p) (chmodNote (traced k) d p)"
  unfolding chmodNote_def
  by (intro confines_bind [OF confines_on_fd(1)] confines_bind [OF confines_on_fd(2)]
        confines_intros confines_return) auto

lemma io_copy_confined:
  "from_root root S d \<Longrightarrow>
   confines root S (\<lambda>S' _. S' = S) (io_copy k d cs err) (io_copy (traced k) d cs err)"
proof (induction cs)
  case Nil
  then show ?case by (auto intro!: confines_intros confines_return)
next
  case (Cons c cs)
  then show ?case
    unfolding io_copy.simps
    by (intro confines_bind [OF confines_on_fd(4)] confines_intros confines_return) auto
qed

lemma replace_body_confined:
  "from_root root S d \<Longrightarrow> from_root root S fd \<Longrightarrow> plain_name name \<Longrightarrow> plain_name tmp \<Longrightarrow>
   confines root S (\<lambda>S' _. S' = S) (replace_body k d name tmp fd p cs err)
     (replace_body (traced k) d name tmp fd p cs err)"
  unfolding replace_body_def
  by (intro confines_bind [OF io_copy_confined] confines_bind [OF confines_close]
        confines_bind [OF chmodNote_confined] confines_bind [OF confines_renameat]
        confines_intros confines_return) auto

lemma Open_confined: "confines (r_fd r) S (fd_post S) (Open k r rel) (Open (traced k) r rel)"
  unfolding Open_def by (rule resolve_confined)

abbreviation any_post :: "int set \<Rightarrow> 'a \<Rightarrow> bool" where
  "any_post S' a \<equiv> True"

lemma Create_confined:
  "confines (r_fd r) S (fd_post S) (Create k r rel p) (Create (traced k) r rel p)"
  unfolding Create_def
  by (intro confines_bind [OF resolve_confined] confines_bind [OF chmodNote_confined]
        confines_bind [OF confines_close] confines_intros confines_return)
     (auto simp: fd_post_def)

lemma Replace_confined:
  "confines (r_fd r) S any_post (Replace k r rel p rnd body err) (Replace (traced k) r rel p rnd body err)"
  unfolding Replace_def replace_in_def
  by (intro confines_bind [OF parentOf_confined] confines_bind [OF confines_close]
        confines_bind [OF confines_openat] confines_bind [OF replace_body_confined]
        confines_bind [OF confines_on_entry(4)] confines_intros confines_return)
     (auto simp: parent_post_def grown_def)

lemma keepSetgid_confined:
  "from_root root S d \<Longrightarrow> plain_name n \<Longrightarrow>
   confines root S (\<lambda>S' _. S \<subseteq> S') (keepSetgid k d n) (keepSetgid (traced k) d n)"
  unfolding keepSetgid_def
  by (intro confines_bind [OF confines_on_fd(1)] confines_bind [OF confines_on_fd(2)]
        confines_bind [OF confines_close] confines_bind [OF confines_openat] confines_intros confines_return)
     (auto simp: grown_def)

lemma Mkdir_confined:
  "confines (r_fd r) S any_post (Mkdir k r rel p) (Mkdir (traced k) r rel p)"
  unfolding Mkdir_def
  by (intro confines_bind [OF parentOf_confined] confines_bind [OF confines_close]
        confines_bind [OF keepSetgid_confined] confines_bind [OF confines_on_entry(3)]
        confines_intros confines_return)
     (auto simp: parent_post_def)

lemma Remove_confined:
  "confines (r_fd r) S any_post (Remove k r rel) (Remove (traced k) r rel)"
  unfolding Remove_def
  by (intro confines_bind [OF parentOf_confined] confines_bind [OF confines_close]
        confines_bind [OF confines_on_entry(2)] confines_bind [OF confines_on_entry(4)]
        confines_intros confines_return)
     (auto simp: parent_post_def)

lemma Stat_confined:
  "confines (r_fd r) S any_post (Stat k r rel) (Stat (traced k) r rel)"
  unfolding Stat_def
  by (intro confines_bind [OF Open_confined] confines_bind [OF confines_on_fd(1)]
        confines_bind [OF confines_close] confines_intros confines_return)
     (auto simp: fd_post_def)

lemma Chown_confined:
  "confines (r_fd r) S any_post (Chown k r rel u g) (Chown (traced k) r rel u g)"
  unfolding Chown_def
  by (intro confines_bind [OF Open_confined] confines_bind [OF confines_on_fd(1)]
        confines_bind [OF confines_on_fd(3)] confines_bind [OF confines_close] confines_intros confines_return)
     (auto simp: fd_post_def)

lemma ReadDirNames_confined:
  "confines (r_fd r) S any_post (ReadDirNames k r rel) (ReadDirNames (traced k) r rel)"
  unfolding ReadDirNames_def
  by (intro confines_bind [OF Open_confined] confines_bind [OF confines_on_fd(1)]
        confines_bind [OF confines_on_fd(5)] confines_bind [OF confines_close] confines_intros confines_return)
     (auto simp: fd_post_def)

section \<open>Every operation, as one datatype\<close>

text \<open>The file operations of the package with their arguments, to state what all of them keep.\<close>

datatype jail_op =
  OpOpen string
| OpCreate string "32 word"
| OpReplace string "32 word" "string option" "string list" "body_error option"
| OpMkdir string "32 word"
| OpRemove string
| OpStat string
| OpChown string int int
| OpReadDir string

fun run_op :: "'w kernel \<Rightarrow> jail_root \<Rightarrow> jail_op \<Rightarrow> 'w \<Rightarrow> (jail_error + int option) \<times> 'w" where
  "run_op k r (OpOpen rel) = (\<lambda>w. case Open k r rel w of (x, w1) \<Rightarrow> (map_sum id Some x, w1))"
| "run_op k r (OpCreate rel p) = (\<lambda>w. case Create k r rel p w of (x, w1) \<Rightarrow> (map_sum id Some x, w1))"
| "run_op k r (OpReplace rel p rnd body err) =
     (\<lambda>w. case Replace k r rel p rnd body err w of (x, w1) \<Rightarrow> (map_sum id (\<lambda>_. None) x, w1))"
| "run_op k r (OpMkdir rel p) = (\<lambda>w. case Mkdir k r rel p w of (x, w1) \<Rightarrow> (map_sum id (\<lambda>_. None) x, w1))"
| "run_op k r (OpRemove rel) = (\<lambda>w. case Remove k r rel w of (x, w1) \<Rightarrow> (map_sum id (\<lambda>_. None) x, w1))"
| "run_op k r (OpStat rel) = (\<lambda>w. case Stat k r rel w of (x, w1) \<Rightarrow> (map_sum id (\<lambda>_. None) x, w1))"
| "run_op k r (OpChown rel u g) = (\<lambda>w. case Chown k r rel u g w of (x, w1) \<Rightarrow> (map_sum id (\<lambda>_. None) x, w1))"
| "run_op k r (OpReadDir rel) = (\<lambda>w. case ReadDirNames k r rel w of (x, w1) \<Rightarrow> (map_sum id (\<lambda>_. None) x, w1))"

lemma run_op_confined: "confines (r_fd r) S any_post (run_op k r op) (run_op (traced k) r op)"
  by (cases op)
     (auto intro!: confines_return confines_bind [OF Open_confined] confines_bind [OF Create_confined]
        confines_bind [OF Replace_confined] confines_bind [OF Mkdir_confined] confines_bind [OF Remove_confined]
        confines_bind [OF Stat_confined] confines_bind [OF Chown_confined] confines_bind [OF ReadDirNames_confined])

section \<open>Descriptors are not leaked\<close>

definition walked :: "int set \<Rightarrow> 'e + int \<times> string list \<Rightarrow> int set \<Rightarrow> bool" where
  "walked F r A \<longleftrightarrow> (case r of Inl _ \<Rightarrow> A = F | Inr fp \<Rightarrow>
     if 0 \<le> fst fp then fst fp \<notin> F \<and> A = insert (fst fp) F else A = F)"

lemma walked_simps [simp]:
  "walked F (Inl e) A \<longleftrightarrow> A = F"
  "walked F (Inr (-1, ps)) A \<longleftrightarrow> A = F"
  "0 \<le> f \<Longrightarrow> walked F (Inr (f, ps)) A \<longleftrightarrow> f \<notin> F \<and> A = insert f F"
  by (simp_all add: walked_def)

context fd_kernel
begin

lemma isSymlinkAt_fds: "triple (\<lambda>w. fds w = F) (isSymlinkAt k d n) (\<lambda>_ w. fds w = F)"
  unfolding isSymlinkAt_def
  by (intro triple_bind [OF keep_triples(2)] triple_intros triple_return)

lemma close_top: "d \<notin> F \<Longrightarrow> triple (\<lambda>w. fds w = insert d F) (k_close k d) (\<lambda>_ w. fds w = F)"
  using close_triple [of "insert d F" d] by simp

lemma close_under:
  "d \<notin> F \<Longrightarrow> f \<noteq> d \<Longrightarrow>
   triple (\<lambda>w. fds w = insert f (insert d F)) (k_close k d) (\<lambda>_ w. fds w = insert f F)"
  using close_triple [of "insert f (insert d F)" d] by (simp add: insert_Diff_if)

lemma walk_fail_fds:
  assumes "d \<notin> F"
  shows "triple (\<lambda>w. fds w = insert d F) (walk_fail k d base n rest e) (\<lambda>r w. walked F r (fds w))"
  unfolding walk_fail_def
proof (rule triple_bind [where Q = "\<lambda>_ w. fds w = insert d F"])
  show "triple (\<lambda>w. fds w = insert d F)
     (\<lambda>w. if e = ELOOP \<or> e = EMLINK then (True, w) else isSymlinkAt k d n w) (\<lambda>_ w. fds w = insert d F)"
    by (intro triple_if triple_return isSymlinkAt_fds)
qed (intro triple_intros triple_bind [OF keep_triples(1)] triple_bind [OF close_top [OF assms]]
       triple_return, simp_all)

lemma walk_loop_fds:
  "d \<notin> F \<Longrightarrow> 0 \<le> d \<Longrightarrow>
   triple (\<lambda>w. fds w = insert d F) (walk_loop k d base rest fl m) (\<lambda>r w. walked F r (fds w))"
proof (induction rest arbitrary: d base)
  case Nil
  then show ?case by (auto intro: triple_return)
next
  case (Cons n rest)
  show ?case
    unfolding walk_loop.simps
    using Cons
    by (intro triple_bind [OF openat_triple] triple_sum)
       (auto intro!: triple_pure walk_fail_fds triple_bind [OF close_under])
qed

lemma walk_fds: "triple (\<lambda>w. fds w = F) (walk k r parts fl m) (\<lambda>r w. walked F r (fds w))"
  unfolding walk_def
  by (intro triple_bind [OF dup_triple] triple_intros)
     (auto intro!: triple_pure triple_return triple_bind [OF close_top] walk_loop_fds)

lemma resolve_loop_fds:
  "triple (\<lambda>w. fds w = F) (resolve_loop n k r parts fl m) (\<lambda>res w. opened F res (fds w))"
proof (induction n arbitrary: parts)
  case 0
  then show ?case by (simp add: triple_return)
next
  case (Suc n)
  show ?case
    unfolding resolve_loop.simps
    by (intro triple_bind [OF walk_fds] triple_intros triple_return triple_conseq [OF Suc.IH])
       (auto simp: walked_def)
qed

lemma resolve_fds:
  "triple (\<lambda>w. fds w = F) (resolve k r rel fl m) (\<lambda>res w. opened F res (fds w))"
  unfolding resolve_def by (intro triple_intros triple_return resolve_loop_fds) simp

lemma parentOf_fds:
  "triple (\<lambda>w. fds w = F) (parentOf k r rel) (\<lambda>res w. opened F (map_sum id fst res) (fds w))"
  unfolding parentOf_def
  by (intro triple_intros triple_return triple_bind [OF resolve_fds]) auto

lemma chmodNote_fds: "triple (\<lambda>w. fds w = F) (chmodNote k d p) (\<lambda>_ w. fds w = F)"
  unfolding chmodNote_def
  by (intro triple_bind [OF keep_triples(3)] triple_bind [OF keep_triples(7)] triple_intros triple_return)

lemma io_copy_fds: "triple (\<lambda>w. fds w = F) (io_copy k d cs err) (\<lambda>_ w. fds w = F)"
proof (induction cs)
  case Nil
  then show ?case by (auto intro!: triple_intros triple_return)
next
  case (Cons c cs)
  then show ?case
    unfolding io_copy.simps
    by (intro triple_bind [OF keep_triples(9)] triple_intros triple_return)
qed

lemma replace_body_fds:
  "fd \<notin> F \<Longrightarrow>
   triple (\<lambda>w. fds w = insert fd F) (replace_body k d name tmp fd p cs err) (\<lambda>_ w. fds w = F)"
  unfolding replace_body_def
  by (intro triple_bind [OF io_copy_fds] triple_bind [OF close_top] triple_bind [OF chmodNote_fds]
        triple_bind [OF keep_triples(6)] triple_intros triple_return)

lemma Open_fds: "triple (\<lambda>w. fds w = F) (Open k r rel) (\<lambda>res w. opened F res (fds w))"
  unfolding Open_def by (rule resolve_fds)

lemma Create_fds: "triple (\<lambda>w. fds w = F) (Create k r rel p) (\<lambda>res w. opened F res (fds w))"
  unfolding Create_def
  by (intro triple_bind [OF resolve_fds] triple_sum)
     (auto intro!: triple_pure triple_bind [OF chmodNote_fds] triple_sum triple_bind [OF close_top] triple_return)

lemma Replace_fds: "triple (\<lambda>w. fds w = F) (Replace k r rel p rnd body err) (\<lambda>_ w. fds w = F)"
  unfolding Replace_def replace_in_def
  by (intro triple_bind [OF parentOf_fds] triple_sum)
     (auto intro!: triple_pure triple_return triple_option triple_bind [OF close_top] triple_bind [OF openat_triple]
        triple_sum triple_pure triple_bind [OF replace_body_fds] triple_bind [OF keep_triples(5)])

lemma keepSetgid_fds: "triple (\<lambda>w. fds w = F) (keepSetgid k d n) (\<lambda>_ w. fds w = F)"
  unfolding keepSetgid_def
  by (intro triple_bind [OF keep_triples(3)] triple_bind [OF openat_triple] triple_intros triple_return)
     (auto intro!: triple_pure triple_bind [OF keep_triples(3)] triple_bind [OF keep_triples(7)]
       triple_bind [OF close_top] triple_intros triple_return)

lemma Mkdir_fds: "triple (\<lambda>w. fds w = F) (Mkdir k r rel p) (\<lambda>_ w. fds w = F)"
  unfolding Mkdir_def
  by (intro triple_bind [OF parentOf_fds] triple_sum)
     (auto intro!: triple_pure triple_return triple_sum triple_bind [OF keep_triples(4)]
        triple_bind [OF keepSetgid_fds] triple_bind [OF close_top])

lemma Remove_fds: "triple (\<lambda>w. fds w = F) (Remove k r rel) (\<lambda>_ w. fds w = F)"
  unfolding Remove_def
  by (intro triple_bind [OF parentOf_fds] triple_sum)
     (auto intro!: triple_pure triple_return triple_sum triple_bind [OF keep_triples(2)]
        triple_bind [OF keep_triples(5)] triple_bind [OF close_top])

lemma Stat_fds: "triple (\<lambda>w. fds w = F) (Stat k r rel) (\<lambda>_ w. fds w = F)"
  unfolding Stat_def
  by (intro triple_bind [OF Open_fds] triple_sum)
     (auto intro!: triple_pure triple_return triple_sum triple_bind [OF keep_triples(3)] triple_bind [OF close_top])

lemma Chown_fds: "triple (\<lambda>w. fds w = F) (Chown k r rel u g) (\<lambda>_ w. fds w = F)"
  unfolding Chown_def
  by (intro triple_bind [OF Open_fds] triple_sum)
     (auto intro!: triple_pure triple_return triple_sum triple_bind [OF keep_triples(3)]
       triple_bind [OF keep_triples(8)] triple_bind [OF close_top])

lemma ReadDirNames_fds: "triple (\<lambda>w. fds w = F) (ReadDirNames k r rel) (\<lambda>_ w. fds w = F)"
  unfolding ReadDirNames_def
  by (intro triple_bind [OF Open_fds] triple_sum)
     (auto intro!: triple_pure triple_return triple_intros triple_bind [OF keep_triples(3)]
       triple_bind [OF keep_triples(10)] triple_bind [OF close_top])

end

text \<open>The descriptor a result hands to the caller.\<close>

definition handed :: "jail_error + int option \<Rightarrow> int set" where
  "handed res = (case res of Inr (Some fd) \<Rightarrow> {fd} | _ \<Rightarrow> {})"

lemma handed_simps [simp]:
  "handed (Inl e) = {}" "handed (Inr None) = {}" "handed (Inr (Some fd)) = {fd}"
  by (simp_all add: handed_def)

context fd_kernel
begin

lemma run_op_fds: "triple (\<lambda>w. fds w = F) (run_op k r op) (\<lambda>res w. fds w = F \<union> handed res)"
proof -
  have none: "handed (map_sum id (\<lambda>_. None) x) = {}" for x :: "jail_error + 'b"
    by (cases x) auto
  have some: "opened F x A \<Longrightarrow> A = F \<union> handed (map_sum id Some x)" for x A
    by (cases x) auto
  show ?thesis
    by (cases op)
       (simp_all, (intro triple_bind [OF Open_fds] triple_bind [OF Create_fds] triple_bind [OF Replace_fds]
          triple_bind [OF Mkdir_fds] triple_bind [OF Remove_fds] triple_bind [OF Stat_fds]
          triple_bind [OF Chown_fds] triple_bind [OF ReadDirNames_fds] triple_return,
        simp add: none some)+)
qed

end

section \<open>The resolved object lies below the root\<close>

context dir_kernel
begin

lemma isSymlinkAt_root:
  "triple (\<lambda>w. obj w root = Some p) (isSymlinkAt k d n) (\<lambda>_ w. obj w root = Some p)"
  unfolding isSymlinkAt_def
  by (intro triple_bind [OF look_root(2)] triple_intros triple_return)

text \<open>
  What a pass of \<open>walk\<close> leaves: the root descriptor still refers to the root, and a
  descriptor it returns refers to what the components lead to; otherwise the component
  list to go on with holds plain names.
\<close>

definition walk_at :: "int \<Rightarrow> 'o \<Rightarrow> string list \<Rightarrow> jail_error + int \<times> string list \<Rightarrow> 'w \<Rightarrow> bool" where
  "walk_at root p parts r w \<longleftrightarrow> obj w root = Some p \<and>
     (case r of Inl _ \<Rightarrow> True | Inr fp \<Rightarrow>
        list_all plain_name (snd fp) \<and> (0 \<le> fst fp \<longrightarrow> at root p (fst fp) parts w))"

lemma walk_fail_at:
  assumes "d \<noteq> root" "list_all plain_name rest"
  shows "triple (\<lambda>w. obj w root = Some p) (walk_fail k d base n rest e) (walk_at root p parts)"
  unfolding walk_fail_def
proof (rule triple_bind [where Q = "\<lambda>_ w. obj w root = Some p"])
  show "triple (\<lambda>w. obj w root = Some p)
     (\<lambda>w. if e = ELOOP \<or> e = EMLINK then (True, w) else isSymlinkAt k d n w) (\<lambda>_ w. obj w root = Some p)"
    by (intro triple_if triple_return isSymlinkAt_root)
qed (intro triple_intros triple_bind [OF look_root(1)] triple_bind [OF close_root [OF assms(1)]] triple_return,
     use assms(2) in \<open>auto simp: walk_at_def dest: joinComponents_plain\<close>)

lemma walk_loop_at:
  "list_all plain_name rest \<Longrightarrow> d \<noteq> root \<Longrightarrow>
   triple (at root p d base) (walk_loop k d base rest fl m) (walk_at root p (base @ rest))"
proof (induction rest arbitrary: d base)
  case Nil
  then show ?case by (auto intro!: triple_return simp: walk_at_def at_def)
next
  case (Cons n rest)
  have rest: "triple (\<lambda>w. f \<noteq> root \<and> f \<noteq> d \<and> at root p f (base @ [n]) w)
      (\<lambda>w. case k_close k d w of (_, w2) \<Rightarrow> walk_loop k f (base @ [n]) rest fl m w2)
      (walk_at root p (base @ n # rest))" for f
    using Cons.IH [of f "base @ [n]"] Cons.prems
    by (intro triple_pure triple_bind [OF close_at]) auto
  show ?case
    unfolding walk_loop.simps
  proof (rule triple_bind [OF openat_at], goal_cases)
    case (3 a)
    show ?case
    proof (rule triple_sum, goal_cases)
      case (1 e)
      show ?case
        by (rule triple_conseq [OF walk_fail_at]) (use Cons.prems in \<open>auto simp: at_def\<close>)
    next
      case (2 f)
      then show ?case by (intro triple_conseq [OF rest]) auto
    qed
  qed (use Cons.prems in auto)
qed

lemma walk_at_root:
  assumes "list_all plain_name parts"
  shows "triple (\<lambda>w. obj w (r_fd r) = Some p) (walk k r parts fl m) (walk_at (r_fd r) p parts)"
  unfolding walk_def
proof (rule triple_bind [OF dup_at], rule triple_sum, goal_cases)
  case (2 a f)
  show ?case
  proof (cases "f = r_fd r")
    case False
    have c: "triple (\<lambda>w. obj w (r_fd r) = Some p)
        (\<lambda>w. case k_close k f w of (_, w2) \<Rightarrow> (Inl ErrInvalid, w2)) (walk_at (r_fd r) p parts)"
      using False by (intro triple_bind [OF close_root] triple_return) (auto simp: walk_at_def)
    from False 2 assms show ?thesis
      by (intro triple_if triple_return triple_conseq [OF c]
            triple_conseq [OF walk_loop_at [of parts f "r_fd r" p "[]"]])
         (auto simp: walk_at_def at_def)
  qed (use 2 in \<open>simp add: triple_def\<close>)
qed (auto intro!: triple_return simp: walk_at_def)

lemma resolve_loop_at:
  "list_all plain_name parts \<Longrightarrow>
   triple (\<lambda>w. obj w (r_fd r) = Some p) (resolve_loop n k r parts fl m)
     (\<lambda>res w. obj w (r_fd r) = Some p \<and>
        (\<forall>fd. res = Inr fd \<longrightarrow> (\<exists>ps. list_all plain_name ps \<and> at (r_fd r) p fd ps w)))"
proof (induction n arbitrary: parts)
  case 0
  then show ?case by (simp add: triple_return)
next
  case (Suc n)
  show ?case
    unfolding resolve_loop.simps
  proof (rule triple_bind [OF walk_at_root [OF Suc.prems]], rule triple_sum, goal_cases)
    case (2 a fp)
    show ?case
    proof (cases "list_all plain_name (snd fp)")
      case True
      with 2 Suc.prems show ?thesis
        by (intro triple_if triple_return triple_conseq [OF Suc.IH]) (auto simp: walk_at_def)
    qed (use 2 in \<open>simp add: triple_def walk_at_def\<close>)
  qed (auto intro!: triple_return simp: walk_at_def)
qed

lemma resolve_at:
  "triple (\<lambda>w. obj w (r_fd r) = Some p) (resolve k r rel fl m)
     (\<lambda>res w. obj w (r_fd r) = Some p \<and>
        (\<forall>fd. res = Inr fd \<longrightarrow> (\<exists>ps. list_all plain_name ps \<and> at (r_fd r) p fd ps w)))"
  unfolding resolve_def
  by (intro triple_sum triple_return resolve_loop_at) (auto dest: components_plain)
end

end
