(* ===== verification/Jail_Replace.thy ===== *)
theory Jail_Replace
  imports Jail
begin

text \<open>
  \<open>Replace\<close> of \<open>internal/jail/jail.go\<close> is all or nothing: under the laws of \<open>file_kernel\<close> a
  call that returns an error has left every existing entry and file as it was, and a call
  that succeeds has put the whole body under the name in one rename, after the body ended
  without an error.
\<close>

text \<open>
  What \<open>Replace\<close> promises: entry \<open>name\<close> of directory \<open>D\<close> is a new file with content \<open>b\<close> and
  every other entry and file is as it was; or nothing that existed has changed.
\<close>

definition replaced ::
  "('w \<Rightarrow> 'o \<Rightarrow> string \<Rightarrow> 'o option) \<Rightarrow> ('w \<Rightarrow> 'o \<Rightarrow> string) \<Rightarrow> 'w \<Rightarrow> 'o \<Rightarrow> string \<Rightarrow> string \<Rightarrow> 'w \<Rightarrow> bool" where
  "replaced ent data w0 D name b w \<longleftrightarrow>
     (\<exists>c. ent w D name = Some c \<and> data w c = b \<and> (\<forall>q x. ent w0 q x \<noteq> Some c) \<and>
        (\<forall>q x. (q, x) \<noteq> (D, name) \<longrightarrow> ent w q x = ent w0 q x) \<and> (\<forall>x. x \<noteq> c \<longrightarrow> data w x = data w0 x))"

definition untouched ::
  "('w \<Rightarrow> 'o \<Rightarrow> string \<Rightarrow> 'o option) \<Rightarrow> ('w \<Rightarrow> 'o \<Rightarrow> string) \<Rightarrow> 'w \<Rightarrow> 'w \<Rightarrow> bool" where
  "untouched ent data w0 w \<longleftrightarrow>
     (\<forall>q x c. ent w0 q x = Some c \<longrightarrow> ent w q x = Some c \<and> data w c = data w0 c)"

text \<open>Directory \<open>D\<close>, reached from \<open>p\<close> by plain names, is the parent and \<open>n\<close> the last name of path \<open>rel\<close>.\<close>

definition parent_at :: "('o \<Rightarrow> string \<Rightarrow> 'o option) \<Rightarrow> 'o \<Rightarrow> string \<Rightarrow> 'o \<Rightarrow> string \<Rightarrow> bool" where
  "parent_at e p rel D n \<longleftrightarrow> (\<exists>ps parts. path_lookup e p ps = Some D \<and> list_all plain_name ps \<and>
     components rel = Inr parts \<and> parts \<noteq> [] \<and> n = last parts)"

context file_kernel
begin

lemma same_triples:
  "triple (same_files ent data w0) (k_dup k d) (\<lambda>_. same_files ent data w0)"
  "triple (same_files ent data w0) (k_close k d) (\<lambda>_. same_files ent data w0)"
  "triple (same_files ent data w0) (k_readlinkat k d n) (\<lambda>_. same_files ent data w0)"
  "triple (same_files ent data w0) (k_fstatat k d n) (\<lambda>_. same_files ent data w0)"
  by (auto simp: triple_def same_files_def
      dest!: dup_file close_file readlinkat_file fstatat_file split: prod.splits)

lemma openat_same:
  "\<not> of_creat fl \<Longrightarrow> \<not> of_trunc fl \<Longrightarrow>
   triple (same_files ent data w0) (k_openat k d n fl m) (\<lambda>_. same_files ent data w0)"
  by (auto simp: triple_def same_files_def dest!: openat_keep [rotated 2] split: prod.splits)

lemma walk_fail_same:
  "triple (same_files ent data w0) (walk_fail k d base n rest e) (\<lambda>_. same_files ent data w0)"
proof -
  have sl: "triple (same_files ent data w0) (isSymlinkAt k d n) (\<lambda>_. same_files ent data w0)"
    unfolding isSymlinkAt_def by (intro triple_bind [OF same_triples(4)] triple_intros triple_return)
  show ?thesis
    unfolding walk_fail_def
  proof (rule triple_bind [where Q = "\<lambda>_. same_files ent data w0"])
    show "triple (same_files ent data w0)
       (\<lambda>w. if e = ELOOP \<or> e = EMLINK then (True, w) else isSymlinkAt k d n w) (\<lambda>_. same_files ent data w0)"
      by (intro triple_if triple_return sl)
  qed (intro triple_intros triple_bind [OF same_triples(3)] triple_bind [OF same_triples(2)] triple_return)
qed

lemma walk_loop_same:
  "\<not> of_creat fl \<Longrightarrow> \<not> of_trunc fl \<Longrightarrow>
   triple (same_files ent data w0) (walk_loop k d base rest fl m) (\<lambda>_. same_files ent data w0)"
proof (induction rest arbitrary: d base)
  case Nil
  then show ?case by (simp add: triple_return)
next
  case (Cons n rest)
  then show ?case
    unfolding walk_loop.simps
    by (intro triple_bind [OF openat_same] triple_intros walk_fail_same triple_bind [OF same_triples(2)])
       (auto simp: o_rdonly_def)
qed

lemma resolve_same:
  assumes "\<not> of_creat fl" "\<not> of_trunc fl"
  shows "triple (same_files ent data w0) (resolve k r rel fl m) (\<lambda>_. same_files ent data w0)"
proof -
  have walk: "triple (same_files ent data w0) (walk k r parts fl m) (\<lambda>_. same_files ent data w0)" for parts
    unfolding walk_def using assms
    by (intro triple_bind [OF same_triples(1)] triple_intros triple_return walk_loop_same) auto
  have "triple (same_files ent data w0) (resolve_loop i k r parts fl m) (\<lambda>_. same_files ent data w0)" for i parts
  proof (induction i arbitrary: parts)
    case 0
    then show ?case by (simp add: triple_return)
  next
    case (Suc i)
    then show ?case
      unfolding resolve_loop.simps by (intro triple_bind [OF walk] triple_intros triple_return)
  qed
  then show ?thesis
    unfolding resolve_def by (intro triple_intros triple_return)
qed

lemma parentOf_same:
  "triple (same_files ent data w0) (parentOf k r rel) (\<lambda>_. same_files ent data w0)"
  unfolding parentOf_def
  by (intro triple_intros triple_return triple_bind [OF resolve_same]) (auto simp: o_rdonly_def)

text \<open>
  The world while the temporary file is being written: entry \<open>tmp\<close> of directory \<open>D\<close> names
  the new object \<open>c\<close>, everything else is as it was.
\<close>

definition tmp_made :: "'w \<Rightarrow> int \<Rightarrow> 'o \<Rightarrow> string \<Rightarrow> 'o \<Rightarrow> 'w \<Rightarrow> bool" where
  "tmp_made w0 dirfd D tmp c w \<longleftrightarrow>
     obj w dirfd = Some D \<and> ent w0 D tmp = None \<and> (\<forall>q x. ent w0 q x \<noteq> Some c) \<and>
     ent w = set_entry (ent w0) D tmp (Some c) \<and> (\<forall>x. x \<noteq> c \<longrightarrow> data w x = data w0 x)"

definition tmp_open :: "'w \<Rightarrow> int \<Rightarrow> 'o \<Rightarrow> string \<Rightarrow> 'o \<Rightarrow> int \<Rightarrow> string \<Rightarrow> 'w \<Rightarrow> bool" where
  "tmp_open w0 dirfd D tmp c fd b w \<longleftrightarrow> tmp_made w0 dirfd D tmp c w \<and> fd \<noteq> dirfd \<and>
     obj w fd = Some c \<and> data w c = b \<and> off w fd = length b"

lemma tmp_open_made: "tmp_open w0 dirfd D tmp c fd b w \<Longrightarrow> tmp_made w0 dirfd D tmp c w"
  by (simp add: tmp_open_def)

definition copied where
  "copied w0 dirfd D tmp c fd err b (r :: jail_error + unit) w \<longleftrightarrow>
     (case r of Inl _ \<Rightarrow> fd \<noteq> dirfd \<and> tmp_made w0 dirfd D tmp c w | Inr _ \<Rightarrow> err = None \<and> tmp_open w0 dirfd D tmp c fd b w)"

lemma write_tmp:
  "triple (tmp_open w0 dirfd D tmp c fd b) (k_write k fd x)
     (\<lambda>r. case r of Inl _ \<Rightarrow> (\<lambda>w. fd \<noteq> dirfd \<and> tmp_made w0 dirfd D tmp c w)
        | Inr _ \<Rightarrow> tmp_open w0 dirfd D tmp c fd (b @ x))"
proof (unfold triple_def, clarify)
  fix w r w' assume o: "tmp_open w0 dirfd D tmp c fd b w" and eq: "k_write k fd x w = (r, w')"
  from write_file [OF eq] o have "tmp_made w0 dirfd D tmp c w'" "obj w' fd = Some c" "fd \<noteq> dirfd"
    by (auto simp: tmp_open_def tmp_made_def)
  moreover have "data w' c = b @ x \<and> off w' fd = length (b @ x)" if "r = Inr u" for u
    using write_data [of fd x w w' c] eq o that by (simp add: tmp_open_def)
  ultimately show "(case r of Inl _ \<Rightarrow> (\<lambda>w. fd \<noteq> dirfd \<and> tmp_made w0 dirfd D tmp c w)
        | Inr _ \<Rightarrow> tmp_open w0 dirfd D tmp c fd (b @ x)) w'"
    by (auto simp: tmp_open_def split: sum.splits)
qed

lemma io_copy_tmp:
  "triple (tmp_open w0 dirfd D tmp c fd b) (io_copy k fd cs err) (copied w0 dirfd D tmp c fd err (b @ concat cs))"
proof (induction cs arbitrary: b)
  case Nil
  then show ?case
    by (auto intro!: triple_intros triple_return simp: copied_def tmp_open_def)
next
  case (Cons x cs)
  show ?case
    unfolding io_copy.simps
    using Cons.IH [of "b @ x"]
    by (intro triple_bind [OF write_tmp] triple_intros triple_return) (auto simp: copied_def)
qed

lemma fstat_fchmod_tmp:
  "triple (tmp_open w0 dirfd D tmp c fd b) (k_fstat k d) (\<lambda>_. tmp_open w0 dirfd D tmp c fd b)"
  "triple (tmp_open w0 dirfd D tmp c fd b) (k_fchmod k d m) (\<lambda>_. tmp_open w0 dirfd D tmp c fd b)"
  by (auto simp: triple_def tmp_open_def tmp_made_def same_files_def dest!: fstat_file fchmod_file split: prod.splits)

lemma chmodNote_tmp:
  "triple (tmp_open w0 dirfd D tmp c fd b) (chmodNote k d m) (\<lambda>_. tmp_open w0 dirfd D tmp c fd b)"
  unfolding chmodNote_def
  by (intro triple_bind [OF fstat_fchmod_tmp(1)] triple_bind [OF fstat_fchmod_tmp(2)] triple_intros triple_return)

lemma close_tmp:
  assumes "fd \<noteq> dirfd"
  shows "triple (tmp_made w0 dirfd D tmp c) (k_close k fd) (\<lambda>_. tmp_made w0 dirfd D tmp c)"
    and "triple (\<lambda>w. tmp_made w0 dirfd D tmp c w \<and> data w c = b) (k_close k fd)
      (\<lambda>_ w. tmp_made w0 dirfd D tmp c w \<and> data w c = b)"
proof -
  have "tmp_made w0 dirfd D tmp c w' \<and> data w' c = data w c"
    if "k_close k fd w = (r, w')" "tmp_made w0 dirfd D tmp c w" for w r w'
    using close_file [OF that(1)] close_dir [OF that(1)] that(2) assms
    by (simp add: tmp_made_def same_files_def)
  then show "triple (tmp_made w0 dirfd D tmp c) (k_close k fd) (\<lambda>_. tmp_made w0 dirfd D tmp c)"
    and "triple (\<lambda>w. tmp_made w0 dirfd D tmp c w \<and> data w c = b) (k_close k fd)
      (\<lambda>_ w. tmp_made w0 dirfd D tmp c w \<and> data w c = b)"
    by (auto simp: triple_def split: prod.splits)
qed

lemma rename_tmp:
  assumes "k_renameat k dirfd tmp dirfd name w = (r, w')"
    and "tmp_made w0 dirfd D tmp c w" "data w c = b"
  shows "case r of Inl _ \<Rightarrow> tmp_made w0 dirfd D tmp c w' | Inr _ \<Rightarrow> replaced ent data w0 D name b w'"
proof (cases r)
  case (Inl e)
  with assms renameat_fail [of dirfd tmp name w e w'] show ?thesis
    by (simp add: tmp_made_def same_files_def)
next
  case (Inr u)
  with assms renameat_ok [of dirfd tmp name w w' D c]
  have r: "data w' = data w"
      "ent w' = (if ent w D name = Some c then ent w else set_entry (set_entry (ent w) D tmp None) D name (Some c))"
    by (auto simp: tmp_made_def)
  show ?thesis
    using assms(2,3) Inr
    by (auto simp: r tmp_made_def replaced_def intro!: exI [of _ c])
qed

definition body_done where
  "body_done w0 dirfd D tmp c name err b (r :: jail_error + unit) w \<longleftrightarrow>
     (case r of Inl _ \<Rightarrow> tmp_made w0 dirfd D tmp c w | Inr _ \<Rightarrow> err = None \<and> replaced ent data w0 D name b w)"

lemma replace_body_tmp:
  "triple (tmp_open w0 dirfd D tmp c fd []) (replace_body k dirfd name tmp fd p body err)
     (body_done w0 dirfd D tmp c name err (concat body))"
  unfolding replace_body_def
proof (rule triple_bind [OF io_copy_tmp], rule triple_sum, goal_cases)
  case (1 a e)
  have "triple (\<lambda>w. fd \<noteq> dirfd \<and> tmp_made w0 dirfd D tmp c w)
      (\<lambda>w. case k_close k fd w of (_, w2) \<Rightarrow> (Inl e, w2)) (body_done w0 dirfd D tmp c name err (concat body))"
    by (intro triple_pure triple_bind [OF close_tmp(1)] triple_return) (auto simp: body_done_def)
  then show ?case by (rule triple_conseq) (use 1 in \<open>auto simp: copied_def\<close>)
next
  case (2 a u)
  have c: "triple (tmp_open w0 dirfd D tmp c fd (concat body))
      (\<lambda>w. case k_close k fd w of (_, w2) \<Rightarrow> (Inl e, w2)) (body_done w0 dirfd D tmp c name err (concat body))" for e
    by (rule triple_conseq [OF triple_pure [OF triple_bind [OF close_tmp(1)], of "fd \<noteq> dirfd"]])
       (auto simp: body_done_def tmp_open_def intro: triple_return)
  have d: "err = None \<Longrightarrow> triple (tmp_open w0 dirfd D tmp c fd (concat body))
      (\<lambda>w. case k_close k fd w of (clr, w3) \<Rightarrow> case clr of Inl e \<Rightarrow> (Inl (Sys e), w3)
         | Inr _ \<Rightarrow> (case k_renameat k dirfd tmp dirfd name w3 of (rr, w4) \<Rightarrow>
             case rr of Inl e \<Rightarrow> (Inl (Sys e), w4) | Inr _ \<Rightarrow> (Inr (), w4)))
      (body_done w0 dirfd D tmp c name err (concat body))"
  proof (rule triple_conseq [OF triple_pure [OF triple_bind [OF close_tmp(2)], of "fd \<noteq> dirfd"]], assumption)
    fix a assume "err = None" then show "triple (\<lambda>w. tmp_made w0 dirfd D tmp c w \<and> data w c = concat body)
     (\<lambda>w3. case a of Inl e \<Rightarrow> (Inl (Sys e), w3)
         | Inr _ \<Rightarrow> (case k_renameat k dirfd tmp dirfd name w3 of (rr, w4) \<Rightarrow>
             case rr of Inl e \<Rightarrow> (Inl (Sys e), w4) | Inr _ \<Rightarrow> (Inr (), w4)))
     (body_done w0 dirfd D tmp c name err (concat body))"
      by (auto simp: triple_def body_done_def split: sum.splits prod.splits dest!: rename_tmp)
  qed (auto simp: tmp_open_def)
  have "err = None \<Longrightarrow> triple (tmp_open w0 dirfd D tmp c fd (concat body)) (\<lambda>w. case chmodNote k fd p w of (mr, w2) \<Rightarrow>
           case mr of Inl e \<Rightarrow> (case k_close k fd w2 of (_, w3) \<Rightarrow> (Inl e, w3))
           | Inr _ \<Rightarrow> (case k_close k fd w2 of (clr, w3) \<Rightarrow>
                case clr of Inl e \<Rightarrow> (Inl (Sys e), w3)
                | Inr _ \<Rightarrow> (case k_renameat k dirfd tmp dirfd name w3 of (rr, w4) \<Rightarrow>
                     case rr of Inl e \<Rightarrow> (Inl (Sys e), w4) | Inr _ \<Rightarrow> (Inr (), w4))))
     (body_done w0 dirfd D tmp c name err (concat body))"
    by (intro triple_bind [OF chmodNote_tmp] triple_sum c d)
  then show ?case
    using 2 by (cases "err = None") (auto elim!: triple_conseq simp: copied_def triple_def)
qed

lemma parentOf_at:
  "triple (\<lambda>w. obj w (r_fd r) = Some p) (parentOf k r rel)
     (\<lambda>res w. \<forall>fd n. res = Inr (fd, n) \<longrightarrow> (\<exists>D. obj w fd = Some D \<and> parent_at (ent w) p rel D n))"
  unfolding parentOf_def
  by (intro triple_intros triple_return triple_bind [OF resolve_at]) (fastforce simp: at_def parent_at_def)+

lemma parentOf_ready:
  "triple (\<lambda>w. w = w0 \<and> obj w (r_fd r) = Some p) (parentOf k r rel)
     (\<lambda>res w. same_files ent data w0 w \<and> (\<forall>fd n. res = Inr (fd, n) \<longrightarrow>
        (\<exists>D. obj w fd = Some D \<and> parent_at (ent w0) p rel D n)))"
proof (unfold triple_def, clarify)
  fix res w'
  assume o: "obj w0 (r_fd r) = Some p" and eq: "parentOf k r rel w0 = (res, w')"
  have s: "same_files ent data w0 w'"
    by (rule tripleD [OF parentOf_same _ eq]) (simp add: same_files_def)
  with tripleD [OF parentOf_at o eq] show "same_files ent data w0 w' \<and> (\<forall>fd n. res = Inr (fd, n) \<longrightarrow>
        (\<exists>D. obj w' fd = Some D \<and> parent_at (ent w0) p rel D n))"
    by (simp add: same_files_def)
qed

lemma open_tmp:
  assumes "plain_name tmp" "of_creat fl" "of_excl fl"
  shows "triple (\<lambda>w. same_files ent data w0 w \<and> obj w dirfd = Some D) (k_openat k dirfd tmp fl m)
     (\<lambda>r. case r of Inl _ \<Rightarrow> same_files ent data w0 | Inr fd \<Rightarrow> (\<lambda>w. \<exists>c. tmp_open w0 dirfd D tmp c fd [] w))"
proof (unfold triple_def, clarify)
  fix w r w' assume w: "same_files ent data w0 w" "obj w dirfd = Some D"
    and eq: "k_openat k dirfd tmp fl m w = (r, w')"
  show "(case r of Inl _ \<Rightarrow> same_files ent data w0 | Inr fd \<Rightarrow> (\<lambda>w. \<exists>c. tmp_open w0 dirfd D tmp c fd [] w)) w'"
  proof (cases r)
    case (Inl e)
    with openat_fail eq w show ?thesis by (auto simp: same_files_def)
  next
    case (Inr fd)
    with openat_excl [OF assms(2,3,1)] eq w(2) obtain c where
      "ent w D tmp = None" "\<forall>q x. ent w q x \<noteq> Some c" "fd \<noteq> dirfd"
      "ent w' = set_entry (ent w) D tmp (Some c)" "data w' = (data w)(c := [])"
      "obj w' dirfd = Some D" "obj w' fd = Some c" "off w' fd = 0" by fastforce
    with w Inr show ?thesis
      by (auto simp: tmp_open_def tmp_made_def same_files_def intro!: exI [of _ c])
  qed
qed

lemma unlink_tmp:
  "triple (tmp_made w0 dirfd D tmp c) (k_unlinkat k dirfd tmp b) (\<lambda>_. untouched ent data w0)"
proof (unfold triple_def, clarify)
  fix w r w' assume t: "tmp_made w0 dirfd D tmp c w" and eq: "k_unlinkat k dirfd tmp b w = (r, w')"
  from unlinkat_file [OF eq] t
  have "data w' = data w" "ent w' = ent w \<or> ent w' = set_entry (ent w) D tmp None"
    by (auto simp: tmp_made_def)
  moreover have "ca \<noteq> c" if "ent w0 q x = Some ca" for q x ca
    using t that by (auto simp: tmp_made_def)
  ultimately show "untouched ent data w0 w'"
    using t by (auto simp: untouched_def tmp_made_def)
qed

lemma close_keeps:
  "triple (untouched ent data w0) (k_close k d) (\<lambda>_. untouched ent data w0)"
  "triple (replaced ent data w0 D n b) (k_close k d) (\<lambda>_. replaced ent data w0 D n b)"
  by (auto simp: triple_def untouched_def replaced_def same_files_def dest!: close_file split: prod.splits)

lemma same_untouched: "same_files ent data w0 w \<Longrightarrow> untouched ent data w0 w"
  by (simp add: same_files_def untouched_def)

text \<open>\<open>T D n\<close> says which entries are meant; \<open>found\<close> what \<open>parentOf\<close> must show for it.\<close>

definition replace_post where
  "replace_post w0 T body err (r :: jail_error + unit) w \<longleftrightarrow>
     (case r of Inl _ \<Rightarrow> untouched ent data w0 w
      | Inr _ \<Rightarrow> err = None \<and> (\<exists>D n. T D n \<and> replaced ent data w0 D n (concat body) w))"

definition found where
  "found w0 T (res :: jail_error + int \<times> string) w \<longleftrightarrow> same_files ent data w0 w \<and>
     (\<forall>fd n. res = Inr (fd, n) \<longrightarrow> (\<exists>D. obj w fd = Some D \<and> T D n))"

lemma replace_post_Inl: "untouched ent data w0 w \<Longrightarrow> replace_post w0 T body err (Inl e) w"
  by (simp add: replace_post_def)

lemma Replace_open:
  assumes pp: "T D name"
  shows "triple (tmp_open w0 dirfd D tmp c fd [])
      (\<lambda>w2. case replace_body k dirfd name tmp fd perm body err w2 of (br, w3) \<Rightarrow>
         case br of Inl e \<Rightarrow>
             (case k_unlinkat k dirfd tmp False w3 of (_, w4) \<Rightarrow>
              case k_close k dirfd w4 of (_, w5) \<Rightarrow> (Inl e, w5))
         | Inr _ \<Rightarrow> (case k_close k dirfd w3 of (_, w4) \<Rightarrow> (Inr (), w4)))
      (replace_post w0 T body err)"
proof (rule triple_bind [OF replace_body_tmp], rule triple_sum, goal_cases)
  case (1 a e)
  have "triple (tmp_made w0 dirfd D tmp c) (\<lambda>w3. case k_unlinkat k dirfd tmp False w3 of (_, w4) \<Rightarrow>
              case k_close k dirfd w4 of (_, w5) \<Rightarrow> (Inl e, w5)) (replace_post w0 T body err)"
    by (intro triple_bind [OF unlink_tmp] triple_bind [OF close_keeps(1)] triple_return replace_post_Inl)
  then show ?case by (rule triple_conseq) (use 1 in \<open>auto simp: body_done_def\<close>)
next
  case (2 a u)
  have "triple (\<lambda>w. err = None \<and> replaced ent data w0 D name (concat body) w)
      (\<lambda>w3. case k_close k dirfd w3 of (_, w4) \<Rightarrow> (Inr (), w4)) (replace_post w0 T body err)"
    using pp by (intro triple_pure triple_bind [OF close_keeps(2)] triple_return) (auto simp: replace_post_def)
  then show ?case by (rule triple_conseq) (use 2 in \<open>auto simp: body_done_def\<close>)
qed

lemma Replace_found:
  assumes "triple P (parentOf k r rel) (found w0 T)"
  shows "triple P (Replace k r rel perm rnd body err) (replace_post w0 T body err)"
  unfolding Replace_def
proof (rule triple_bind [OF assms], rule triple_sum, goal_cases)
  case (1 a e)
  then show ?case by (auto intro!: triple_return replace_post_Inl same_untouched simp: found_def)
next
  case (2 a dn)
  have same: "triple (same_files ent data w0) (\<lambda>w. case k_close k (fst dn) w of (_, w2) \<Rightarrow> (Inl e, w2))
      (replace_post w0 T body err)" for e
    by (intro triple_bind [OF same_triples(2)] triple_return replace_post_Inl same_untouched)
  have "triple (\<lambda>w. \<exists>D. T D (snd dn) \<and> same_files ent data w0 w \<and> obj w (fst dn) = Some D)
     (replace_in k (fst dn) (snd dn) perm rnd body err) (replace_post w0 T body err)"
    unfolding replace_in_def
  proof (rule triple_exI, rule triple_pure, rule triple_option, goal_cases)
    case (1 D)
    show ?case by (rule triple_conseq [OF same]) auto
  next
    case (2 D bytes)
    show ?case
      by (rule triple_bind [OF open_tmp], simp, simp, simp, rule triple_sum)
         (simp_all add: same triple_exI Replace_open [where T = T, OF 2(1)])
  qed
  then show ?case by (rule triple_conseq) (use 2 in \<open>cases dn, auto simp: found_def\<close>)
qed

lemma Replace_post:
  "triple (\<lambda>w. w = w0 \<and> obj w (r_fd r) = Some p) (Replace k r rel perm rnd body err)
     (replace_post w0 (parent_at (ent w0) p rel) body err)"
  by (rule Replace_found) (use parentOf_ready in \<open>simp add: found_def [abs_def]\<close>)

end

end
