(* ===== verification/Posix_Ref.thy ===== *)
theory Posix_Ref
  imports Jail_Replace "HOL-Library.AList"
begin

text \<open>
  An executable reference kernel: a small POSIX file system with descriptors, directory
  entries, symbolic links and permission bits. It is not part of the program; it shows that
  the laws of \<open>fd_kernel\<close> and \<open>file_kernel\<close> are satisfied together by a kernel on which the
  operations of the jail do their work, and the concrete runs of the development use it.
  The calls run with all privileges (no \<open>EACCES\<close>), and \<open>px_open\<close>, the path-based open, does
  not follow symbolic links.
\<close>

section \<open>State\<close>

record pnode =
  pn_type :: ftype
  pn_bits :: "32 word"
  pn_uid :: int
  pn_gid :: int
  pn_data :: string

record pworld =
  px_fds :: "(int \<times> nat \<times> nat) list"
  px_ents :: "((nat \<times> string) \<times> nat) list"
  px_nodes :: "(nat \<times> pnode) list"

definition px_obj :: "pworld \<Rightarrow> int \<Rightarrow> nat option" where
  "px_obj w d = map_option fst (map_of (px_fds w) d)"

definition px_off :: "pworld \<Rightarrow> int \<Rightarrow> nat" where
  "px_off w d = (case map_of (px_fds w) d of None \<Rightarrow> 0 | Some (_, p) \<Rightarrow> p)"

definition px_ent :: "pworld \<Rightarrow> nat \<Rightarrow> string \<Rightarrow> nat option" where
  "px_ent w p n = map_of (px_ents w) (p, n)"

definition px_node :: "pworld \<Rightarrow> nat \<Rightarrow> pnode" where
  "px_node w c = (case map_of (px_nodes w) c of
     None \<Rightarrow> \<lparr>pn_type = FOther, pn_bits = 0, pn_uid = 0, pn_gid = 0, pn_data = []\<rparr> | Some nd \<Rightarrow> nd)"

definition px_data :: "pworld \<Rightarrow> nat \<Rightarrow> string" where
  "px_data w c = pn_data (px_node w c)"

definition px_open_fds :: "pworld \<Rightarrow> int set" where
  "px_open_fds w = fst ` set (px_fds w)"

definition fresh_fd :: "pworld \<Rightarrow> int" where
  "fresh_fd w = foldr max (map fst (px_fds w)) 2 + 1"

definition fresh_node :: "pworld \<Rightarrow> nat" where
  "fresh_node w = Suc (foldr max (map fst (px_nodes w) @ map snd (px_ents w) @ map (fst \<circ> snd) (px_fds w)) 0)"

definition px_stat :: "pnode \<Rightarrow> kstat" where
  "px_stat nd = \<lparr>st_type = pn_type nd, st_bits = pn_bits nd, st_uid = pn_uid nd, st_gid = pn_gid nd,
     st_size = length (pn_data nd)\<rparr>"

section \<open>Calls\<close>

definition px_new_fd :: "nat \<Rightarrow> pworld \<Rightarrow> (errno + int) \<times> pworld" where
  "px_new_fd c w = (Inr (fresh_fd w), w\<lparr>px_fds := (fresh_fd w, c, 0) # px_fds w\<rparr>)"

definition px_set_node :: "nat \<Rightarrow> pnode \<Rightarrow> pworld \<Rightarrow> pworld" where
  "px_set_node c nd w = w\<lparr>px_nodes := AList.update c nd (px_nodes w)\<rparr>"

definition px_set_ent :: "nat \<Rightarrow> string \<Rightarrow> nat \<Rightarrow> pworld \<Rightarrow> pworld" where
  "px_set_ent p n c w = w\<lparr>px_ents := AList.update (p, n) c (px_ents w)\<rparr>"

definition px_del_ent :: "nat \<Rightarrow> string \<Rightarrow> pworld \<Rightarrow> pworld" where
  "px_del_ent p n w = w\<lparr>px_ents := AList.delete (p, n) (px_ents w)\<rparr>"

definition px_open :: "string \<Rightarrow> oflags \<Rightarrow> (pworld, int) call" where
  "px_open path fl w =
     (case path_lookup (px_ent w) 1 (filter (\<lambda>n. n \<noteq> []) (split_sep slash path)) of
        None \<Rightarrow> (Inl ENOENT, w)
      | Some c \<Rightarrow> if of_directory fl \<and> pn_type (px_node w c) \<noteq> FDir then (Inl ENOTDIR, w) else px_new_fd c w)"

definition px_dup :: "int \<Rightarrow> (pworld, int) call" where
  "px_dup d w = (case px_obj w d of None \<Rightarrow> (Inl EBADF, w) | Some c \<Rightarrow> px_new_fd c w)"

definition px_close :: "int \<Rightarrow> (pworld, unit) call" where
  "px_close d w = (if px_obj w d = None then (Inl EBADF, w)
     else (Inr (), w\<lparr>px_fds := filter (\<lambda>x. fst x \<noteq> d) (px_fds w)\<rparr>))"

text \<open>Every call on an entry starts from an open directory descriptor.\<close>

definition px_dir :: "int \<Rightarrow> pworld \<Rightarrow> errno + nat" where
  "px_dir d w = (case px_obj w d of None \<Rightarrow> Inl EBADF
     | Some p \<Rightarrow> if pn_type (px_node w p) = FDir then Inr p else Inl ENOTDIR)"

definition px_openat :: "int \<Rightarrow> string \<Rightarrow> oflags \<Rightarrow> 32 word \<Rightarrow> (pworld, int) call" where
  "px_openat d n fl m w =
     (case px_dir d w of
        Inl e \<Rightarrow> (Inl e, w)
      | Inr p \<Rightarrow>
          (case px_ent w p n of
             None \<Rightarrow>
               if of_creat fl then
                 px_new_fd (fresh_node w) (px_set_ent p n (fresh_node w) (px_set_node (fresh_node w)
                   \<lparr>pn_type = FReg, pn_bits = m, pn_uid = 0, pn_gid = 0, pn_data = []\<rparr> w))
               else (Inl ENOENT, w)
           | Some c \<Rightarrow>
               if of_creat fl \<and> of_excl fl then (Inl EEXIST, w)
               else if pn_type (px_node w c) = FLnk
                 then (Inl (if of_directory fl then ENOTDIR else ELOOP), w)
               else if of_directory fl \<and> pn_type (px_node w c) \<noteq> FDir then (Inl ENOTDIR, w)
               else if of_wronly fl \<and> pn_type (px_node w c) = FDir then (Inl EISDIR, w)
               else if of_trunc fl then px_new_fd c (px_set_node c ((px_node w c)\<lparr>pn_data := []\<rparr>) w)
               else px_new_fd c w))"

definition px_entry :: "int \<Rightarrow> string \<Rightarrow> pworld \<Rightarrow> errno + nat \<times> nat" where
  "px_entry d n w = (case px_dir d w of Inl e \<Rightarrow> Inl e
     | Inr p \<Rightarrow> (case px_ent w p n of None \<Rightarrow> Inl ENOENT | Some c \<Rightarrow> Inr (p, c)))"

definition px_readlinkat :: "int \<Rightarrow> string \<Rightarrow> (pworld, string) call" where
  "px_readlinkat d n w = (case px_entry d n w of Inl e \<Rightarrow> (Inl e, w)
     | Inr (p, c) \<Rightarrow> (if pn_type (px_node w c) = FLnk then Inr (px_data w c) else Inl EINVAL, w))"

definition px_fstatat :: "int \<Rightarrow> string \<Rightarrow> (pworld, kstat) call" where
  "px_fstatat d n w = (case px_entry d n w of Inl e \<Rightarrow> (Inl e, w)
     | Inr (p, c) \<Rightarrow> (Inr (px_stat (px_node w c)), w))"

definition px_fstat :: "int \<Rightarrow> (pworld, kstat) call" where
  "px_fstat d w = (case px_obj w d of None \<Rightarrow> (Inl EBADF, w) | Some c \<Rightarrow> (Inr (px_stat (px_node w c)), w))"

definition px_mkdirat :: "int \<Rightarrow> string \<Rightarrow> 32 word \<Rightarrow> (pworld, unit) call" where
  "px_mkdirat d n m w =
     (case px_dir d w of
        Inl e \<Rightarrow> (Inl e, w)
      | Inr p \<Rightarrow> if px_ent w p n \<noteq> None then (Inl EEXIST, w)
          else (Inr (), px_set_ent p n (fresh_node w) (px_set_node (fresh_node w)
            \<lparr>pn_type = FDir, pn_bits = m, pn_uid = 0, pn_gid = 0, pn_data = []\<rparr> w)))"

definition px_unlinkat :: "int \<Rightarrow> string \<Rightarrow> bool \<Rightarrow> (pworld, unit) call" where
  "px_unlinkat d n isdir w =
     (case px_entry d n w of
        Inl e \<Rightarrow> (Inl e, w)
      | Inr (p, c) \<Rightarrow>
          if isdir then
            (if pn_type (px_node w c) \<noteq> FDir then (Inl ENOTDIR, w)
             else if list_ex (\<lambda>x. fst (fst x) = c) (px_ents w) then (Inl ENOTEMPTY, w)
             else (Inr (), px_del_ent p n w))
          else if pn_type (px_node w c) = FDir then (Inl EISDIR, w)
          else (Inr (), px_del_ent p n w))"

definition px_renameat :: "int \<Rightarrow> string \<Rightarrow> int \<Rightarrow> string \<Rightarrow> (pworld, unit) call" where
  "px_renameat d n d' n' w =
     (case px_entry d n w of
        Inl e \<Rightarrow> (Inl e, w)
      | Inr (p, c) \<Rightarrow>
          (case px_dir d' w of
             Inl e \<Rightarrow> (Inl e, w)
           | Inr p' \<Rightarrow>
               if px_ent w p' n' = Some c then (Inr (), w)
               else if (case px_ent w p' n' of None \<Rightarrow> False | Some c' \<Rightarrow> pn_type (px_node w c') = FDir)
                 then (Inl EISDIR, w)
               else (Inr (), px_set_ent p' n' c (px_del_ent p n w))))"

definition px_fchmod :: "int \<Rightarrow> 32 word \<Rightarrow> (pworld, unit) call" where
  "px_fchmod d m w = (case px_obj w d of None \<Rightarrow> (Inl EBADF, w)
     | Some c \<Rightarrow> (Inr (), px_set_node c ((px_node w c)\<lparr>pn_bits := m\<rparr>) w))"

definition px_fchown :: "int \<Rightarrow> int \<Rightarrow> int \<Rightarrow> (pworld, unit) call" where
  "px_fchown d u g w = (case px_obj w d of None \<Rightarrow> (Inl EBADF, w)
     | Some c \<Rightarrow> (Inr (), px_set_node c ((px_node w c)\<lparr>pn_uid := u, pn_gid := g\<rparr>) w))"

definition px_write :: "int \<Rightarrow> string \<Rightarrow> (pworld, unit) call" where
  "px_write d b w =
     (case map_of (px_fds w) d of
        None \<Rightarrow> (Inl EBADF, w)
      | Some (c, q) \<Rightarrow>
          (Inr (), (px_set_node c ((px_node w c)\<lparr>pn_data :=
             take q (px_data w c) @ b @ drop (q + length b) (px_data w c)\<rparr>) w)
             \<lparr>px_fds := map (\<lambda>(f, x). if f = d then (f, c, q + length b) else (f, x)) (px_fds w)\<rparr>))"

definition px_readdir :: "int \<Rightarrow> (pworld, (string \<times> kstat) list) call" where
  "px_readdir d w = (case px_dir d w of Inl e \<Rightarrow> (Inl e, w)
     | Inr p \<Rightarrow> (Inr (map (\<lambda>((_, n), c). (n, px_stat (px_node w c)))
                        (filter (\<lambda>x. fst (fst x) = p) (px_ents w))), w))"

definition px_kernel :: "pworld kernel" where
  "px_kernel = \<lparr>k_open = px_open, k_dup = px_dup, k_close = px_close, k_openat = px_openat,
     k_readlinkat = px_readlinkat, k_fstatat = px_fstatat, k_fstat = px_fstat, k_mkdirat = px_mkdirat,
     k_unlinkat = px_unlinkat, k_renameat = px_renameat, k_fchmod = px_fchmod, k_fchown = px_fchown,
     k_write = px_write, k_readdir = px_readdir\<rparr>"

lemma px_kernel_sel [simp]:
  "k_open px_kernel = px_open" "k_dup px_kernel = px_dup" "k_close px_kernel = px_close"
  "k_openat px_kernel = px_openat" "k_readlinkat px_kernel = px_readlinkat" "k_fstatat px_kernel = px_fstatat"
  "k_fstat px_kernel = px_fstat" "k_mkdirat px_kernel = px_mkdirat" "k_unlinkat px_kernel = px_unlinkat"
  "k_renameat px_kernel = px_renameat" "k_fchmod px_kernel = px_fchmod" "k_fchown px_kernel = px_fchown"
  "k_write px_kernel = px_write" "k_readdir px_kernel = px_readdir"
  by (simp_all add: px_kernel_def)

section \<open>The laws hold\<close>

lemma foldr_max_ge: "x \<in> set xs \<Longrightarrow> x \<le> foldr max xs (a :: 'a :: linorder)"
  by (induction xs) (auto simp: le_max_iff_disj)

lemma foldr_max_base: "a \<le> foldr max xs (a :: 'a :: linorder)"
  by (induction xs) (auto simp: le_max_iff_disj)

lemma fresh_fd_new: "fresh_fd w \<notin> px_open_fds w" "0 \<le> fresh_fd w"
  using foldr_max_ge [of _ "map fst (px_fds w)" 2] foldr_max_base [of 2 "map fst (px_fds w)"]
  by (fastforce simp: fresh_fd_def px_open_fds_def)+

lemma px_obj_iff: "px_obj w d = None \<longleftrightarrow> d \<notin> px_open_fds w"
  by (auto simp: px_obj_def px_open_fds_def map_of_eq_None_iff)

lemma fresh_fd_obj [simp]: "px_obj w (fresh_fd w) = None"
  by (simp add: px_obj_iff fresh_fd_new)

lemma fresh_node_new: "px_ent w q x \<noteq> Some (fresh_node w)"
proof
  assume "px_ent w q x = Some (fresh_node w)"
  then have "((q, x), fresh_node w) \<in> set (px_ents w)" by (simp add: px_ent_def map_of_SomeD)
  then have "fresh_node w \<in> set (map fst (px_nodes w) @ map snd (px_ents w) @ map (fst \<circ> snd) (px_fds w))" by force
  from foldr_max_ge [OF this, of 0] show False by (simp add: fresh_node_def)
qed

lemma px_new_fd_cases:
  assumes "px_new_fd c w = (r, w')"
  shows "\<exists>f. r = Inr f \<and> 0 \<le> f \<and> f \<notin> px_open_fds w \<and> px_open_fds w' = insert f (px_open_fds w) \<and>
    px_obj w' = (px_obj w)(f := Some c) \<and> px_ent w' = px_ent w \<and> px_data w' = px_data w \<and> px_off w' f = 0"
  using assms fresh_fd_new [of w]
  by (auto simp: px_new_fd_def px_open_fds_def px_obj_def px_off_def px_ent_def px_data_def px_node_def fun_eq_iff)

lemma px_set_sel [simp]:
  "px_fds (px_set_node c nd w) = px_fds w" "px_ents (px_set_node c nd w) = px_ents w"
  "px_fds (px_set_ent p n c w) = px_fds w" "px_nodes (px_set_ent p n c w) = px_nodes w"
  "px_fds (px_del_ent p n w) = px_fds w" "px_nodes (px_del_ent p n w) = px_nodes w"
  "px_nodes (w\<lparr>px_fds := F\<rparr>) = px_nodes w"
  by (simp_all add: px_set_node_def px_set_ent_def px_del_ent_def)

lemma px_set_fds [simp]:
  "px_open_fds (px_set_node c nd w) = px_open_fds w" "px_open_fds (px_set_ent p n c w) = px_open_fds w"
  "px_open_fds (px_del_ent p n w) = px_open_fds w"
  by (simp_all add: px_open_fds_def)

lemma px_set_view [simp]:
  "px_obj (px_set_node c nd w) = px_obj w" "px_obj (px_set_ent p n c w) = px_obj w"
  "px_obj (px_del_ent p n w) = px_obj w"
  "px_off (px_set_node c nd w) = px_off w" "px_off (px_set_ent p n c w) = px_off w"
  "px_off (px_del_ent p n w) = px_off w"
  "px_ent (px_set_node c nd w) = px_ent w"
  "px_ent (px_set_ent p n c w) = set_entry (px_ent w) p n (Some c)"
  "px_ent (px_del_ent p n w) = set_entry (px_ent w) p n None"
  "px_node (px_set_node c nd w) = (px_node w)(c := nd)"
  "px_node (px_set_ent p n c w) = px_node w" "px_node (px_del_ent p n w) = px_node w"
  "px_data (px_set_node c nd w) = (px_data w)(c := pn_data nd)"
  "px_data (px_set_ent p n c w) = px_data w" "px_data (px_del_ent p n w) = px_data w"
  by (auto simp: fun_eq_iff px_obj_def px_off_def px_ent_def px_node_def px_data_def px_set_ent_def
      px_del_ent_def px_set_node_def update_conv' delete_conv' split: option.splits)

lemmas px_calls = px_open_def px_dup_def px_close_def px_openat_def px_readlinkat_def px_fstatat_def
  px_fstat_def px_mkdirat_def px_unlinkat_def px_renameat_def px_fchmod_def px_fchown_def px_write_def px_readdir_def

lemma px_dir_Inr: "px_dir d w = Inr p \<Longrightarrow> px_obj w d = Some p"
  by (auto simp: px_dir_def split: option.splits if_splits)

lemma px_entry_Inr: "px_entry d n w = Inr (p, c) \<Longrightarrow> px_obj w d = Some p \<and> px_ent w p n = Some c"
  by (auto simp: px_entry_def dest: px_dir_Inr split: option.splits sum.splits)

lemma px_view_cong:
  "px_ents w' = px_ents w \<Longrightarrow> px_ent w' = px_ent w"
  "px_nodes w' = px_nodes w \<Longrightarrow> px_data w' = px_data w"
  by (auto simp: px_ent_def px_data_def px_node_def fun_eq_iff)

lemma map_of_bump:
  "map_of (map (\<lambda>(f, x). if f = d then (f, y) else (f, x)) xs) z =
    (if z = d then map_option (\<lambda>_. y) (map_of xs d) else map_of xs z)"
  by (induction xs) auto

lemma px_write_view:
  assumes "px_write d b w = (r, w')"
  shows "px_open_fds w' = px_open_fds w \<and> px_obj w' = px_obj w \<and> px_ent w' = px_ent w \<and>
    (\<forall>c. px_obj w d \<noteq> Some c \<longrightarrow> px_data w' c = px_data w c) \<and>
    (\<forall>c. r = Inr () \<longrightarrow> px_obj w d = Some c \<longrightarrow>
       px_data w' c = take (px_off w d) (px_data w c) @ b @ drop (px_off w d + length b) (px_data w c) \<and>
       px_off w' d = px_off w d + length b)"
proof (cases "map_of (px_fds w) d")
  case None
  with assms show ?thesis by (auto simp: px_write_def px_obj_def)
next
  case (Some cq)
  then obtain c q where cq: "map_of (px_fds w) d = Some (c, q)" by (cases cq) auto
  let ?nd = "(px_node w c)\<lparr>pn_data := take q (px_data w c) @ b @ drop (q + length b) (px_data w c)\<rparr>"
  let ?F = "map (\<lambda>(f, x). if f = d then (f, c, q + length b) else (f, x)) (px_fds w)"
  from assms cq have w': "w' = (px_set_node c ?nd w)\<lparr>px_fds := ?F\<rparr>" by (simp add: px_write_def)
  have obj: "px_obj w' = px_obj w"
    using cq by (auto simp: w' px_obj_def map_of_bump fun_eq_iff)
  moreover have "px_ent w' = px_ent w" by (rule px_view_cong) (simp add: w')
  moreover have "px_data w' = (px_data w)(c := pn_data ?nd)"
  proof -
    have "px_data w' = px_data (px_set_node c ?nd w)" by (rule px_view_cong) (simp add: w')
    then show ?thesis by (simp only: px_set_view)
  qed
  moreover have "px_open_fds w' = px_open_fds w"
    using obj px_obj_iff by (metis set_eqI)
  moreover have "px_off w' d = q + length b" "px_off w d = q" "px_obj w d = Some c"
    using cq by (auto simp: w' px_off_def px_obj_def map_of_bump)
  ultimately show ?thesis by auto
qed

lemma px_close_view:
  assumes "px_close d w = (r, w')"
  shows "px_open_fds w' = px_open_fds w - {d} \<and> px_ent w' = px_ent w \<and> px_data w' = px_data w \<and>
    (\<forall>x. x \<noteq> d \<longrightarrow> px_obj w' x = px_obj w x \<and> px_off w' x = px_off w x)"
proof -
  have "map_of (filter (\<lambda>x. fst x \<noteq> d) xs) z = (if z = d then None else map_of xs z)" for xs :: "(int \<times> nat \<times> nat) list" and z
    by (induction xs) auto
  then show ?thesis
    using assms px_obj_iff [of w d]
    by (auto simp: px_close_def px_open_fds_def px_obj_def px_off_def px_ent_def px_data_def px_node_def fun_eq_iff
        split: if_splits)
qed

lemma px_openat_view:
  assumes "px_openat d n fl m w = (r, w')"
  shows "(\<exists>e. r = Inl e \<and> w' = w) \<or>
    (\<exists>p c f. r = Inr f \<and> px_obj w d = Some p \<and> 0 \<le> f \<and> f \<notin> px_open_fds w \<and>
       px_open_fds w' = insert f (px_open_fds w) \<and> px_obj w' = (px_obj w)(f := Some c) \<and> px_off w' f = 0 \<and>
       px_ent w' p n = Some c \<and>
       (px_ent w p n = None \<and> of_creat fl \<and> c = fresh_node w \<and>
          px_ent w' = set_entry (px_ent w) p n (Some c) \<and> px_data w' = (px_data w)(c := []) \<or>
        px_ent w' = px_ent w \<and> (of_creat fl \<longrightarrow> \<not> of_excl fl) \<and> (\<not> of_trunc fl \<longrightarrow> px_data w' = px_data w)))"
proof (cases "px_dir d w")
  case (Inr p)
  note p = px_dir_Inr [OF this]
  show ?thesis
  proof (cases "px_ent w p n")
    case None
    with Inr assms p show ?thesis
      by (auto simp: px_openat_def split: if_splits dest!: px_new_fd_cases) 
  next
    case (Some c)
    show ?thesis
      using Inr Some assms p
      by (auto simp: px_openat_def split: if_splits dest!: px_new_fd_cases)
  qed
qed (use assms in \<open>auto simp: px_openat_def\<close>)

interpretation px_fd: fd_kernel px_kernel px_open_fds
proof (unfold_locales, goal_cases)
  case (3 d n fl m w r w')
  then show ?case using px_openat_view [of d n fl m w r w'] by (auto split: sum.splits)
next
  case (4 d w rc w')
  then show ?case using px_close_view by simp
next
  case (13 d b w rc w')
  then show ?case using px_write_view by simp
qed (auto simp: px_open_def px_dup_def px_readlinkat_def px_fstatat_def px_fstat_def px_mkdirat_def px_unlinkat_def
       px_renameat_def px_fchmod_def px_fchown_def px_readdir_def
       dest!: px_new_fd_cases split: option.splits sum.splits if_splits prod.splits)

lemma px_grows:
  assumes "px_openat d n fl m w = (r, w')"
  shows "grows px_obj px_ent w w'"
proof (cases "w' = w")
  case False
  with px_openat_view [OF assms] obtain p c f where
    "f \<notin> px_open_fds w" "px_obj w' = (px_obj w)(f := Some c)"
    "px_ent w' = px_ent w \<or> px_ent w p n = None \<and> px_ent w' = set_entry (px_ent w) p n (Some c)" by blast
  then show ?thesis
    using px_obj_iff [of w f] by (auto simp: grows_def)
qed (simp add: grows_def)

interpretation px_file: file_kernel px_kernel px_obj px_ent px_data px_off
proof (unfold_locales, goal_cases)
  case (1 d w r w')
  then show ?case
    by (auto simp: grows_def px_dup_def px_obj_iff [symmetric] split: option.splits dest!: px_new_fd_cases)
next
  case (2 fl n d m w r w')
  then have eq: "px_openat d n fl m w = (r, w')" by simp
  show ?case
    using px_grows [OF eq] px_openat_view [OF eq] px_obj_iff [of w] by auto
next
  case (3 d w rc w')
  then show ?case using px_close_view [of d w rc w'] by auto
next
  case (6 d w r w')
  then show ?case
    by (auto simp: same_files_def px_dup_def split: option.splits dest!: px_new_fd_cases)
next
  case (7 fl d n m w r w')
  then show ?case using px_openat_view [of d n fl m w r w'] by (auto simp: same_files_def)
next
  case (8 d n fl m w e w')
  then show ?case using px_openat_view [of d n fl m w "Inl e" w'] by (auto simp: same_files_def)
next
  case (9 fl n d m w f w')
  then obtain p c where "px_obj w d = Some p" "f \<notin> px_open_fds w" "px_obj w' = (px_obj w)(f := Some c)" "px_off w' f = 0"
    "px_ent w p n = None" "c = fresh_node w" "px_ent w' = set_entry (px_ent w) p n (Some c)" "px_data w' = (px_data w)(c := [])"
    using px_openat_view [of d n fl m w "Inr f" w'] by auto
  moreover have "f \<noteq> d" using calculation(1,2) px_obj_iff [of w d] by auto
  ultimately show ?case
    using fresh_node_new [of w] by (intro exI [of _ p] exI [of _ c]) simp
next
  case (10 d w rc w')
  then show ?case using px_close_view [of d w rc w'] by (auto simp: same_files_def)
next
  case (15 d b w rc w')
  then show ?case using px_write_view [of d b w rc w'] by auto
next
  case (16 d b w w' c)
  then show ?case using px_write_view [of d b w "Inr ()" w'] by auto
qed (auto simp: same_files_def px_readlinkat_def px_fstatat_def px_fstat_def px_unlinkat_def
       px_renameat_def px_fchmod_def px_data_def fun_eq_iff
       dest!: px_entry_Inr px_dir_Inr split: option.splits sum.splits if_splits prod.splits)

end
