(* ===== verification/Jail_Resolve.thy ===== *)
theory Jail_Resolve
  imports Posix_Ref
begin

text \<open>
  What \<open>Open\<close> of \<open>internal/jail/jail.go\<close> resolves a path to. The specification is a function on
  the directory tree alone: names are looked up one after the other, and at a symbolic link the
  components restart from the root, as in a \<open>chroot\<close> whose root is the jail, except that a link
  that is absolute or climbs above the root is refused. The loops over system calls of \<open>walk\<close> and
  \<open>resolve\<close> implement it.
\<close>

section \<open>Resolution on a tree\<close>

text \<open>
  \<open>lnk c\<close> is the target if \<open>c\<close> is a symbolic link. A pass from object \<open>cur\<close> ends at an object
  (\<open>Inl\<close>) or at a link, with the components to restart with (\<open>Inr\<close>).
\<close>

fun tree_walk ::
  "('o \<Rightarrow> string \<Rightarrow> 'o option) \<Rightarrow> ('o \<Rightarrow> string option) \<Rightarrow> 'o \<Rightarrow> string list \<Rightarrow> string list \<Rightarrow> ('o + string list) option" where
  "tree_walk e l cur base [] = Some (Inl cur)"
| "tree_walk e l cur base (n # rest) =
     (case e cur n of
        None \<Rightarrow> None
      | Some c \<Rightarrow>
          (case l c of
             None \<Rightarrow> tree_walk e l c (base @ [n]) rest
           | Some target \<Rightarrow>
               if has_prefix target ''/'' then None
               else (case joinComponents base target of Inl _ \<Rightarrow> None | Inr joined \<Rightarrow> Some (Inr (joined @ rest)))))"

fun tree_resolve ::
  "nat \<Rightarrow> ('o \<Rightarrow> string \<Rightarrow> 'o option) \<Rightarrow> ('o \<Rightarrow> string option) \<Rightarrow> 'o \<Rightarrow> string list \<Rightarrow> 'o option" where
  "tree_resolve 0 e l p parts = None"
| "tree_resolve (Suc n) e l p parts =
     (case tree_walk e l p [] parts of
        None \<Rightarrow> None
      | Some (Inl c) \<Rightarrow> Some c
      | Some (Inr parts') \<Rightarrow> tree_resolve n e l p parts')"

lemma tree_walk_plain:
  "list_all plain_name rest \<Longrightarrow> tree_walk e l cur base rest = Some (Inr ps) \<Longrightarrow> list_all plain_name ps"
  by (induction e l cur base rest rule: tree_walk.induct)
     (auto split: option.splits sum.splits if_splits dest: joinComponents_plain)

lemma tree_walk_lookup: "tree_walk e l cur base rest = Some (Inl c) \<Longrightarrow> path_lookup e cur rest = Some c"
  by (induction e l cur base rest rule: tree_walk.induct) (auto split: option.splits sum.splits if_splits)

text \<open>Resolution only descends.\<close>

lemma tree_resolve_below:
  "list_all plain_name parts \<Longrightarrow> tree_resolve n e l p parts = Some c \<Longrightarrow>
   \<exists>ps. list_all plain_name ps \<and> path_lookup e p ps = Some c"
  by (induction n arbitrary: parts)
     (auto split: option.splits sum.splits dest: tree_walk_lookup tree_walk_plain)

section \<open>Laws of symbolic links\<close>

text \<open>
  \<open>openat\<close> with \<open>O_NOFOLLOW\<close> opens no symbolic link, \<open>readlinkat\<close> succeeds only on one and returns
  its target, and none of the calls of the jail makes a link; opening a file that exists, and
  looking, leave the links as they are.
\<close>

locale link_kernel = file_kernel k obj ent data off + fd_kernel k fds
  for k :: "'w kernel" and obj :: "'w \<Rightarrow> int \<Rightarrow> 'o option" and ent data off fds +
  fixes lnk :: "'w \<Rightarrow> 'o \<Rightarrow> string option"
  assumes look_lnk: "k_dup k d w = (r, w') \<Longrightarrow> lnk w' = lnk w"
      "k_close k d w = (rc, w') \<Longrightarrow> lnk w' = lnk w"
      "k_readlinkat k d n w = (rs, w') \<Longrightarrow> lnk w' = lnk w"
      "k_fstatat k d n w = (rt, w') \<Longrightarrow> lnk w' = lnk w"
    and openat_lnk: "\<not> of_creat fl \<Longrightarrow> \<not> of_trunc fl \<Longrightarrow> k_openat k d n fl m w = (r, w') \<Longrightarrow> lnk w' = lnk w"
    and openat_nofollow: "of_nofollow fl \<Longrightarrow> k_openat k d n fl m w = (Inr f, w') \<Longrightarrow> obj w' f = Some c \<Longrightarrow> lnk w' c = None"
    and readlinkat_target: "k_readlinkat k d n w = (Inr t, w') \<Longrightarrow>
      \<exists>p c. obj w d = Some p \<and> ent w p n = Some c \<and> lnk w c = Some t"
    and no_new_lnk: "k_openat k d n fl m w = (r, w') \<Longrightarrow> lnk w' c \<noteq> None \<Longrightarrow> lnk w c \<noteq> None"
      "k_fstat k d w = (rt, w') \<Longrightarrow> lnk w' c \<noteq> None \<Longrightarrow> lnk w c \<noteq> None"
      "k_fchmod k d mode w = (rc, w') \<Longrightarrow> lnk w' c \<noteq> None \<Longrightarrow> lnk w c \<noteq> None"
      "k_write k d b w = (rc, w') \<Longrightarrow> lnk w' c \<noteq> None \<Longrightarrow> lnk w c \<noteq> None"
      "k_renameat k d n d' n' w = (rc, w') \<Longrightarrow> lnk w' c \<noteq> None \<Longrightarrow> lnk w c \<noteq> None"
      "k_unlinkat k d n isdir w = (rc, w') \<Longrightarrow> lnk w' c \<noteq> None \<Longrightarrow> lnk w c \<noteq> None"
begin

section \<open>The walk\<close>

text \<open>The tree is the one at the start, and the root descriptor refers to object \<open>p\<close>.\<close>

definition tree_kept :: "'w \<Rightarrow> int \<Rightarrow> 'o \<Rightarrow> 'w \<Rightarrow> bool" where
  "tree_kept w0 root p w \<longleftrightarrow> same_files ent data w0 w \<and> lnk w = lnk w0 \<and> obj w root = Some p"

definition dir_open :: "'w \<Rightarrow> int \<Rightarrow> 'o \<Rightarrow> int \<Rightarrow> 'o \<Rightarrow> 'w \<Rightarrow> bool" where
  "dir_open w0 root p d cur w \<longleftrightarrow> tree_kept w0 root p w \<and> obj w d = Some cur"

text \<open>A pass that does not fail ends as the pass on the tree does.\<close>

definition walked :: "'w \<Rightarrow> int \<Rightarrow> 'o \<Rightarrow> ('o + string list) option \<Rightarrow> jail_error + int \<times> string list \<Rightarrow> 'w \<Rightarrow> bool" where
  "walked w0 root p x res w \<longleftrightarrow> tree_kept w0 root p w \<and>
     (case res of Inl _ \<Rightarrow> True
      | Inr fp \<Rightarrow> if 0 \<le> fst fp then (\<exists>c. obj w (fst fp) = Some c \<and> x = Some (Inl c)) else x = Some (Inr (snd fp)))"

lemma walked_Inl [simp]: "walked w0 root p x (Inl e) w \<longleftrightarrow> tree_kept w0 root p w"
  by (simp add: walked_def)

lemma readlinkat_open:
  "triple (dir_open w0 root p d cur) (k_readlinkat k d n)
     (\<lambda>r w. dir_open w0 root p d cur w \<and> (\<forall>t. r = Inr t \<longrightarrow> (\<exists>c. ent w0 cur n = Some c \<and> lnk w0 c = Some t)))"
proof (unfold triple_def, clarify)
  fix w r w' assume o: "dir_open w0 root p d cur w" and eq: "k_readlinkat k d n w = (r, w')"
  from readlinkat_dir [OF eq] readlinkat_file [OF eq] look_lnk(3) [OF eq] o
  have "dir_open w0 root p d cur w'" by (auto simp: dir_open_def tree_kept_def same_files_def)
  moreover have "\<exists>c. ent w0 cur n = Some c \<and> lnk w0 c = Some t" if "r = Inr t" for t
    using readlinkat_target [of d n w t w'] eq that o by (auto simp: dir_open_def tree_kept_def same_files_def)
  ultimately show "dir_open w0 root p d cur w' \<and> (\<forall>t. r = Inr t \<longrightarrow> (\<exists>c. ent w0 cur n = Some c \<and> lnk w0 c = Some t))"
    by blast
qed

lemma close_kept: "d \<noteq> root \<Longrightarrow> triple (dir_open w0 root p d cur) (k_close k d) (\<lambda>_. tree_kept w0 root p)"
proof (unfold triple_def, clarify)
  fix w r w' assume d: "d \<noteq> root" "dir_open w0 root p d cur w" and eq: "k_close k d w = (r, w')"
  from close_dir [OF eq] close_file [OF eq] look_lnk(2) [OF eq] d
  show "tree_kept w0 root p w'" by (auto simp: dir_open_def tree_kept_def same_files_def)
qed

lemma close_next:
  assumes "d \<noteq> root" "f \<noteq> d"
  shows "triple (\<lambda>w. dir_open w0 root p d cur w \<and> obj w f = Some c) (k_close k d) (\<lambda>_. dir_open w0 root p f c)"
proof (unfold triple_def, clarify)
  fix w r w' assume o: "dir_open w0 root p d cur w" "obj w f = Some c" and eq: "k_close k d w = (r, w')"
  from close_dir [OF eq] close_file [OF eq] look_lnk(2) [OF eq] o assms
  show "dir_open w0 root p f c w'" by (auto simp: dir_open_def tree_kept_def same_files_def)
qed

lemma openat_open:
  assumes "of_nofollow fl" "\<not> of_creat fl" "\<not> of_trunc fl" "plain_name n"
  shows "triple (dir_open w0 root p d cur) (k_openat k d n fl m)
     (\<lambda>r w. dir_open w0 root p d cur w \<and> (\<forall>f. r = Inr f \<longrightarrow> 0 \<le> f \<and> f \<noteq> root \<and> f \<noteq> d \<and>
        (\<exists>c. ent w0 cur n = Some c \<and> lnk w0 c = None \<and> obj w f = Some c)))"
proof (unfold triple_def, clarify)
  fix w r w' assume o: "dir_open w0 root p d cur w" and eq: "k_openat k d n fl m w = (r, w')"
  have g: "grows obj ent w w'" using openat_dir [OF assms(1,4) eq] by blast
  have s: "same_files ent data w w'" "lnk w' = lnk w"
    using openat_keep [OF assms(2,3) eq] openat_lnk [OF assms(2,3) eq] by auto
  have o': "dir_open w0 root p d cur w'"
    using o g s by (auto simp: dir_open_def tree_kept_def same_files_def grows_def)
  moreover have "0 \<le> f \<and> f \<noteq> root \<and> f \<noteq> d \<and> (\<exists>c. ent w0 cur n = Some c \<and> lnk w0 c = None \<and> obj w' f = Some c)"
    if f: "r = Inr f" for f
  proof -
    from openat_dir [OF assms(1,4) eq] f obtain q c where
      c: "obj w f = None" "obj w d = Some q" "ent w' q n = Some c" "obj w' f = Some c" by blast
    have "lnk w' c = None" using openat_nofollow [OF assms(1) eq [unfolded f] c(4)] .
    moreover have "0 \<le> f" using openat_fds [OF eq] f by simp
    ultimately show ?thesis using c o o' by (auto simp: dir_open_def tree_kept_def same_files_def)
  qed
  ultimately show "dir_open w0 root p d cur w' \<and> (\<forall>f. r = Inr f \<longrightarrow> 0 \<le> f \<and> f \<noteq> root \<and> f \<noteq> d \<and>
        (\<exists>c. ent w0 cur n = Some c \<and> lnk w0 c = None \<and> obj w' f = Some c))" by blast
qed

lemma fstatat_open: "triple (dir_open w0 root p d cur) (k_fstatat k d n) (\<lambda>_. dir_open w0 root p d cur)"
proof (unfold triple_def, clarify)
  fix w r w' assume o: "dir_open w0 root p d cur w" and eq: "k_fstatat k d n w = (r, w')"
  from fstatat_dir [OF eq] fstatat_file [OF eq] look_lnk(4) [OF eq] o
  show "dir_open w0 root p d cur w'" by (auto simp: dir_open_def tree_kept_def same_files_def)
qed

lemma isSymlinkAt_open:
  "triple (dir_open w0 root p d cur) (isSymlinkAt k d n) (\<lambda>_. dir_open w0 root p d cur)"
  unfolding isSymlinkAt_def by (intro triple_bind [OF fstatat_open] triple_sum triple_return)

lemma walk_fail_walked:
  assumes "d \<noteq> root"
  shows "triple (dir_open w0 root p d cur) (walk_fail k d base n rest e)
     (walked w0 root p (tree_walk (ent w0) (lnk w0) cur base (n # rest)))"
  unfolding walk_fail_def
proof (rule triple_bind [where Q = "\<lambda>_. dir_open w0 root p d cur"], goal_cases)
  case 1
  show ?case by (intro triple_if triple_return isSymlinkAt_open)
next
  case (2 islink)
  have link: "triple (\<lambda>w. (\<forall>t. lr = Inr t \<longrightarrow> (\<exists>c. ent w0 cur n = Some c \<and> lnk w0 c = Some t)) \<and> dir_open w0 root p d cur w)
      (\<lambda>w2. case k_close k d w2 of (_, w3) \<Rightarrow>
         case lr of
           Inl _ \<Rightarrow> (Inl (Sys e), w3)
         | Inr target \<Rightarrow>
             if has_prefix target ''/'' then (Inl ErrEscape, w3)
             else (case joinComponents base target of
                     Inl je \<Rightarrow> (Inl je, w3)
                   | Inr joined \<Rightarrow> (Inr (-1, joined @ rest), w3)))
      (walked w0 root p (tree_walk (ent w0) (lnk w0) cur base (n # rest)))" for lr
    by (intro triple_pure triple_bind [OF close_kept [OF assms]] triple_sum triple_if triple_return)
       (auto simp: walked_def)
  show ?case
    by (intro triple_if triple_bind [OF readlinkat_open] triple_conseq [OF link] triple_bind [OF close_kept [OF assms]]
        triple_return) auto
qed

lemma walk_loop_walked:
  "\<not> of_creat fl \<Longrightarrow> \<not> of_trunc fl \<Longrightarrow> list_all plain_name rest \<Longrightarrow> d \<noteq> root \<Longrightarrow> 0 \<le> d \<Longrightarrow>
   triple (dir_open w0 root p d cur) (walk_loop k d base rest fl m)
     (walked w0 root p (tree_walk (ent w0) (lnk w0) cur base rest))"
proof (induction rest arbitrary: d base cur)
  case Nil
  then show ?case by (auto intro!: triple_return simp: walked_def dir_open_def)
next
  case (Cons n rest)
  have next_step: "triple (\<lambda>w. (0 \<le> f \<and> f \<noteq> root \<and> f \<noteq> d) \<and> ent w0 cur n = Some c \<and> lnk w0 c = None \<and>
        dir_open w0 root p d cur w \<and> obj w f = Some c)
      (\<lambda>w. case k_close k d w of (_, w2) \<Rightarrow> walk_loop k f (base @ [n]) rest fl m w2)
      (walked w0 root p (tree_walk (ent w0) (lnk w0) cur base (n # rest)))" for f c
    using Cons.IH [of f c "base @ [n]"] Cons.prems
    by (intro triple_pure) (auto intro!: triple_bind [OF close_next])
  show ?case
    unfolding walk_loop.simps
  proof (rule triple_bind [OF openat_open], goal_cases)
    case (5 a)
    show ?case
    proof (rule triple_sum, goal_cases)
      case (1 e)
      show ?case by (rule triple_conseq [OF walk_fail_walked]) (use Cons.prems in auto)
    next
      case (2 f)
      then show ?case by (intro triple_conseq [OF triple_exI [OF next_step]]) auto
    qed
  qed (use Cons.prems in \<open>auto simp: o_rdonly_def\<close>)
qed

lemma walk_walked:
  assumes "\<not> of_creat fl" "\<not> of_trunc fl" "list_all plain_name parts"
  shows "triple (tree_kept w0 (r_fd r) p) (walk k r parts fl m)
     (walked w0 (r_fd r) p (tree_walk (ent w0) (lnk w0) p [] parts))"
proof -
  have dup: "triple (tree_kept w0 (r_fd r) p) (k_dup k (r_fd r))
      (\<lambda>x w. (\<forall>f. x = Inr f \<longrightarrow> 0 \<le> f \<and> f \<noteq> r_fd r) \<and> (\<forall>f. x = Inr f \<longrightarrow> obj w f = Some p) \<and>
        tree_kept w0 (r_fd r) p w)"
  proof (unfold triple_def, clarify)
    fix w x w' assume o: "tree_kept w0 (r_fd r) p w" and eq: "k_dup k (r_fd r) w = (x, w')"
    from dup_dir [OF eq] dup_file [OF eq] look_lnk(1) [OF eq] o
    have "tree_kept w0 (r_fd r) p w'" by (auto simp: tree_kept_def same_files_def grows_def)
    moreover have "0 \<le> f \<and> f \<noteq> r_fd r \<and> obj w' f = Some p" if "x = Inr f" for f
      using dup_dir [OF eq] dup_fds [OF eq] that o by (auto simp: tree_kept_def)
    ultimately show "(\<forall>f. x = Inr f \<longrightarrow> 0 \<le> f \<and> f \<noteq> r_fd r) \<and> (\<forall>f. x = Inr f \<longrightarrow> obj w' f = Some p) \<and>
        tree_kept w0 (r_fd r) p w'" by blast
  qed
  show ?thesis
    unfolding walk_def
  proof (rule triple_bind [OF dup], rule triple_pure, rule triple_sum, goal_cases)
    case (2 x f)
    note loop = walk_loop_walked [OF assms, of f "r_fd r" w0 p p "[]" m]
    from 2 have f: "0 \<le> f" "f \<noteq> r_fd r" by auto
    with assms(1) 2 show ?case
      by (intro triple_if triple_return triple_conseq [OF loop]) (auto simp: walked_def dir_open_def)
  qed (auto intro!: triple_return)
qed

section \<open>Resolution\<close>

lemma resolve_loop_tree:
  "\<not> of_creat fl \<Longrightarrow> \<not> of_trunc fl \<Longrightarrow> list_all plain_name parts \<Longrightarrow>
   triple (tree_kept w0 (r_fd r) p) (resolve_loop n k r parts fl m)
     (\<lambda>res w. tree_kept w0 (r_fd r) p w \<and>
        (\<forall>fd. res = Inr fd \<longrightarrow> (\<exists>c. obj w fd = Some c \<and> tree_resolve n (ent w0) (lnk w0) p parts = Some c)))"
proof (induction n arbitrary: parts)
  case 0
  then show ?case by (simp add: triple_return)
next
  case (Suc n)
  show ?case
    unfolding resolve_loop.simps
  proof (rule triple_bind [OF walk_walked [OF Suc.prems]], rule triple_sum, goal_cases)
    case (2 a fp)
    show ?case
    proof (cases "0 \<le> fst fp")
      case True
      with 2 show ?thesis by (auto simp: walked_def intro!: triple_return)
    next
      case False
      show ?thesis
      proof (cases "tree_walk (ent w0) (lnk w0) p [] parts = Some (Inr (snd fp))")
        case x: True
        note plain = tree_walk_plain [OF Suc.prems(3) x]
        show ?thesis
          using 2 False by (simp add: x) (rule triple_conseq [OF Suc.IH [OF Suc.prems(1,2) plain]], auto simp: walked_def)
      next
        case x: False
        with 2 False show ?thesis by (auto simp: triple_def walked_def)
      qed
    qed
  qed (auto intro!: triple_return)
qed

lemma resolve_tree:
  assumes "\<not> of_creat fl" "\<not> of_trunc fl" "components rel = Inr parts"
  shows "triple (tree_kept w0 (r_fd r) p) (resolve k r rel fl m)
     (\<lambda>res w. tree_kept w0 (r_fd r) p w \<and>
        (\<forall>fd. res = Inr fd \<longrightarrow>
          (\<exists>c. obj w fd = Some c \<and> tree_resolve maxSymlinks (ent w0) (lnk w0) p parts = Some c)))"
  unfolding resolve_def using resolve_loop_tree [OF assms(1,2) components_plain [OF assms(3)]] assms(3) by simp

end

section \<open>The reference kernel\<close>

definition px_lnk :: "pworld \<Rightarrow> nat \<Rightarrow> string option" where
  "px_lnk w c = (if pn_type (px_node w c) = FLnk then Some (px_data w c) else None)"

lemma px_node_cong: "px_nodes w' = px_nodes w \<Longrightarrow> px_node w' = px_node w"
  by (simp add: px_node_def fun_eq_iff)

lemma px_lnk_cong: "px_nodes w' = px_nodes w \<Longrightarrow> px_lnk w' = px_lnk w"
  using px_node_cong [of w' w] by (simp add: px_lnk_def px_data_def fun_eq_iff)

lemma px_new_fd_nodes:
  assumes "px_new_fd c w = (r, w')"
  shows "\<exists>f. r = Inr f \<and> px_obj w' = (px_obj w)(f := Some c) \<and> px_nodes w' = px_nodes w \<and> px_node w' = px_node w"
  using assms by (auto simp: px_new_fd_def px_obj_def px_node_def fun_eq_iff)

lemma px_openat_lnk:
  assumes "px_openat d n fl m w = (r, w')"
  shows "r = Inr f \<Longrightarrow> px_obj w' f = Some c \<Longrightarrow> px_lnk w' c = None"
    "px_lnk w' c \<noteq> None \<Longrightarrow> px_lnk w c \<noteq> None"
    "\<not> of_creat fl \<Longrightarrow> \<not> of_trunc fl \<Longrightarrow> px_nodes w' = px_nodes w"
  using assms
  by (auto simp: px_openat_def px_lnk_def split: sum.splits option.splits if_splits dest!: px_new_fd_nodes)

lemma px_write_lnk:
  assumes "px_write d b w = (r, w')" "px_lnk w' c \<noteq> None"
  shows "px_lnk w c \<noteq> None"
proof (cases "map_of (px_fds w) d")
  case (Some cq)
  then obtain i q where cq: "map_of (px_fds w) d = Some (i, q)" by (cases cq) auto
  let ?nd = "(px_node w i)\<lparr>pn_data := take q (px_data w i) @ b @ drop (q + length b) (px_data w i)\<rparr>"
  have "px_node w' = px_node (px_set_node i ?nd w)"
    using assms(1) cq by (intro px_node_cong) (auto simp: px_write_def)
  then have "pn_type (px_node w' c) = pn_type (px_node w c)" by simp
  with assms(2) show ?thesis by (auto simp: px_lnk_def split: if_splits)
qed (use assms in \<open>simp add: px_write_def\<close>)

interpretation px_link: link_kernel px_kernel px_obj px_ent px_data px_off px_open_fds px_lnk
proof (unfold_locales, goal_cases)
  case (1 d w r w')
  then show ?case by (auto simp: px_dup_def px_new_fd_def intro: px_lnk_cong split: option.splits)
next
  case (2 d w r w')
  then show ?case by (auto simp: px_close_def intro: px_lnk_cong split: if_splits)
next
  case (5 fl d n m w r w')
  then show ?case using px_openat_lnk(3) [of d n fl m w r w'] px_lnk_cong [of w' w] by simp
next
  case (6 fl d n m w f w' c)
  then show ?case using px_openat_lnk(1) [of d n fl m w "Inr f" w' f c] by simp
next
  case (8 d n fl m w r w' c)
  then show ?case using px_openat_lnk(2) [of d n fl m w r w' c] by simp
next
  case (11 d b w r w' c)
  then show ?case using px_write_lnk [of d b w r w' c] by simp
qed (auto simp: px_readlinkat_def px_fstatat_def px_fstat_def px_fchmod_def px_renameat_def px_unlinkat_def px_lnk_def
       dest!: px_entry_Inr split: option.splits sum.splits if_splits prod.splits)

section \<open>Replace\<close>

lemma components_loop_names:
  "list_all plain_name ps \<Longrightarrow> \<forall>p \<in> set ps. nul \<notin> set p \<Longrightarrow> components_loop out ps = Inr (out @ ps)"
  by (induction ps arbitrary: out) (auto simp: plain_name_def)

lemma components_loop_set:
  "components_loop out ps = Inr qs \<Longrightarrow> \<Union> (set ` set qs) \<subseteq> \<Union> (set ` set out) \<union> \<Union> (set ` set ps)"
  by (induction out ps rule: components_loop.induct) (auto split: if_splits dest!: in_set_butlastD)

text \<open>Cutting the last component off a path and reading the rest again gives the other components.\<close>

lemma split_join_components:
  assumes "components rel = Inr parts"
  shows "components (join_sep ''/'' (butlast parts)) = Inr (butlast parts)"
proof -
  let ?ps = "butlast parts"
  have plain: "list_all plain_name ?ps"
    using components_plain [OF assms] by (auto simp: list_all_iff dest: in_set_butlastD)
  have "set (concat parts) \<subseteq> set rel" "nul \<notin> set rel" "backslash \<notin> set rel"
    using assms components_loop_set [of "[]" "split_sep slash rel" parts] split_sep_chars [of _ slash rel]
    by (auto simp: components_def split: if_splits)
  then have chars: "nul \<notin> set p \<and> backslash \<notin> set p" if "p \<in> set ?ps" for p
    using that by (auto dest: in_set_butlastD)
  have rel: "nul \<notin> set (join_sep ''/'' ?ps)" "backslash \<notin> set (join_sep ''/'' ?ps)"
    using set_join_sep [of "''/''" ?ps] chars by auto
  show ?thesis
  proof (cases "?ps = []")
    case False
    have "split_sep slash (join_sep [slash] ?ps) = ?ps"
      using plain by (intro split_join [OF False]) (auto simp: list_all_iff plain_name_def)
    then show ?thesis
      using rel components_loop_names [OF plain, of "[]"] chars by (simp add: components_def)
  qed (simp add: components_def)
qed

context link_kernel
begin

text \<open>The entry \<open>Replace\<close> installs: the last component, in the directory the others resolve to.\<close>

definition target_of :: "'w \<Rightarrow> 'o \<Rightarrow> string \<Rightarrow> 'o \<Rightarrow> string \<Rightarrow> bool" where
  "target_of w p rel D n \<longleftrightarrow> (\<exists>parts. components rel = Inr parts \<and> parts \<noteq> [] \<and> n = last parts \<and>
     tree_resolve maxSymlinks (ent w) (lnk w) p (butlast parts) = Some D)"

lemma parentOf_target:
  "triple (\<lambda>w. w = w0 \<and> obj w (r_fd r) = Some p) (parentOf k r rel)
     (\<lambda>res w. found w0 (target_of w0 p rel) res w \<and> lnk w = lnk w0)"
proof (cases "components rel")
  case (Inl e)
  then show ?thesis by (simp add: parentOf_def triple_def found_def same_files_def)
next
  case (Inr parts)
  note res = resolve_tree [OF _ _ split_join_components [OF Inr], of _ w0 r p]
  show ?thesis
  proof (cases "parts = []")
    case True
    with Inr show ?thesis by (simp add: parentOf_def triple_def found_def same_files_def)
  next
    case False
    have "triple (tree_kept w0 (r_fd r) p) (parentOf k r rel)
        (\<lambda>res w. found w0 (target_of w0 p rel) res w \<and> lnk w = lnk w0)"
      using False Inr unfolding parentOf_def
      by simp (rule triple_bind [OF res], simp add: o_rdonly_def, simp add: o_rdonly_def, rule triple_sum;
        auto intro!: triple_return simp: found_def tree_kept_def target_of_def)
    then show ?thesis by (rule triple_conseq) (auto simp: tree_kept_def same_files_def)
  qed
qed

text \<open>\<open>Replace\<close> makes no symbolic link.\<close>

definition no_new :: "'w \<Rightarrow> 'w \<Rightarrow> bool" where
  "no_new w0 w \<longleftrightarrow> (\<forall>c. lnk w c \<noteq> None \<longrightarrow> lnk w0 c \<noteq> None)"

lemma no_new_calls:
  "triple (no_new w0) (k_openat k d n fl m) (\<lambda>_. no_new w0)" "triple (no_new w0) (k_close k d) (\<lambda>_. no_new w0)"
  "triple (no_new w0) (k_fstat k d) (\<lambda>_. no_new w0)" "triple (no_new w0) (k_fchmod k d mode) (\<lambda>_. no_new w0)"
  "triple (no_new w0) (k_write k d b) (\<lambda>_. no_new w0)" "triple (no_new w0) (k_renameat k d n d' n') (\<lambda>_. no_new w0)"
  "triple (no_new w0) (k_unlinkat k d n isdir) (\<lambda>_. no_new w0)"
  unfolding triple_def no_new_def by (auto dest: no_new_lnk look_lnk(2) split: prod.splits)

lemma io_copy_no_new: "triple (no_new w0) (io_copy k fd body err) (\<lambda>_. no_new w0)"
  by (induction body) (simp_all, (intro triple_option triple_return triple_bind [OF no_new_calls(5)] triple_sum; assumption?)+)

lemma replace_in_no_new: "triple (no_new w0) (replace_in k d name perm rnd body err) (\<lambda>_. no_new w0)"
  unfolding replace_in_def replace_body_def chmodNote_def
  by (intro triple_option triple_sum triple_return triple_bind [OF no_new_calls(1)] triple_bind [OF no_new_calls(2)]
      triple_bind [OF no_new_calls(3)] triple_bind [OF no_new_calls(4)] triple_bind [OF no_new_calls(6)]
      triple_bind [OF no_new_calls(7)] triple_bind [OF io_copy_no_new] triple_bind [where Q = "\<lambda>_. no_new w0"])

lemma Replace_no_new:
  "triple (\<lambda>w. w = w0 \<and> obj w (r_fd r) = Some p) (Replace k r rel perm rnd body err) (\<lambda>_. no_new w0)"
proof -
  have "triple (\<lambda>w. w = w0 \<and> obj w (r_fd r) = Some p) (parentOf k r rel) (\<lambda>_. no_new w0)"
    by (rule triple_conseq [OF parentOf_target]) (auto simp: no_new_def)
  then show ?thesis
    unfolding Replace_def by (rule triple_bind) (intro triple_sum triple_return replace_in_no_new)
qed

lemma Replace_target:
  "triple (\<lambda>w. w = w0 \<and> obj w (r_fd r) = Some p) (Replace k r rel perm rnd body err)
     (replace_post w0 (target_of w0 p rel) body err)"
  by (rule Replace_found, rule triple_conseq [OF parentOf_target]) auto

end

end
