(* ===== verification/Jail_Properties.thy ===== *)
theory Jail_Properties
  imports Jail_Resolve
begin

text \<open>
  The properties of \<open>internal/jail\<close>: confinement of every operation on every kernel,
  resolution below the root, the atomicity of \<open>Replace\<close>, the absence of descriptor leaks,
  and the agreement of \<open>components\<close> with the cleaning of the standard library. The concrete
  runs use the reference kernel of \<open>Posix_Ref\<close> on a directory with a file, a
  subdirectory and two symbolic links.
\<close>

section \<open>A concrete directory\<close>

definition demo_file :: "string \<Rightarrow> pnode" where
  "demo_file b = \<lparr>pn_type = FReg, pn_bits = 0x1A0, pn_uid = 0, pn_gid = 0, pn_data = b\<rparr>"

definition demo_dir :: pnode where
  "demo_dir = \<lparr>pn_type = FDir, pn_bits = 0x5F8, pn_uid = 0, pn_gid = 0, pn_data = []\<rparr>"

definition demo_link :: "string \<Rightarrow> pnode" where
  "demo_link t = \<lparr>pn_type = FLnk, pn_bits = 0x1FF, pn_uid = 0, pn_gid = 0, pn_data = t\<rparr>"

definition demo_world :: pworld where
  "demo_world = \<lparr>px_fds = [(3, 1, 0)],
     px_ents = [((1, ''cfg''), 2), ((1, ''sub''), 3), ((1, ''out''), 4), ((1, ''in''), 5), ((3, ''key''), 6)],
     px_nodes = [(1, demo_dir), (2, demo_file ''old''), (3, demo_dir), (4, demo_link ''/etc''),
                 (5, demo_link ''sub''), (6, demo_file ''k'')]\<rparr>"

definition demo_root :: jail_root where
  "demo_root = \<lparr>r_fd = 3, r_name = ''/srv''\<rparr>"

lemma demo_obj: "px_obj demo_world (r_fd demo_root) = Some 1"
  by (simp add: demo_world_def demo_root_def px_obj_def)

section \<open>Confinement\<close>

text \<open>
  C1. Whatever the kernel answers, every file operation of the jail makes only confined
  calls: each works on the root descriptor or on one obtained from it by \<open>dup\<close> and
  \<open>openat\<close> within the same operation, names a single path element other than \<open>.\<close> and
  \<open>..\<close>, and opens with \<open>O_NOFOLLOW\<close>; logging the calls does not change the result.
\<close>

theorem jail_ops_confined:
  "\<exists>es. run_op (traced k) r op (w, t) = (fst (run_op k r op w), (snd (run_op k r op w), t @ es)) \<and>
     confined (r_fd r) {} es"
  using run_op_confined [of r "{}" k op] unfolding confines_def by blast

text \<open>
  On a file system that keeps the lookup laws alone, a descriptor that \<open>Open\<close> returns refers
  to an object reached from the root directory by a path of plain names: no symbolic link,
  \<open>..\<close> element or absolute target leads out of the jail.
\<close>

theorem open_below_root:
  assumes "dir_kernel k obj ent" "obj w (r_fd r) = Some p" "Open k r rel w = (Inr fd, w')"
  shows "\<exists>ps c. list_all plain_name ps \<and> path_lookup (ent w') p ps = Some c \<and> obj w' fd = Some c"
proof -
  have "triple (\<lambda>w. obj w (r_fd r) = Some p) (Open k r rel)
     (\<lambda>res w. obj w (r_fd r) = Some p \<and>
        (\<forall>fd. res = Inr fd \<longrightarrow> (\<exists>ps. list_all plain_name ps \<and> dir_kernel.at obj ent (r_fd r) p fd ps w)))"
    unfolding Open_def by (rule dir_kernel.resolve_at [OF assms(1)])
  from tripleD [OF this assms(2,3)] show ?thesis
    unfolding dir_kernel.at_def [OF assms(1)] by blast
qed

lemma demo_open: "Open px_kernel demo_root ''in/key'' demo_world = (Inr 6, snd (Open px_kernel demo_root ''in/key'' demo_world))"
  by code_simp

theorem open_below_root_witness:
  "\<exists>w'. Open px_kernel demo_root ''in/key'' demo_world = (Inr 6, w') \<and>
     (\<exists>ps c. list_all plain_name ps \<and> path_lookup (px_ent w') 1 ps = Some c \<and> px_obj w' 6 = Some c)"
  using open_below_root [OF px_file.dir_kernel_axioms demo_obj demo_open] demo_open by blast

lemma open_tree:
  assumes "link_kernel k obj ent data off fds lnk" "obj w (r_fd r) = Some p" "components rel = Inr parts"
    and "Open k r rel w = (Inr fd, w')"
  obtains c where "obj w' fd = Some c" "tree_resolve maxSymlinks (ent w) (lnk w) p parts = Some c" "data w' = data w"
proof -
  have t: "triple (link_kernel.tree_kept obj ent data lnk w (r_fd r) p) (Open k r rel)
     (\<lambda>res w1. link_kernel.tree_kept obj ent data lnk w (r_fd r) p w1 \<and>
        (\<forall>fd. res = Inr fd \<longrightarrow> (\<exists>c. obj w1 fd = Some c \<and> tree_resolve maxSymlinks (ent w) (lnk w) p parts = Some c)))"
    unfolding Open_def
    by (rule link_kernel.resolve_tree [OF assms(1) _ _ assms(3)]) (simp_all add: o_rdonly_def)
  note kept = link_kernel.tree_kept_def [OF assms(1)]
  have "link_kernel.tree_kept obj ent data lnk w (r_fd r) p w"
    by (simp add: kept same_files_def assms(2))
  from tripleD [OF t this assms(4)] that show thesis by (auto simp: kept same_files_def)
qed

text \<open>
  C2. The loops over system calls implement path resolution in a \<open>chroot\<close>: whenever \<open>Open\<close> returns a
  descriptor, it refers to the object that \<open>tree_resolve\<close> finds for the path's components in the
  directory tree, following symbolic links as text relative to the root and refusing absolute
  ones and those that climb out, within the code's number of restarts; and that object is reached
  from the root directory by plain names only.
\<close>

theorem open_resolves:
  assumes "link_kernel k obj ent data off fds lnk" "obj w (r_fd r) = Some p" "components rel = Inr parts"
    and "Open k r rel w = (Inr fd, w')"
  shows "\<exists>c ps. obj w' fd = Some c \<and> tree_resolve maxSymlinks (ent w) (lnk w) p parts = Some c \<and>
    list_all plain_name ps \<and> path_lookup (ent w) p ps = Some c"
  using open_tree [OF assms] tree_resolve_below [OF components_plain [OF assms(3)]] by metis

lemma demo_components: "components ''in/key'' = Inr [''in'', ''key'']"
  by code_simp

theorem open_resolves_witness:
  "\<exists>w'. Open px_kernel demo_root ''in/key'' demo_world = (Inr 6, w') \<and>
     (\<exists>c ps. px_obj w' 6 = Some c \<and>
        tree_resolve maxSymlinks (px_ent demo_world) (px_lnk demo_world) 1 [''in'', ''key''] = Some c \<and>
        list_all plain_name ps \<and> path_lookup (px_ent demo_world) 1 ps = Some c)"
  using open_resolves [OF px_link.link_kernel_axioms demo_obj demo_components demo_open] demo_open by blast

section \<open>Atomic replacement\<close>

text \<open>
  C3. \<open>Replace\<close> is all or nothing. When it returns an error, every directory entry and every
  file that existed is unchanged. When it succeeds, the body has ended without a read error,
  the last name of the path is an entry of the parent directory for a new file holding the
  whole body, and every other entry and file is unchanged.
\<close>

theorem replace_atomic:
  assumes "file_kernel k obj ent data off" "obj w (r_fd r) = Some p"
    and "Replace k r rel perm rnd body err w = (res, w')"
  shows "case res of
      Inl _ \<Rightarrow> untouched ent data w w'
    | Inr _ \<Rightarrow> err = None \<and> (\<exists>D n. parent_at (ent w) p rel D n \<and> replaced ent data w D n (concat body) w')"
  using tripleD [OF file_kernel.Replace_post [OF assms(1)], of w w] assms(2,3)
  unfolding file_kernel.replace_post_def [OF assms(1)] by blast

lemma demo_replace:
  "Replace px_kernel demo_root ''in/../cfg'' 0x1A0 (Some ''ABCDEFGH'') [''new '', ''text''] None demo_world =
     (Inr (), snd (Replace px_kernel demo_root ''in/../cfg'' 0x1A0 (Some ''ABCDEFGH'') [''new '', ''text''] None demo_world))"
  by code_simp

theorem replace_atomic_witness:
  "\<exists>w'. Replace px_kernel demo_root ''in/../cfg'' 0x1A0 (Some ''ABCDEFGH'') [''new '', ''text''] None demo_world = (Inr (), w') \<and>
     (\<exists>D n. parent_at (px_ent demo_world) 1 ''in/../cfg'' D n \<and>
        replaced px_ent px_data demo_world D n ''new text'' w')"
  using replace_atomic [OF px_file.file_kernel_axioms demo_obj demo_replace] demo_replace by auto

text \<open>
  C24. What is stored is what is read back: after a \<open>Replace\<close> of a name in the root directory that
  succeeded, any \<open>Open\<close> of that name that succeeds refers to a file whose content is the whole
  body, also when the name was a symbolic link before. A link is assumed to be named by some
  entry.
\<close>

theorem replace_then_open:
  assumes k: "link_kernel k obj ent data off fds lnk" and p: "obj w (r_fd r) = Some p" and n: "components rel = Inr [n]"
    and named: "\<And>c. lnk w c \<noteq> None \<Longrightarrow> \<exists>q x. ent w q x = Some c"
    and wr: "Replace k r rel perm rnd body err w = (Inr (), w1)"
    and root: "obj w1 (r_fd r) = Some p" and op: "Open k r rel w1 = (Inr fd, w2)"
  shows "\<exists>c. obj w2 fd = Some c \<and> data w2 c = concat body"
proof -
  have f: "file_kernel k obj ent data off" using k by (simp add: link_kernel_def)
  from tripleD [OF link_kernel.Replace_target [OF k] _ wr] p obtain D where
    D: "tree_resolve maxSymlinks (ent w) (lnk w) p [] = Some D" "replaced ent data w D n (concat body) w1"
    by (auto simp: file_kernel.replace_post_def [OF f] link_kernel.target_of_def [OF k] n)
  then obtain c where c: "ent w1 p n = Some c" "data w1 c = concat body" "\<And>q x. ent w q x \<noteq> Some c"
    by (auto simp: replaced_def maxSymlinks_def numeral_eq_Suc)
  have "lnk w1 c \<noteq> None \<Longrightarrow> lnk w c \<noteq> None"
    using tripleD [OF link_kernel.Replace_no_new [OF k] _ wr] p by (auto simp: link_kernel.no_new_def [OF k])
  with named c(3) have "lnk w1 c = None" by blast
  moreover obtain c' where "obj w2 fd = Some c'" "tree_resolve maxSymlinks (ent w1) (lnk w1) p [n] = Some c'" "data w2 = data w1"
    using open_tree [OF k root n op] by metis
  ultimately show ?thesis using c by (auto simp: maxSymlinks_def numeral_eq_Suc)
qed

text \<open>Replacing the link \<open>out\<close>, which pointed outside, and reading it back.\<close>

definition demo_stored :: pworld where
  "demo_stored = snd (Replace px_kernel demo_root ''out'' 0x1A0 (Some ''ABCDEFGH'') [''new '', ''text''] None demo_world)"

lemma demo_store:
  "Replace px_kernel demo_root ''out'' 0x1A0 (Some ''ABCDEFGH'') [''new '', ''text''] None demo_world = (Inr (), demo_stored)"
  "px_obj demo_stored (r_fd demo_root) = Some 1" "components ''out'' = Inr [''out'']"
  "Open px_kernel demo_root ''out'' demo_stored = (Inr 5, snd (Open px_kernel demo_root ''out'' demo_stored))"
  by code_simp+

lemma demo_links_named:
  assumes "px_lnk demo_world c \<noteq> None"
  shows "\<exists>q x. px_ent demo_world q x = Some c"
proof -
  have "c = 4 \<or> c = 5"
    using assms by (auto simp: px_lnk_def px_node_def demo_world_def demo_dir_def demo_file_def split: if_split_asm)
  moreover have "px_ent demo_world 1 ''out'' = Some 4" "px_ent demo_world 1 ''in'' = Some 5" by code_simp+
  ultimately show ?thesis by blast
qed

theorem replace_then_open_witness:
  "\<exists>c w'. Open px_kernel demo_root ''out'' demo_stored = (Inr 5, w') \<and> px_obj w' 5 = Some c \<and> px_data w' c = ''new text''"
proof -
  from replace_then_open [OF px_link.link_kernel_axioms demo_obj demo_store(3) demo_links_named demo_store(1,2,4)] demo_store(4)
  show ?thesis by auto
qed

section \<open>Descriptors\<close>

text \<open>
  C4. No operation leaks a descriptor: after it, the open descriptors are those open before,
  plus exactly the one that \<open>Open\<close> or \<open>Create\<close> returns, on every path through the code
  including the failing ones.
\<close>

theorem jail_ops_no_leak:
  assumes "fd_kernel k fds" "run_op k r op w = (res, w')"
  shows "fds w' = fds w \<union> handed res"
  using tripleD [OF fd_kernel.run_op_fds [OF assms(1)], OF refl assms(2)] .

lemma demo_escape: "run_op px_kernel demo_root (OpRemove ''out/passwd'') demo_world =
    (Inl ErrEscape, snd (run_op px_kernel demo_root (OpRemove ''out/passwd'') demo_world))"
  by code_simp

theorem jail_ops_no_leak_witness:
  "\<exists>w'. run_op px_kernel demo_root (OpRemove ''out/passwd'') demo_world = (Inl ErrEscape, w') \<and>
     px_open_fds w' = px_open_fds demo_world"
  using jail_ops_no_leak [OF px_fd.fd_kernel_axioms demo_escape] demo_escape by auto

section \<open>Lexical components\<close>

lemma clean_step_hd:
  "out \<noteq> [] \<Longrightarrow> hd out = dotdot \<Longrightarrow> clean_step False out p \<noteq> [] \<and> hd (clean_step False out p) = dotdot"
  by (cases out rule: rev_cases) (auto simp: clean_step_def hd_append)

lemma foldl_clean_step_hd:
  "out \<noteq> [] \<Longrightarrow> hd out = dotdot \<Longrightarrow>
   foldl (clean_step False) out ps \<noteq> [] \<and> hd (foldl (clean_step False) out ps) = dotdot"
  by (induction ps arbitrary: out) (use clean_step_hd in auto)

lemma components_loop_clean:
  "list_all plain_name out \<Longrightarrow> \<forall>p \<in> set ps. slash \<notin> set p \<and> nul \<notin> set p \<Longrightarrow>
   components_loop out ps =
     (let cs = foldl (clean_step False) out ps
      in if cs \<noteq> [] \<and> hd cs = dotdot then Inl ErrEscape else Inr cs)"
proof (induction ps arbitrary: out)
  case Nil
  then show ?case by (cases out) auto
next
  case (Cons p ps)
  have last: "out \<noteq> [] \<Longrightarrow> last out \<noteq> dotdot"
    using Cons.prems(1) plain_name_simps(3) by (metis last_in_set list_all_iff)
  consider "p = [] \<or> p = dot" | "p = dotdot" "out = []" | "p = dotdot" "out \<noteq> []" | "plain_name p"
    using Cons.prems(2) by (auto simp: plain_name_def)
  then show ?case
  proof cases
    case 2
    then show ?thesis
      using foldl_clean_step_hd [of "[dotdot]" ps] clean_step_def [of False "[]" dotdot] by (simp add: Let_def)
  next
    case 3
    moreover have "list_all plain_name (butlast out)"
      using Cons.prems(1) by (auto simp: list_all_iff dest: in_set_butlastD)
    ultimately show ?thesis using Cons last by (simp add: clean_step_def)
  next
    case 4
    then have p: "p \<noteq> []" "p \<noteq> dot" "p \<noteq> dotdot" "nul \<notin> set p"
      using Cons.prems(2) by (auto simp: plain_name_def)
    with Cons 4 show ?thesis by (simp add: clean_step_def)
  qed (use Cons in \<open>auto simp: clean_step_def\<close>)
qed

text \<open>
  C5. \<open>components\<close> agrees with the cleaning of package \<open>path\<close>: a path with a NUL or a
  backslash is invalid; otherwise the result is the element list of the cleaned relative
  path, and the path is refused as an escape exactly when that list starts with \<open>..\<close>.
\<close>

theorem components_clean:
  "components rel =
     (if nul \<in> set rel \<or> backslash \<in> set rel then Inl ErrInvalid
      else let cs = clean_parts False (split_sep slash rel)
           in if cs \<noteq> [] \<and> hd cs = dotdot then Inl ErrEscape else Inr cs)"
proof (cases "nul \<in> set rel \<or> backslash \<in> set rel")
  case False
  moreover have "slash \<notin> set p \<and> nul \<notin> set p" if "p \<in> set (split_sep slash rel)" for p
    using that False split_sep_chars [OF that] split_sep_no_sep [OF that] by auto
  ultimately show ?thesis
    using components_loop_clean [of "[]" "split_sep slash rel"] by (auto simp: components_def clean_parts_def)
qed (auto simp: components_def)

text \<open>
  The root itself is never changed: \<open>Remove\<close>, \<open>Mkdir\<close> and \<open>Replace\<close> on a path without
  components (such as \<open>.\<close>, the empty path or \<open>a/..\<close>) return \<open>ErrInvalid\<close> and make no system
  call at all; a path that escapes is refused the same way by every operation.
\<close>

theorem root_and_escape_refused:
  "(components rel = Inr [] \<longrightarrow>
      Remove k r rel w = (Inl ErrInvalid, w) \<and> Mkdir k r rel perm w = (Inl ErrInvalid, w) \<and>
      Replace k r rel perm rnd body err w = (Inl ErrInvalid, w)) \<and>
   (components rel = Inl e \<longrightarrow>
      Remove k r rel w = (Inl e, w) \<and> Mkdir k r rel perm w = (Inl e, w) \<and>
      Replace k r rel perm rnd body err w = (Inl e, w) \<and> Open k r rel w = (Inl e, w) \<and>
      Create k r rel perm w = (Inl e, w) \<and> Stat k r rel w = (Inl e, w) \<and>
      Chown k r rel u g w = (Inl e, w) \<and> ReadDirNames k r rel w = (Inl e, w))"
  by (simp add: Remove_def Mkdir_def Replace_def Open_def Create_def Stat_def Chown_def ReadDirNames_def
      parentOf_def resolve_def)

theorem root_and_escape_refused_witness:
  "Remove px_kernel demo_root ''sub/..'' demo_world = (Inl ErrInvalid, demo_world) \<and>
   Open px_kernel demo_root ''sub/../../etc'' demo_world = (Inl ErrEscape, demo_world)"
proof
  have "components ''sub/..'' = Inr []" by code_simp
  then show "Remove px_kernel demo_root ''sub/..'' demo_world = (Inl ErrInvalid, demo_world)"
    using root_and_escape_refused [of "''sub/..''" px_kernel demo_root demo_world] by simp
  have "components ''sub/../../etc'' = Inl ErrEscape" by code_simp
  then show "Open px_kernel demo_root ''sub/../../etc'' demo_world = (Inl ErrEscape, demo_world)"
    using root_and_escape_refused [of "''sub/../../etc''" px_kernel demo_root demo_world] by simp
qed

end
