(* ===== verification/Go_Os.thy ===== *)
theory Go_Os
  imports Kernel_Api "HOL-Library.AList"
begin

text \<open>
  The path-based calls of package \<open>os\<close> on the files of one directory, as the session store
  uses them. Files are keyed by their name in that directory. Every call first consumes one
  entry of a fault list: \<open>Some (e, j)\<close> makes it fail with \<open>e\<close>. A failing \<open>WriteFile\<close> leaves
  the file as it was when \<open>j\<close> is 0 (the open failed) and otherwise truncated to the first
  \<open>j - 1\<close> bytes of its data. Theorems about all fault lists are theorems about every way the
  calls can fail.
\<close>

section \<open>State\<close>

record ofile =
  f_bytes :: string
  f_bits :: "32 word"
  f_uid :: int
  f_gid :: int
  f_isdir :: bool

record osdir =
  od_self :: "ofile option"
  od_files :: "(string \<times> ofile) list"
  od_faults :: "(errno \<times> nat) option list"

type_synonym 'a oscall = "osdir \<Rightarrow> (errno + 'a) \<times> osdir"

definition fget :: "osdir \<Rightarrow> string \<Rightarrow> ofile option" where
  "fget w n = map_of (od_files w) n"

definition fput :: "string \<Rightarrow> ofile \<Rightarrow> osdir \<Rightarrow> osdir" where
  "fput n f w = w\<lparr>od_files := AList.update n f (od_files w)\<rparr>"

definition fdel :: "string \<Rightarrow> osdir \<Rightarrow> osdir" where
  "fdel n w = w\<lparr>od_files := AList.delete n (od_files w)\<rparr>"

text \<open>A fault is never \<open>ENOENT\<close>: the calls return that error only when the name is missing.\<close>

definition fault :: "osdir \<Rightarrow> (errno \<times> nat) option \<times> osdir" where
  "fault w = (case od_faults w of [] \<Rightarrow> (None, w)
     | f # fs \<Rightarrow> (map_option (\<lambda>(e, j). (if e = ENOENT then EIO else e, j)) f, w\<lparr>od_faults := fs\<rparr>))"

text \<open>The bytes of the regular file a name holds: what the theorems speak about.\<close>

definition bytes :: "osdir \<Rightarrow> string \<Rightarrow> string option" where
  "bytes w n = (case fget w n of None \<Rightarrow> None | Some f \<Rightarrow> if f_isdir f then None else Some (f_bytes f))"

lemma fget_simps [simp]:
  "fget (fput n f w) m = (if m = n then Some f else fget w m)"
  "fget (fdel n w) m = (if m = n then None else fget w m)"
  "fget (w\<lparr>od_faults := fs\<rparr>) = fget w"
  "fget (w\<lparr>od_self := d\<rparr>) = fget w"
  "fget (snd (fault w)) = fget w"
  by (auto simp: fget_def fput_def fdel_def fault_def update_conv' delete_conv' fun_eq_iff split: list.splits)

lemma bytes_simps [simp]:
  "bytes (fput n f w) m = (if m = n then (if f_isdir f then None else Some (f_bytes f)) else bytes w m)"
  "bytes (fdel n w) m = (if m = n then None else bytes w m)"
  "bytes (w\<lparr>od_faults := fs\<rparr>) = bytes w"
  "bytes (w\<lparr>od_self := d\<rparr>) = bytes w"
  "bytes (snd (fault w)) = bytes w"
  by (auto simp: bytes_def fun_eq_iff)

lemma od_self_simps [simp]:
  "od_self (fput n f w) = od_self w" "od_self (fdel n w) = od_self w" "od_self (snd (fault w)) = od_self w"
  by (auto simp: fput_def fdel_def fault_def split: list.splits)

section \<open>Calls\<close>

definition os_stat_dir :: "ofile oscall" where
  "os_stat_dir w = (case fault w of (ft, w1) \<Rightarrow>
     case ft of Some (e, _) \<Rightarrow> (Inl e, w1)
     | None \<Rightarrow> (case od_self w1 of None \<Rightarrow> (Inl ENOENT, w1) | Some d \<Rightarrow> (Inr d, w1)))"

definition os_mkdir_all :: "32 word \<Rightarrow> unit oscall" where
  "os_mkdir_all m w = (case fault w of (ft, w1) \<Rightarrow>
     case ft of Some (e, _) \<Rightarrow> (Inl e, w1)
     | None \<Rightarrow> (Inr (), case od_self w1 of
         None \<Rightarrow> w1\<lparr>od_self := Some \<lparr>f_bytes = [], f_bits = m, f_uid = 0, f_gid = 0, f_isdir = True\<rparr>\<rparr>
       | Some _ \<Rightarrow> w1))"

definition os_chmod_dir :: "32 word \<Rightarrow> unit oscall" where
  "os_chmod_dir m w = (case fault w of (ft, w1) \<Rightarrow>
     case ft of Some (e, _) \<Rightarrow> (Inl e, w1)
     | None \<Rightarrow> (case od_self w1 of None \<Rightarrow> (Inl ENOENT, w1)
        | Some d \<Rightarrow> (Inr (), w1\<lparr>od_self := Some (d\<lparr>f_bits := m\<rparr>)\<rparr>)))"

definition os_lstat :: "string \<Rightarrow> ofile oscall" where
  "os_lstat n w = (case fault w of (ft, w1) \<Rightarrow>
     case ft of Some (e, _) \<Rightarrow> (Inl e, w1)
     | None \<Rightarrow> (case fget w1 n of None \<Rightarrow> (Inl ENOENT, w1) | Some f \<Rightarrow> (Inr f, w1)))"

definition os_read_file :: "string \<Rightarrow> string oscall" where
  "os_read_file n w = (case fault w of (ft, w1) \<Rightarrow>
     case ft of Some (e, _) \<Rightarrow> (Inl e, w1)
     | None \<Rightarrow> (case fget w1 n of None \<Rightarrow> (Inl ENOENT, w1)
        | Some f \<Rightarrow> if f_isdir f then (Inl EISDIR, w1) else (Inr (f_bytes f), w1)))"

text \<open>\<open>os.WriteFile\<close> and \<open>os.OpenFile\<close> with \<open>O_CREATE\<close>: an existing file keeps its mode and owner.\<close>

definition new_file :: "32 word \<Rightarrow> ofile" where
  "new_file m = \<lparr>f_bytes = [], f_bits = m, f_uid = 0, f_gid = 0, f_isdir = False\<rparr>"

definition os_write_file :: "string \<Rightarrow> string \<Rightarrow> 32 word \<Rightarrow> unit oscall" where
  "os_write_file n b m w = (case fault w of (ft, w1) \<Rightarrow>
     let old = (case fget w1 n of None \<Rightarrow> new_file m | Some f \<Rightarrow> f) in
     if f_isdir old then (Inl EISDIR, w1)
     else if od_self w1 = None then (Inl ENOENT, w1)
     else case ft of
       Some (e, j) \<Rightarrow> (Inl e, if j = 0 then w1 else fput n (old\<lparr>f_bytes := take (j - 1) b\<rparr>) w1)
     | None \<Rightarrow> (Inr (), fput n (old\<lparr>f_bytes := b\<rparr>) w1))"

definition os_open_create :: "string \<Rightarrow> 32 word \<Rightarrow> unit oscall" where
  "os_open_create n m w = (case fault w of (ft, w1) \<Rightarrow>
     case ft of Some (e, _) \<Rightarrow> (Inl e, w1)
     | None \<Rightarrow> if od_self w1 = None then (Inl ENOENT, w1)
        else (case fget w1 n of
                None \<Rightarrow> (Inr (), fput n (new_file m) w1)
              | Some f \<Rightarrow> if f_isdir f then (Inl EISDIR, w1) else (Inr (), w1)))"

definition os_flock :: "unit oscall" where
  "os_flock w = (case fault w of (ft, w1) \<Rightarrow> case ft of Some (e, _) \<Rightarrow> (Inl e, w1) | None \<Rightarrow> (Inr (), w1))"

definition os_chmod :: "string \<Rightarrow> 32 word \<Rightarrow> unit oscall" where
  "os_chmod n m w = (case fault w of (ft, w1) \<Rightarrow>
     case ft of Some (e, _) \<Rightarrow> (Inl e, w1)
     | None \<Rightarrow> (case fget w1 n of None \<Rightarrow> (Inl ENOENT, w1) | Some f \<Rightarrow> (Inr (), fput n (f\<lparr>f_bits := m\<rparr>) w1)))"

definition os_chown :: "string \<Rightarrow> int \<Rightarrow> int \<Rightarrow> unit oscall" where
  "os_chown n u g w = (case fault w of (ft, w1) \<Rightarrow>
     case ft of Some (e, _) \<Rightarrow> (Inl e, w1)
     | None \<Rightarrow> (case fget w1 n of None \<Rightarrow> (Inl ENOENT, w1)
        | Some f \<Rightarrow> (Inr (), fput n (f\<lparr>f_uid := (if u < 0 then f_uid f else u),
                                       f_gid := (if g < 0 then f_gid f else g)\<rparr>) w1)))"

definition os_rename :: "string \<Rightarrow> string \<Rightarrow> unit oscall" where
  "os_rename n n' w = (case fault w of (ft, w1) \<Rightarrow>
     case ft of Some (e, _) \<Rightarrow> (Inl e, w1)
     | None \<Rightarrow> (case fget w1 n of None \<Rightarrow> (Inl ENOENT, w1)
        | Some f \<Rightarrow>
            if n = n' then (Inr (), w1)
            else if (case fget w1 n' of None \<Rightarrow> False | Some f' \<Rightarrow> f_isdir f') then (Inl EISDIR, w1)
            else (Inr (), fput n' f (fdel n w1))))"

definition os_remove :: "string \<Rightarrow> unit oscall" where
  "os_remove n w = (case fault w of (ft, w1) \<Rightarrow>
     case ft of Some (e, _) \<Rightarrow> (Inl e, w1)
     | None \<Rightarrow> (case fget w1 n of None \<Rightarrow> (Inl ENOENT, w1) | Some f \<Rightarrow> (Inr (), fdel n w1)))"

text \<open>\<open>os.ReadDir\<close>: the entries sorted by name.\<close>

definition os_read_dir :: "(string \<times> bool) list oscall" where
  "os_read_dir w = (case fault w of (ft, w1) \<Rightarrow>
     case ft of Some (e, _) \<Rightarrow> (Inl e, w1)
     | None \<Rightarrow> if od_self w1 = None then (Inl ENOENT, w1)
        else (Inr (map (\<lambda>n. (n, case fget w1 n of None \<Rightarrow> False | Some f \<Rightarrow> f_isdir f))
                     (sort (remdups (map fst (od_files w1))))), w1))"

section \<open>What the calls do to the bytes\<close>

lemma fault_view:
  "fault w = (ft, w1) \<Longrightarrow> bytes w1 = bytes w \<and> fget w1 = fget w \<and> od_self w1 = od_self w \<and>
    (\<forall>j. ft \<noteq> Some (ENOENT, j))"
  by (cases "od_faults w") (auto simp: fault_def bytes_def fget_def fun_eq_iff split: if_splits)

lemma bytes_fget: "fget w n = Some f \<Longrightarrow> bytes w n = (if f_isdir f then None else Some (f_bytes f))"
  by (simp add: bytes_def)

lemma bytes_missing: "fget w n = None \<Longrightarrow> bytes w n = None"
  by (simp add: bytes_def)

lemma os_keep:
  "os_stat_dir w = (r, w') \<Longrightarrow> bytes w' = bytes w"
  "os_mkdir_all m w = (ru, w') \<Longrightarrow> bytes w' = bytes w"
  "os_chmod_dir m w = (ru, w') \<Longrightarrow> bytes w' = bytes w"
  "os_lstat n w = (r, w') \<Longrightarrow> bytes w' = bytes w"
  "os_read_file n w = (rs, w') \<Longrightarrow> bytes w' = bytes w"
  "os_flock w = (ru, w') \<Longrightarrow> bytes w' = bytes w"
  "os_chmod n m w = (ru, w') \<Longrightarrow> bytes w' = bytes w"
  "os_chown n u g w = (ru, w') \<Longrightarrow> bytes w' = bytes w"
  "os_read_dir w = (rd, w') \<Longrightarrow> bytes w' = bytes w"
  by (auto simp: os_stat_dir_def os_mkdir_all_def os_chmod_dir_def os_lstat_def os_read_file_def os_flock_def
      os_chmod_def os_chown_def os_read_dir_def fun_eq_iff bytes_fget dest!: fault_view split: prod.splits option.splits if_splits)

lemma os_read_file_Inr: "os_read_file n w = (Inr b, w') \<Longrightarrow> bytes w n = Some b"
  by (auto simp: os_read_file_def bytes_fget bytes_missing dest!: fault_view split: prod.splits option.splits if_splits)

lemma os_read_file_ENOENT: "os_read_file n w = (Inl ENOENT, w') \<Longrightarrow> bytes w n = None"
  by (auto simp: os_read_file_def bytes_fget bytes_missing dest!: fault_view split: prod.splits option.splits if_splits)

lemma os_write_file_bytes:
  "os_write_file n b m w = (r, w') \<Longrightarrow>
     (\<forall>x. x \<noteq> n \<longrightarrow> bytes w' x = bytes w x) \<and> (r = Inr () \<longrightarrow> bytes w' n = Some b)"
  by (auto simp: os_write_file_def Let_def bytes_fget bytes_missing new_file_def dest!: fault_view split: prod.splits option.splits if_splits)

lemma os_open_create_bytes:
  "os_open_create n m w = (r, w') \<Longrightarrow> (\<forall>x. x \<noteq> n \<longrightarrow> bytes w' x = bytes w x)"
  by (auto simp: os_open_create_def bytes_fget bytes_missing dest!: fault_view split: prod.splits option.splits if_splits)

lemma os_remove_bytes:
  "os_remove n w = (r, w') \<Longrightarrow>
     (\<forall>x. x \<noteq> n \<longrightarrow> bytes w' x = bytes w x) \<and> (bytes w' n = bytes w n \<or> bytes w' n = None) \<and>
     (r = Inr () \<or> r = Inl ENOENT \<longrightarrow> bytes w' n = None)"
  by (auto simp: os_remove_def bytes_fget bytes_missing dest!: fault_view split: prod.splits option.splits if_splits)

lemma os_rename_bytes:
  "n \<noteq> n' \<Longrightarrow> os_rename n n' w = (r, w') \<Longrightarrow>
     (case r of Inl _ \<Rightarrow> bytes w' = bytes w
      | Inr _ \<Rightarrow> bytes w' = (bytes w)(n := None, n' := bytes w n))"
  by (auto simp: os_rename_def fun_eq_iff bytes_fget bytes_missing dest!: fault_view split: prod.splits option.splits if_splits)

lemma os_read_file_ok: "od_faults w = [] \<Longrightarrow> bytes w n = Some b \<Longrightarrow> os_read_file n w = (Inr b, w)"
  by (auto simp: os_read_file_def fault_def bytes_def split: option.splits if_splits)

lemma os_remove_ok: "od_faults w = [] \<Longrightarrow> bytes w n = Some b \<Longrightarrow> os_remove n w = (Inr (), fdel n w)"
  by (auto simp: os_remove_def fault_def bytes_def split: option.splits)

lemma os_read_dir_names:
  assumes "os_read_dir w = (Inr es, w')" "bytes w n = Some b"
  shows "n \<in> set (map fst es)"
proof -
  obtain ft w1 where f: "fault w = (ft, w1)" by force
  note v = fault_view [OF f]
  from assms(1) f have es: "set (map fst es) = set (map fst (od_files w1))"
    by (auto simp: os_read_dir_def image_image split: option.splits if_splits) force
  have "bytes w1 n = Some b" using v assms(2) by simp
  then have "map_of (od_files w1) n \<noteq> None" by (auto simp: bytes_def fget_def split: option.splits)
  then show ?thesis unfolding es by (auto simp: map_of_eq_None_iff)
qed

end
