(* ===== verification/Osutil.thy ===== *)
theory Osutil
  imports Go_Os Jail
begin

text \<open>
  Package \<open>internal/osutil\<close>: the lexical confinement check, the conversion of Go file modes to
  Unix bits, and the changes of mode and owner that do nothing when nothing would change.
  The descriptor-based functions run on the kernel of \<open>Kernel_Api\<close>, the path-based ones on
  the directory of \<open>Go_Os\<close>; their log lines are not modelled.
\<close>

section \<open>Paths and modes\<close>

definition Confine :: "string \<Rightarrow> string \<Rightarrow> string option" where
  "Confine root path =
     (let root = path_clean root; path = path_clean path
      in if path \<noteq> root \<and> \<not> has_prefix path (root @ ''/'') then None else Some path)"

text \<open>Go file mode bits: \<open>ModeSetuid\<close>, \<open>ModeSetgid\<close> and \<open>ModeSticky\<close> are high bits.\<close>

definition ModeSetuid :: "32 word" where "ModeSetuid = 0x800000"
definition ModeSetgid :: "32 word" where "ModeSetgid = 0x400000"
definition ModeSticky :: "32 word" where "ModeSticky = 0x100000"

definition UnixBits :: "32 word \<Rightarrow> 32 word" where
  "UnixBits m =
     or (and m 0x1FF)
       (or (if and m ModeSetuid \<noteq> 0 then 0x800 else 0)
         (or (if and m ModeSetgid \<noteq> 0 then 0x400 else 0)
             (if and m ModeSticky \<noteq> 0 then 0x200 else 0)))"

section \<open>Changes through a descriptor\<close>

definition Fchmod :: "'w kernel \<Rightarrow> int \<Rightarrow> 32 word \<Rightarrow> ('w, unit) call" where
  "Fchmod k fd mode w =
     (case k_fstat k fd w of (sr, w1) \<Rightarrow>
      case sr of
        Inl e \<Rightarrow> (Inl e, w1)
      | Inr st \<Rightarrow> if st_bits st = UnixBits mode then (Inr (), w1) else k_fchmod k fd (UnixBits mode) w1)"

definition new_id :: "int \<Rightarrow> int \<Rightarrow> int" where
  "new_id old want = (if want \<ge> 0 then want else old)"

definition Fchown :: "'w kernel \<Rightarrow> int \<Rightarrow> int \<Rightarrow> int \<Rightarrow> ('w, unit) call" where
  "Fchown k fd uid gid w =
     (case k_fstat k fd w of (sr, w1) \<Rightarrow>
      case sr of
        Inl e \<Rightarrow> (Inl e, w1)
      | Inr st \<Rightarrow>
          if new_id (st_uid st) uid = st_uid st \<and> new_id (st_gid st) gid = st_gid st then (Inr (), w1)
          else k_fchown k fd uid gid w1)"

text \<open>
  \<open>MkdirOwner\<close>; \<open>OsNotExist\<close> is the refusal of a name outside the parent, \<open>ChownErr\<close> the wrapped
  \<open>ChownError\<close>. The deferred closes come last, the child first.
\<close>

datatype mkdir_error = OsNotExist | MkSys errno | ChownErr string errno

definition mkdir_child ::
  "'w kernel \<Rightarrow> string \<Rightarrow> int \<Rightarrow> int \<Rightarrow> int \<Rightarrow> 'w \<Rightarrow> (mkdir_error + unit) \<times> 'w" where
  "mkdir_child k dir child uid gid w =
     (case (if uid \<ge> 0 then Fchown k child uid gid w else (Inr (), w)) of (cr, w1) \<Rightarrow>
      case Fchmod k child (or ModeSetgid 0x1F8) w1 of (mr, w2) \<Rightarrow>
      case mr of
        Inl e \<Rightarrow> (Inl (MkSys e), w2)
      | Inr _ \<Rightarrow> (case cr of Inl e \<Rightarrow> (Inl (ChownErr dir e), w2) | Inr _ \<Rightarrow> (Inr (), w2)))"

definition MkdirOwner ::
  "'w kernel \<Rightarrow> string \<Rightarrow> string \<Rightarrow> int \<Rightarrow> int \<Rightarrow> 'w \<Rightarrow> (mkdir_error + unit) \<times> 'w" where
  "MkdirOwner k parent name uid gid w =
     (let dir = path_join [parent, name] in
      if Confine parent dir = None then (Inl OsNotExist, w)
      else (case k_open k parent (o_rdonly\<lparr>of_directory := True, of_cloexec := True\<rparr>) w of (por, w1) \<Rightarrow>
       case por of
         Inl e \<Rightarrow> (Inl (MkSys e), w1)
       | Inr fd \<Rightarrow>
           (case k_mkdirat k fd name 0x1F8 w1 of (mk, w2) \<Rightarrow>
            if (case mk of Inl e \<Rightarrow> e \<noteq> EEXIST | Inr _ \<Rightarrow> False)
            then (case k_close k fd w2 of (_, w3) \<Rightarrow>
                  (Inl (MkSys (case mk of Inl e \<Rightarrow> e | Inr _ \<Rightarrow> EEXIST)), w3))
            else (case k_openat k fd name
                    (o_rdonly\<lparr>of_directory := True, of_nofollow := True, of_cloexec := True\<rparr>) 0 w2 of (cor, w3) \<Rightarrow>
             case cor of
               Inl e \<Rightarrow> (case k_close k fd w3 of (_, w4) \<Rightarrow> (Inl (MkSys e), w4))
             | Inr child \<Rightarrow>
                 (case mkdir_child k dir child uid gid w3 of (res, w4) \<Rightarrow>
                  case k_close k child w4 of (_, w5) \<Rightarrow>
                  case k_close k fd w5 of (_, w6) \<Rightarrow> (res, w6))))))"

section \<open>Changes through a path\<close>

definition Chmod :: "string \<Rightarrow> 32 word \<Rightarrow> unit oscall" where
  "Chmod n mode w =
     (case os_lstat n w of (sr, w1) \<Rightarrow>
      case sr of
        Inl e \<Rightarrow> (Inl e, w1)
      | Inr st \<Rightarrow> if f_bits st = UnixBits mode then (Inr (), w1) else os_chmod n (UnixBits mode) w1)"

definition Chown :: "string \<Rightarrow> int \<Rightarrow> int \<Rightarrow> unit oscall" where
  "Chown n uid gid w =
     (case os_lstat n w of (sr, w1) \<Rightarrow>
      case sr of
        Inl e \<Rightarrow> (Inl e, w1)
      | Inr st \<Rightarrow>
          if new_id (f_uid st) uid = f_uid st \<and> new_id (f_gid st) gid = f_gid st then (Inr (), w1)
          else os_chown n uid gid w1)"

section \<open>Lemmas\<close>

lemma osutil_keep:
  "Chmod n m w = (r, w') \<Longrightarrow> bytes w' = bytes w"
  "Chown n u g w = (r, w') \<Longrightarrow> bytes w' = bytes w"
  by (auto simp: Chmod_def Chown_def split: prod.splits sum.splits if_splits dest!: os_keep)

lemma has_prefix_norm:
  assumes "path_norm path = (r, ps)" "path_norm root = (r, qs)" "qs \<noteq> []"
  shows "path_clean path = path_clean root \<or> has_prefix (path_clean path) (path_clean root @ ''/'') \<Longrightarrow>
     \<exists>ns. ps = qs @ ns"
proof -
  have qn: "norm_parts r qs" using path_norm_norm [of root] assms(2) by simp
  have ns: "\<forall>p \<in> set qs. slash \<notin> set p" using norm_parts_no_slash [OF qn] by blast
  assume "path_clean path = path_clean root \<or> has_prefix (path_clean path) (path_clean root @ ''/'')"
  then show ?thesis
  proof
    assume "path_clean path = path_clean root"
    then show ?thesis using assms by (simp add: path_clean_norm_eq)
  next
    assume "has_prefix (path_clean path) (path_clean root @ ''/'')"
    then obtain t where t: "path_clean path = path_clean root @ slash # t" by (auto simp: has_prefix_iff)
    have nd: "dot \<noteq> xs @ slash # t" for xs
      by (auto simp: Cons_eq_append_conv)
    have "path_render (r, ps) = path_render (r, qs) @ slash # t"
      using t assms by (simp add: path_clean_def)
    then have "join_sep ''/'' ps = join_sep ''/'' qs @ slash # t"
      using assms(3) nd by (auto split: if_splits simp: join_sep_eq_Nil)
    moreover have "norm_parts r ps" using path_norm_norm [of path] assms(1) by simp
    moreover have "ps \<noteq> []" using calculation(1) by auto
    ultimately have "ps = split_sep slash (join_sep ''/'' qs @ slash # t)"
      using split_join [of ps slash] norm_parts_no_slash by metis
    also have "\<dots> = qs @ split_sep slash t"
      using split_sep_join_append [OF assms(3)] ns by simp
    finally show ?thesis by blast
  qed
qed

lemma join_sep_app: "ps \<noteq> [] \<Longrightarrow> qs \<noteq> [] \<Longrightarrow> join_sep sep (ps @ qs) = join_sep sep ps @ sep @ join_sep sep qs"
proof (induction ps)
  case (Cons p ps)
  then show ?case by (cases ps; cases qs) auto
qed simp

lemma Confine_rooted:
  assumes "path_norm root = (True, qs)" "qs \<noteq> []"
  shows "Confine root path = Some p \<longleftrightarrow>
    p = path_clean path \<and> (\<exists>ns. list_all plain_name ns \<and> path_norm path = (True, qs @ ns))"
proof
  assume c: "Confine root path = Some p"
  then have p: "p = path_clean path"
    and d: "path_clean path = path_clean root \<or> has_prefix (path_clean path) (path_clean root @ ''/'')"
    by (auto simp: Confine_def Let_def split: if_splits)
  have cr: "path_clean root = ''/'' @ join_sep ''/'' qs" using assms by (simp add: path_clean_def)
  obtain r ps where n: "path_norm path = (r, ps)" by force
  have "has_prefix (path_clean path) ''/''"
    using d by (auto simp: cr has_prefix_iff)
  then have "fst (path_norm (path_clean path))" by (auto simp: path_norm_def Let_def)
  then have r: "path_norm path = (True, ps)" using n by simp
  then obtain ns where ps: "ps = qs @ ns" using has_prefix_norm [OF _ assms] d by blast
  have "norm_parts True ps" using path_norm_norm [of path] r by simp
  then have "list_all plain_name ps" by (auto simp: norm_parts_def)
  then show "p = path_clean path \<and> (\<exists>ns. list_all plain_name ns \<and> path_norm path = (True, qs @ ns))"
    using p r ps by auto
next
  assume "p = path_clean path \<and> (\<exists>ns. list_all plain_name ns \<and> path_norm path = (True, qs @ ns))"
  then obtain ns where "p = path_clean path" "path_norm path = (True, qs @ ns)" by blast
  then show "Confine root path = Some p"
    using assms join_sep_app [of qs ns]
    by (cases "ns = []") (auto simp: Confine_def Let_def path_clean_def has_prefix_iff)
qed

lemma UnixBits_mask: "and (UnixBits m) 0xFFF = UnixBits m"
  by (simp add: UnixBits_def bit.conj_disj_distrib2 and.assoc)

context fd_kernel
begin

lemma Fchmod_fds: "triple (\<lambda>w. fds w = F) (Fchmod k d m) (\<lambda>_ w. fds w = F)"
  unfolding Fchmod_def
  by (intro triple_bind [OF keep_triples(3)] triple_intros triple_return keep_triples(7))

lemma Fchown_fds: "triple (\<lambda>w. fds w = F) (Fchown k d u g) (\<lambda>_ w. fds w = F)"
  unfolding Fchown_def
  by (intro triple_bind [OF keep_triples(3)] triple_intros triple_return keep_triples(8))

lemma mkdir_child_fds: "triple (\<lambda>w. fds w = F) (mkdir_child k dir d u g) (\<lambda>_ w. fds w = F)"
  unfolding mkdir_child_def
  by (intro triple_bind [where Q = "\<lambda>_ w. fds w = F"] triple_if triple_sum triple_return Fchown_fds Fchmod_fds)

lemma MkdirOwner_fds: "triple (\<lambda>w. fds w = F) (MkdirOwner k parent name u g) (\<lambda>_ w. fds w = F)"
  unfolding MkdirOwner_def Let_def
  by (intro triple_if triple_return triple_bind [OF open_triple] triple_sum)
     (auto intro!: triple_pure triple_return triple_bind [OF keep_triples(4)] triple_if triple_sum
        triple_bind [OF close_top] triple_bind [OF openat_triple] triple_bind [OF mkdir_child_fds])

end

end
