(* ===== verification/Session_Store.thy ===== *)
theory Session_Store
  imports Osutil
begin

text \<open>
  Package \<open>internal/store\<close>: sessions, OIDC-to-PAM links and pinned subjects, one JSON file
  each under the state directory. The \<open>Store\<close> is the directory of \<open>Go_Os\<close>; file names are
  relative to it. \<open>withLock\<close> (a mutex and an exclusive \<open>flock\<close>) makes each operation one step,
  so an operation is a function from directory to result and directory.

  Parameters: \<open>encoding/json\<close> is a record of encoders and decoders with the laws of
  \<open>json_codec\<close>; \<open>time.Now\<close> is an argument in nanoseconds; the bytes of \<open>crypto/rand\<close> are an
  argument, \<open>None\<close> for a failed read.
\<close>

section \<open>Data\<close>

record session =
  s_ID :: string
  s_Iss :: string
  s_Sub :: string
  s_PAMUser :: string
  s_Email :: string
  s_Expires :: int

record link =
  l_Issuer :: string
  l_Subject :: string
  l_PAMUser :: string

record subject =
  u_Email :: string
  u_Issuer :: string
  u_Subject :: string

datatype store_error =
  ErrNotExist | ErrOsInvalid | OsErr errno | JSONErr | RandErr | ErrSubjectMismatch

record codec =
  enc_session :: "session \<Rightarrow> string option"
  dec_session :: "string \<Rightarrow> session option"
  enc_links :: "link list \<Rightarrow> string option"
  dec_links :: "string \<Rightarrow> link list option"
  enc_subjects :: "subject list \<Rightarrow> string option"
  dec_subjects :: "string \<Rightarrow> subject list option"

type_synonym 'a st = "osdir \<Rightarrow> (store_error + 'a) \<times> osdir"

section \<open>Files\<close>

definition linksPath :: string where "linksPath = ''links.json''"
definition subjectsPath :: string where "subjectsPath = ''subjects.json''"
definition lockPath :: string where "lockPath = ''.lock''"
definition keyPath :: string where "keyPath = ''crypto.key''"

definition safeID :: "string \<Rightarrow> bool" where
  "safeID s \<longleftrightarrow> length s \<noteq> 0 \<and> length s \<le> 128 \<and>
     list_all (\<lambda>r. in_range 0x30 0x39 r \<or> in_range 0x61 0x66 r \<or> in_range 0x41 0x46 r) (runes s)"

definition sess_name :: "string \<Rightarrow> string" where
  "sess_name s = ''sessions-'' @ s @ ''.json''"

definition sessionPath :: "string \<Rightarrow> string option" where
  "sessionPath s = (if \<not> safeID s \<or> \<not> is_local s then None else Some (sess_name s))"

definition chownToState :: "string \<Rightarrow> unit oscall" where
  "chownToState n w =
     (case os_stat_dir w of (sr, w1) \<Rightarrow>
      case sr of Inl e \<Rightarrow> (Inl e, w1) | Inr d \<Rightarrow> Osutil.Chown n (f_uid d) (f_gid d) w1)"

definition os_fail :: "string \<Rightarrow> errno \<Rightarrow> unit st" where
  "os_fail tmp e w = (case os_remove tmp w of (_, w1) \<Rightarrow> (Inl (OsErr e), w1))"

definition writeStateFile :: "string \<Rightarrow> string \<Rightarrow> unit st" where
  "writeStateFile n b w =
     (let tmp = n @ ''.tmp'' in
      case os_write_file tmp b 0x180 w of (r1, w1) \<Rightarrow>
      case r1 of
        Inl e \<Rightarrow> (Inl (OsErr e), w1)
      | Inr _ \<Rightarrow>
          (case Osutil.Chmod tmp 0x180 w1 of (r2, w2) \<Rightarrow>
           case r2 of
             Inl e \<Rightarrow> os_fail tmp e w2
           | Inr _ \<Rightarrow>
               (case chownToState tmp w2 of (r3, w3) \<Rightarrow>
                case r3 of
                  Inl e \<Rightarrow> os_fail tmp e w3
                | Inr _ \<Rightarrow>
                    (case os_rename tmp n w3 of (r4, w4) \<Rightarrow>
                     case r4 of Inl e \<Rightarrow> os_fail tmp e w4 | Inr _ \<Rightarrow> (Inr (), w4)))))"

definition readJSON :: "(string \<Rightarrow> 'a option) \<Rightarrow> 'a \<Rightarrow> string \<Rightarrow> 'a st" where
  "readJSON dec v0 n w =
     (case os_read_file n w of (r, w1) \<Rightarrow>
      case r of
        Inl e \<Rightarrow> (if e = ENOENT then Inr v0 else Inl (OsErr e), w1)
      | Inr b \<Rightarrow> (case dec b of None \<Rightarrow> (Inl JSONErr, w1) | Some v \<Rightarrow> (Inr v, w1)))"

definition writeJSON :: "('a \<Rightarrow> string option) \<Rightarrow> string \<Rightarrow> 'a \<Rightarrow> unit st" where
  "writeJSON enc n v w =
     (case enc v of None \<Rightarrow> (Inl JSONErr, w) | Some b \<Rightarrow> writeStateFile n b w)"

definition readLinks :: "codec \<Rightarrow> link list st" where
  "readLinks c = readJSON (dec_links c) [] linksPath"

definition writeLinks :: "codec \<Rightarrow> link list \<Rightarrow> unit st" where
  "writeLinks c = writeJSON (enc_links c) linksPath"

definition readSubjects :: "codec \<Rightarrow> subject list st" where
  "readSubjects c = readJSON (dec_subjects c) [] subjectsPath"

definition writeSubjects :: "codec \<Rightarrow> subject list \<Rightarrow> unit st" where
  "writeSubjects c = writeJSON (enc_subjects c) subjectsPath"

section \<open>Opening, locking, the key\<close>

fun reclaim_loop :: "int \<Rightarrow> int \<Rightarrow> (string \<times> bool) list \<Rightarrow> osdir \<Rightarrow> osdir" where
  "reclaim_loop uid gid [] w = w"
| "reclaim_loop uid gid ((n, isdir) # es) w =
     reclaim_loop uid gid es (if isdir then w else snd (Osutil.Chown n uid gid w))"

definition reclaimState :: "osdir \<Rightarrow> osdir" where
  "reclaimState w =
     (case os_stat_dir w of (sr, w1) \<Rightarrow>
      case sr of
        Inl _ \<Rightarrow> w1
      | Inr d \<Rightarrow>
          (case os_read_dir w1 of (er, w2) \<Rightarrow>
           case er of Inl _ \<Rightarrow> w2 | Inr es \<Rightarrow> reclaim_loop (f_uid d) (f_gid d) es w2))"

text \<open>\<open>Open\<close>: \<open>osutil.Chmod\<close> of the directory itself is a stat and, when the bits differ, a chmod.\<close>

definition OpenStore :: "unit st" where
  "OpenStore w =
     (case os_mkdir_all 0x1C0 w of (r1, w1) \<Rightarrow>
      case r1 of
        Inl e \<Rightarrow> (Inl (OsErr e), w1)
      | Inr _ \<Rightarrow>
          (case os_stat_dir w1 of (r2, w2) \<Rightarrow>
           case r2 of
             Inl e \<Rightarrow> (Inl (OsErr e), w2)
           | Inr d \<Rightarrow>
               (case (if f_bits d = UnixBits 0x1C0 then (Inr (), w2) else os_chmod_dir (UnixBits 0x1C0) w2) of (r3, w3) \<Rightarrow>
                case r3 of Inl e \<Rightarrow> (Inl (OsErr e), w3) | Inr _ \<Rightarrow> (Inr (), reclaimState w3))))"

text \<open>\<open>failed e\<close> is what the operation returns when the lock cannot be taken.\<close>

definition withLock :: "(store_error \<Rightarrow> 'b) \<Rightarrow> (osdir \<Rightarrow> 'b \<times> osdir) \<Rightarrow> osdir \<Rightarrow> 'b \<times> osdir" where
  "withLock failed fn w =
     (case os_open_create lockPath 0x180 w of (r1, w1) \<Rightarrow>
      case r1 of
        Inl e \<Rightarrow> (failed (OsErr e), w1)
      | Inr _ \<Rightarrow>
          (case os_flock w1 of (r2, w2) \<Rightarrow>
           case r2 of
             Inl e \<Rightarrow> (failed (OsErr e), w2)
           | Inr _ \<Rightarrow>
               (case Osutil.Chmod lockPath 0x180 w2 of (_, w3) \<Rightarrow>
                case chownToState lockPath w3 of (_, w4) \<Rightarrow> fn w4)))"

definition EnsureCryptoKey :: "string \<Rightarrow> string option \<Rightarrow> string st" where
  "EnsureCryptoKey existing rnd w =
     (if length existing \<ge> 32 then (Inr existing, w)
      else withLock Inl (\<lambda>w1.
        case os_read_file keyPath w1 of (r, w2) \<Rightarrow>
        if (case r of Inl _ \<Rightarrow> False | Inr b \<Rightarrow> length b \<ge> 32) then (map_sum OsErr id r, w2)
        else (case rnd of
                None \<Rightarrow> (Inl RandErr, w2)
              | Some b \<Rightarrow>
                  (case writeStateFile keyPath b w2 of (wr, w3) \<Rightarrow>
                   case wr of Inl e \<Rightarrow> (Inl e, w3) | Inr _ \<Rightarrow> (Inr b, w3)))) w)"

section \<open>Sessions\<close>

definition randomID :: "string option \<Rightarrow> string option" where
  "randomID rnd = map_option hex_encode rnd"

definition saveSession :: "codec \<Rightarrow> session \<Rightarrow> unit st" where
  "saveSession c s w =
     (case sessionPath (s_ID s) of
        None \<Rightarrow> (Inl ErrOsInvalid, w)
      | Some path \<Rightarrow>
          (case enc_session c s of None \<Rightarrow> (Inl JSONErr, w) | Some b \<Rightarrow> writeStateFile path b w))"

definition lookup_links :: "link list \<Rightarrow> string \<Rightarrow> string \<Rightarrow> string option" where
  "lookup_links ls iss sub =
     map_option l_PAMUser (find (\<lambda>l. l_Issuer l = iss \<and> l_Subject l = sub) ls)"

definition lookupLinkLocked :: "codec \<Rightarrow> string \<Rightarrow> string \<Rightarrow> string option st" where
  "lookupLinkLocked c iss sub w =
     (case readLinks c w of (r, w1) \<Rightarrow> (map_sum id (\<lambda>ls. lookup_links ls iss sub) r, w1))"

text \<open>\<open>putSession\<close>; \<open>prep\<close> is the code that runs under the lock before the file is written.\<close>

definition putSession ::
  "codec \<Rightarrow> session \<Rightarrow> int \<Rightarrow> (session \<Rightarrow> session st) \<Rightarrow> string option \<Rightarrow> int \<Rightarrow> session st" where
  "putSession c s ttl prep rnd now w =
     (case randomID rnd of
        None \<Rightarrow> (Inl RandErr, w)
      | Some newid \<Rightarrow>
          withLock Inl (\<lambda>w1.
            case prep (s\<lparr>s_ID := newid, s_Expires := now + ttl\<rparr>) w1 of (pr, w2) \<Rightarrow>
            case pr of
              Inl e \<Rightarrow> (Inl e, w2)
            | Inr s' \<Rightarrow> (case saveSession c s' w2 of (sr, w3) \<Rightarrow>
                case sr of Inl e \<Rightarrow> (Inl e, w3) | Inr _ \<Rightarrow> (Inr s', w3))) w)"

definition empty_session :: session where
  "empty_session = \<lparr>s_ID = [], s_Iss = [], s_Sub = [], s_PAMUser = [], s_Email = [], s_Expires = 0\<rparr>"

definition CreateSession ::
  "codec \<Rightarrow> string \<Rightarrow> string \<Rightarrow> string \<Rightarrow> int \<Rightarrow> string option \<Rightarrow> int \<Rightarrow> session st" where
  "CreateSession c iss sub email ttl rnd now =
     putSession c (empty_session\<lparr>s_Iss := iss, s_Sub := sub, s_Email := email\<rparr>) ttl
       (\<lambda>s w. case lookupLinkLocked c iss sub w of (r, w1) \<Rightarrow>
          case r of
            Inl e \<Rightarrow> (Inl e, w1)
          | Inr pam \<Rightarrow> (Inr (case pam of None \<Rightarrow> s | Some p \<Rightarrow> s\<lparr>s_PAMUser := p\<rparr>), w1))
       rnd now"

definition CreatePAMSession :: "codec \<Rightarrow> string \<Rightarrow> int \<Rightarrow> string option \<Rightarrow> int \<Rightarrow> session st" where
  "CreatePAMSession c pamUser ttl rnd now w =
     (if pamUser = [] then (Inl ErrOsInvalid, w)
      else putSession c (empty_session\<lparr>s_PAMUser := pamUser\<rparr>) ttl (\<lambda>s w. (Inr s, w)) rnd now w)"

definition GetSession :: "codec \<Rightarrow> string \<Rightarrow> int \<Rightarrow> session st" where
  "GetSession c i now w =
     (case sessionPath i of
        None \<Rightarrow> (Inl ErrNotExist, w)
      | Some path \<Rightarrow>
          (case os_read_file path w of (r, w1) \<Rightarrow>
           case r of
             Inl e \<Rightarrow> (Inl (OsErr e), w1)
           | Inr b \<Rightarrow>
               (case dec_session c b of
                  None \<Rightarrow> (Inl JSONErr, w1)
                | Some s \<Rightarrow>
                    if now > s_Expires s then (case os_remove path w1 of (_, w2) \<Rightarrow> (Inl ErrNotExist, w2))
                    else (Inr s, w1))))"

definition SaveSession :: "codec \<Rightarrow> session option \<Rightarrow> unit st" where
  "SaveSession c s = withLock Inl (\<lambda>w. case s of None \<Rightarrow> (Inl ErrOsInvalid, w) | Some s' \<Rightarrow> saveSession c s' w)"

text \<open>\<open>os.Remove\<close> with a missing file taken as success.\<close>

definition remove_quiet :: "string \<Rightarrow> unit st" where
  "remove_quiet n w =
     (case os_remove n w of (r, w1) \<Rightarrow>
      case r of Inl e \<Rightarrow> (if e = ENOENT then Inr () else Inl (OsErr e), w1) | Inr _ \<Rightarrow> (Inr (), w1))"

definition DeleteSession :: "string \<Rightarrow> unit st" where
  "DeleteSession i w =
     (case sessionPath i of None \<Rightarrow> (Inl ErrNotExist, w) | Some path \<Rightarrow> remove_quiet path w)"

section \<open>Links\<close>

definition LookupLink :: "codec \<Rightarrow> string \<Rightarrow> string \<Rightarrow> string option st" where
  "LookupLink c iss sub = withLock Inl (lookupLinkLocked c iss sub)"

definition ListLinks :: "codec \<Rightarrow> link list st" where
  "ListLinks c = withLock Inl (\<lambda>w. case readLinks c w of (r, w1) \<Rightarrow>
     (map_sum id (filter (\<lambda>l. l_PAMUser l \<noteq> [])) r, w1))"

fun distinct_users :: "string list \<Rightarrow> link list \<Rightarrow> string list" where
  "distinct_users seen [] = []"
| "distinct_users seen (l # ls) =
     (if l_PAMUser l = [] \<or> l_PAMUser l \<in> set seen then distinct_users seen ls
      else l_PAMUser l # distinct_users (l_PAMUser l # seen) ls)"

definition LinkedPAMUsers :: "codec \<Rightarrow> string list st" where
  "LinkedPAMUsers c = withLock Inl (\<lambda>w. case readLinks c w of (r, w1) \<Rightarrow>
     (map_sum id (distinct_users []) r, w1))"

fun set_link :: "string \<Rightarrow> string \<Rightarrow> string \<Rightarrow> link list \<Rightarrow> link list" where
  "set_link iss sub pam [] = [\<lparr>l_Issuer = iss, l_Subject = sub, l_PAMUser = pam\<rparr>]"
| "set_link iss sub pam (l # ls) =
     (if l_Issuer l = iss \<and> l_Subject l = sub then l\<lparr>l_PAMUser := pam\<rparr> # ls
      else l # set_link iss sub pam ls)"

definition setLinkLocked :: "codec \<Rightarrow> string \<Rightarrow> string \<Rightarrow> string \<Rightarrow> unit st" where
  "setLinkLocked c iss sub pam w =
     (case readLinks c w of (r, w1) \<Rightarrow>
      case r of Inl e \<Rightarrow> (Inl e, w1) | Inr ls \<Rightarrow> writeLinks c (set_link iss sub pam ls) w1)"

definition SetLink :: "codec \<Rightarrow> string \<Rightarrow> string \<Rightarrow> string \<Rightarrow> unit st" where
  "SetLink c iss sub pam = withLock Inl (setLinkLocked c iss sub pam)"

text \<open>\<open>clearMatchingSessionsLocked\<close>: the count covers the files cleared before a failure.\<close>

definition is_session_file :: "string \<Rightarrow> bool" where
  "is_session_file n \<longleftrightarrow> has_prefix n ''sessions-'' \<and> has_suffix n ''.json''"

fun clear_loop ::
  "codec \<Rightarrow> (session \<Rightarrow> bool) \<Rightarrow> string list \<Rightarrow> nat \<Rightarrow> osdir \<Rightarrow> (nat \<times> store_error option) \<times> osdir" where
  "clear_loop c match [] n w = ((n, None), w)"
| "clear_loop c match (name # names) n w =
     (if \<not> is_session_file name then clear_loop c match names n w
      else (case os_read_file name w of (r, w1) \<Rightarrow>
       case r of
         Inl e \<Rightarrow> ((n, Some (OsErr e)), w1)
       | Inr b \<Rightarrow>
           (case dec_session c b of
              None \<Rightarrow> ((n, Some JSONErr), w1)
            | Some s \<Rightarrow>
                if \<not> match s then clear_loop c match names n w1
                else (case saveSession c (s\<lparr>s_PAMUser := []\<rparr>) w1 of (sr, w2) \<Rightarrow>
                      case sr of
                        Inl e \<Rightarrow> ((n, Some e), w2)
                      | Inr _ \<Rightarrow> clear_loop c match names (Suc n) w2))))"

definition clearMatchingSessionsLocked ::
  "codec \<Rightarrow> (session \<Rightarrow> bool) \<Rightarrow> osdir \<Rightarrow> (nat \<times> store_error option) \<times> osdir" where
  "clearMatchingSessionsLocked c match w =
     (case os_read_dir w of (r, w1) \<Rightarrow>
      case r of
        Inl e \<Rightarrow> ((0, Some (OsErr e)), w1)
      | Inr es \<Rightarrow> clear_loop c match (map fst es) 0 w1)"

definition clearSessionPAMLocked ::
  "codec \<Rightarrow> string \<Rightarrow> link list \<Rightarrow> osdir \<Rightarrow> (nat \<times> store_error option) \<times> osdir" where
  "clearSessionPAMLocked c pam ls =
     clearMatchingSessionsLocked c (\<lambda>s.
       (s_PAMUser s = pam \<or> (s_Iss s, s_Sub s) \<in> set (map (\<lambda>l. (l_Issuer l, l_Subject l)) ls)) \<and> s_PAMUser s \<noteq> [])"

definition clearSubjectPAMLocked :: "codec \<Rightarrow> string \<Rightarrow> string \<Rightarrow> string \<Rightarrow> unit st" where
  "clearSubjectPAMLocked c iss sub exceptID w =
     (case clearMatchingSessionsLocked c (\<lambda>s.
         s_ID s \<noteq> exceptID \<and> s_Iss s = iss \<and> s_Sub s = sub \<and> s_PAMUser s \<noteq> []) w of (ne, w1) \<Rightarrow>
      (case snd ne of None \<Rightarrow> Inr () | Some e \<Rightarrow> Inl e, w1))"

text \<open>
  \<open>UnlinkPAM\<close> returns the removed links and the number of cleared sessions also when it
  fails part of the way.
\<close>

definition UnlinkPAM ::
  "codec \<Rightarrow> string \<Rightarrow> osdir \<Rightarrow> (link list \<times> nat \<times> store_error option) \<times> osdir" where
  "UnlinkPAM c pam w =
     (if pam = [] then (([], 0, Some ErrOsInvalid), w)
      else withLock (\<lambda>e. ([], 0, Some e)) (\<lambda>w.
        case readLinks c w of (r, w1) \<Rightarrow>
        case r of
          Inl e \<Rightarrow> (([], 0, Some e), w1)
        | Inr ls \<Rightarrow>
            (let removed = filter (\<lambda>l. l_PAMUser l = pam) ls in
             case writeLinks c (filter (\<lambda>l. l_PAMUser l \<noteq> pam) ls) w1 of (wr, w2) \<Rightarrow>
             case wr of
               Inl e \<Rightarrow> ((removed, 0, Some e), w2)
             | Inr _ \<Rightarrow> (case clearSessionPAMLocked c pam removed w2 of (ne, w3) \<Rightarrow>
                 ((removed, fst ne, snd ne), w3)))) w)"

text \<open>\<open>SaveLinkedSession\<close> changes the session of its caller, also on some failing paths.\<close>

definition saveLinkedLocked ::
  "codec \<Rightarrow> session \<Rightarrow> string \<Rightarrow> string option \<Rightarrow> osdir \<Rightarrow> ((store_error + unit) \<times> session) \<times> osdir" where
  "saveLinkedLocked c s pam rnd w =
     (case lookupLinkLocked c (s_Iss s) (s_Sub s) w of (pr, w1) \<Rightarrow>
      case pr of
        Inl e \<Rightarrow> ((Inl e, s), w1)
      | Inr prev \<Rightarrow>
          (case setLinkLocked c (s_Iss s) (s_Sub s) pam w1 of (sr, w2) \<Rightarrow>
           case sr of
             Inl e \<Rightarrow> ((Inl e, s), w2)
           | Inr _ \<Rightarrow>
               (case randomID rnd of
                  None \<Rightarrow> ((Inl RandErr, s), w2)
                | Some newid \<Rightarrow>
                    (let s' = s\<lparr>s_ID := newid, s_PAMUser := pam\<rparr> in
                     case saveSession c s' w2 of (vr, w3) \<Rightarrow>
                     case vr of
                       Inl e \<Rightarrow> ((Inl e, s'\<lparr>s_ID := s_ID s\<rparr>), w3)
                     | Inr _ \<Rightarrow>
                         (case (case sessionPath (s_ID s) of
                                  None \<Rightarrow> (Inr (), w3)
                                | Some path \<Rightarrow> if s_ID s \<noteq> newid then remove_quiet path w3 else (Inr (), w3)) of (rr, w4) \<Rightarrow>
                          case rr of
                            Inl e \<Rightarrow> ((Inl e, s'), w4)
                          | Inr _ \<Rightarrow>
                              if (case prev of None \<Rightarrow> False | Some p \<Rightarrow> p \<noteq> [] \<and> p \<noteq> pam)
                              then (case clearSubjectPAMLocked c (s_Iss s) (s_Sub s) newid w4 of (cr, w5) \<Rightarrow> ((cr, s'), w5))
                              else ((Inr (), s'), w4))))))"

definition SaveLinkedSession ::
  "codec \<Rightarrow> session \<Rightarrow> string \<Rightarrow> string option \<Rightarrow> osdir \<Rightarrow> ((store_error + unit) \<times> session) \<times> osdir" where
  "SaveLinkedSession c s pam rnd = withLock (\<lambda>e. (Inl e, s)) (saveLinkedLocked c s pam rnd)"

section \<open>Subjects\<close>

definition BindSubject :: "codec \<Rightarrow> string \<Rightarrow> string \<Rightarrow> string \<Rightarrow> unit st" where
  "BindSubject c email iss sub w =
     (if email = [] \<or> iss = [] \<or> sub = [] then (Inl ErrOsInvalid, w)
      else withLock Inl (\<lambda>w.
        case readSubjects c w of (r, w1) \<Rightarrow>
        case r of
          Inl e \<Rightarrow> (Inl e, w1)
        | Inr sf \<Rightarrow>
            (case find (\<lambda>row. u_Email row = email) sf of
               Some row \<Rightarrow> (if u_Issuer row = iss \<and> u_Subject row = sub then Inr () else Inl ErrSubjectMismatch, w1)
             | None \<Rightarrow> writeSubjects c (sf @ [\<lparr>u_Email = email, u_Issuer = iss, u_Subject = sub\<rparr>]) w1)) w)"

section \<open>The laws of the encoding\<close>

definition valid_session :: "session \<Rightarrow> bool" where
  "valid_session s \<longleftrightarrow> valid_utf8 (s_ID s) \<and> valid_utf8 (s_Iss s) \<and> valid_utf8 (s_Sub s) \<and>
     valid_utf8 (s_PAMUser s) \<and> valid_utf8 (s_Email s)"

definition valid_link :: "link \<Rightarrow> bool" where
  "valid_link l \<longleftrightarrow> valid_utf8 (l_Issuer l) \<and> valid_utf8 (l_Subject l) \<and> valid_utf8 (l_PAMUser l)"

definition valid_subject :: "subject \<Rightarrow> bool" where
  "valid_subject u \<longleftrightarrow> valid_utf8 (u_Email u) \<and> valid_utf8 (u_Issuer u) \<and> valid_utf8 (u_Subject u)"

text \<open>
  What the store relies on of \<open>encoding/json\<close>: decoding yields strings that are valid UTF-8
  (others are repaired), and gives back what was encoded when its strings are.
\<close>

locale json_codec =
  fixes c :: codec
  assumes session_rt: "enc_session c s = Some b \<Longrightarrow> valid_session s \<Longrightarrow> dec_session c b = Some s"
    and session_dec: "dec_session c b = Some s \<Longrightarrow> valid_session s"
    and links_rt: "enc_links c ls = Some b \<Longrightarrow> list_all valid_link ls \<Longrightarrow> dec_links c b = Some ls"
    and links_dec: "dec_links c b = Some ls \<Longrightarrow> list_all valid_link ls"
    and subjects_rt: "enc_subjects c us = Some b \<Longrightarrow> list_all valid_subject us \<Longrightarrow> dec_subjects c b = Some us"
    and subjects_dec: "dec_subjects c b = Some us \<Longrightarrow> list_all valid_subject us"

section \<open>Files\<close>

text \<open>\<open>w'\<close> holds the bytes of \<open>w\<close> in every file outside \<open>X\<close>.\<close>

definition agree :: "string set \<Rightarrow> osdir \<Rightarrow> osdir \<Rightarrow> bool" where
  "agree X w w' \<longleftrightarrow> (\<forall>x. x \<notin> X \<longrightarrow> bytes w' x = bytes w x)"

lemma agree_trans: "agree X w w1 \<Longrightarrow> agree Y w1 w2 \<Longrightarrow> X \<subseteq> Z \<Longrightarrow> Y \<subseteq> Z \<Longrightarrow> agree Z w w2"
  unfolding agree_def by (metis subsetD)

lemma agreeD: "agree X w w' \<Longrightarrow> x \<notin> X \<Longrightarrow> bytes w' x = bytes w x"
  by (simp add: agree_def)

lemma agree_eq: "bytes w' = bytes w \<Longrightarrow> agree X w w'"
  by (simp add: agree_def)

lemma chownToState_bytes: "chownToState n w = (r, w') \<Longrightarrow> bytes w' = bytes w"
  by (auto simp: chownToState_def split: prod.splits sum.splits dest!: os_keep osutil_keep)

lemma os_fail_bytes:
  "os_fail t e w = (r, w') \<Longrightarrow> r = Inl (OsErr e) \<and> agree {t} w w'"
  by (auto simp: os_fail_def agree_def split: prod.splits dest!: os_remove_bytes)

lemma writeStateFile_bytes:
  assumes "writeStateFile n b w = (r, w')"
  shows "agree {n, n @ ''.tmp''} w w' \<and>
    (case r of Inl _ \<Rightarrow> bytes w' n = bytes w n | Inr _ \<Rightarrow> bytes w' n = Some b)"
proof -
  define t where "t = n @ ''.tmp''"
  have t: "t \<noteq> n" by (simp add: t_def)
  obtain r1 w1 where s1: "os_write_file t b 0x180 w = (r1, w1)" by force
  obtain r2 w2 where s2: "Osutil.Chmod t 0x180 w1 = (r2, w2)" by force
  obtain r3 w3 where s3: "chownToState t w2 = (r3, w3)" by force
  obtain r4 w4 where s4: "os_rename t n w3 = (r4, w4)" by force
  note def' = writeStateFile_def [of n b w, folded t_def] t_def [symmetric]
  note b1 = os_write_file_bytes [OF s1] and b2 = osutil_keep(1) [OF s2]
    and b3 = chownToState_bytes [OF s3] and b4 = os_rename_bytes [OF t s4]
  have keep: "agree {n, t} w w'' \<and> bytes w'' n = bytes w n"
    if "agree {t} w w'" "agree {t} w' w''" for w' w''
    using that t by (auto simp: agree_def)
  have a1: "agree {t} w w1" using b1 by (simp add: agree_def)
  consider (f1) e where "r1 = Inl e" | (f2) e where "r1 = Inr ()" "r2 = Inl e"
    | (f3) e where "r1 = Inr ()" "r2 = Inr ()" "r3 = Inl e"
    | (f4) e where "r1 = Inr ()" "r2 = Inr ()" "r3 = Inr ()" "r4 = Inl e"
    | (ok) "r1 = Inr ()" "r2 = Inr ()" "r3 = Inr ()" "r4 = Inr ()"
    by (metis old.sum.exhaust old.unit.exhaust)
  then have "agree {n, t} w w' \<and> (case r of Inl _ \<Rightarrow> bytes w' n = bytes w n | Inr _ \<Rightarrow> bytes w' n = Some b)"
  proof cases
    case f1
    with assms s1 a1 t show ?thesis by (auto simp: def' Let_def agree_def)
  next
    case f2
    then have "os_fail t e w2 = (r, w')" using assms s1 s2 by (simp add: def' Let_def)
    from os_fail_bytes [OF this] keep [OF a1, of w'] b2 show ?thesis by (auto simp: agree_def)
  next
    case f3
    then have "os_fail t e w3 = (r, w')" using assms s1 s2 s3 by (simp add: def' Let_def)
    from os_fail_bytes [OF this] keep [OF a1, of w'] b2 b3 show ?thesis by (auto simp: agree_def)
  next
    case f4
    then have "os_fail t e w4 = (r, w')" using assms s1 s2 s3 s4 by (simp add: def' Let_def)
    moreover have "agree {t} w w4" using a1 b2 b3 b4 f4 by (simp add: agree_def)
    ultimately show ?thesis using os_fail_bytes [of t e w4 r w'] keep [of w4 w'] by simp
  next
    case ok
    then have "r = Inr ()" "w' = w4" using assms s1 s2 s3 s4 by (auto simp: def' Let_def)
    with ok b1 b2 b3 b4 t show ?thesis by (auto simp: agree_def)
  qed
  then show ?thesis by (simp only: t_def)
qed

lemma withLock_cases:
  assumes "withLock failed fn w = (r, w')"
  obtains (failed) e where "r = failed (OsErr e)" "agree {lockPath} w w'"
  | (run) w1 where "agree {lockPath} w w1" "fn w1 = (r, w')"
proof -
  obtain r1 w1 where s1: "os_open_create lockPath 0x180 w = (r1, w1)" by force
  obtain r2 w2 where s2: "os_flock w1 = (r2, w2)" by force
  obtain r3 w3 where s3: "Osutil.Chmod lockPath 0x180 w2 = (r3, w3)" by force
  obtain r4 w4 where s4: "chownToState lockPath w3 = (r4, w4)" by force
  have a: "agree {lockPath} w w1" using os_open_create_bytes [OF s1] by (simp add: agree_def)
  have b: "bytes w4 = bytes w1" "bytes w2 = bytes w1"
    using os_keep(6) [OF s2] osutil_keep(1) [OF s3] chownToState_bytes [OF s4] by simp_all
  show thesis
  proof (cases r1)
    case (Inl e)
    with assms s1 a failed [of e] show thesis by (simp add: withLock_def)
  next
    case r1: (Inr u)
    show thesis
    proof (cases r2)
      case (Inl e)
      with r1 assms s1 s2 have "r = failed (OsErr e)" "w' = w2" by (simp_all add: withLock_def)
      with a b failed [of e] show thesis by (simp add: agree_def)
    next
      case (Inr u)
      with r1 assms s1 s2 s3 s4 have "fn w4 = (r, w')" by (simp add: withLock_def)
      with a b run [of w4] show thesis by (simp add: agree_def)
    qed
  qed
qed

definition table :: "(string \<Rightarrow> 'a option) \<Rightarrow> 'a \<Rightarrow> string \<Rightarrow> osdir \<Rightarrow> 'a option" where
  "table dec v0 n w = (case bytes w n of None \<Rightarrow> Some v0 | Some b \<Rightarrow> dec b)"

lemma table_cong: "bytes w' n = bytes w n \<Longrightarrow> table dec v0 n w' = table dec v0 n w"
  by (simp add: table_def)

lemma readJSON_table:
  "readJSON dec v0 n w = (r, w') \<Longrightarrow>
   bytes w' = bytes w \<and> (case r of Inl _ \<Rightarrow> True | Inr v \<Rightarrow> table dec v0 n w = Some v)"
  using os_keep(5) [of n w] os_read_file_Inr [of n w] os_read_file_ENOENT [of n w]
  by (auto simp: readJSON_def table_def split: prod.splits sum.splits option.splits if_splits)

lemma writeJSON_bytes:
  "writeJSON enc n v w = (r, w') \<Longrightarrow> agree {n, n @ ''.tmp''} w w' \<and>
    (case r of Inl _ \<Rightarrow> bytes w' n = bytes w n | Inr _ \<Rightarrow> \<exists>b. enc v = Some b \<and> bytes w' n = Some b)"
  by (auto simp: writeJSON_def agree_def split: option.splits sum.splits dest!: writeStateFile_bytes)

section \<open>Names do not clash\<close>

lemma tmp_neq [simp]: "n \<noteq> n @ ''.tmp''" "n @ ''.tmp'' \<noteq> n"
  by simp_all

lemma json_neq_tmp [simp]: "x @ ''.json'' \<noteq> y @ ''.tmp''"
proof
  assume "x @ ''.json'' = y @ ''.tmp''"
  then have "last (x @ ''.json'') = last (y @ ''.tmp'')" by simp
  then show False by simp
qed

lemma sess_name_neq [simp]:
  "sess_name i \<noteq> linksPath" "sess_name i \<noteq> subjectsPath" "sess_name i \<noteq> lockPath" "sess_name i \<noteq> keyPath"
  "sess_name i \<noteq> y @ ''.tmp''"
  "linksPath \<noteq> sess_name i" "subjectsPath \<noteq> sess_name i" "lockPath \<noteq> sess_name i" "keyPath \<noteq> sess_name i"
  "y @ ''.tmp'' \<noteq> sess_name i"
  using json_neq_tmp [of "''sessions-'' @ i" y]
  by (auto simp: sess_name_def linksPath_def subjectsPath_def lockPath_def keyPath_def)

lemma path_neq_tmp [simp]:
  "linksPath \<noteq> y @ ''.tmp''" "subjectsPath \<noteq> y @ ''.tmp''" "lockPath \<noteq> y @ ''.tmp''"
  "y @ ''.tmp'' \<noteq> linksPath" "y @ ''.tmp'' \<noteq> subjectsPath" "y @ ''.tmp'' \<noteq> lockPath"
proof -
  have "linksPath = ''links'' @ ''.json''" "subjectsPath = ''subjects'' @ ''.json''"
    by (simp_all add: linksPath_def subjectsPath_def)
  then show "linksPath \<noteq> y @ ''.tmp''" "subjectsPath \<noteq> y @ ''.tmp''"
    "y @ ''.tmp'' \<noteq> linksPath" "y @ ''.tmp'' \<noteq> subjectsPath"
    using json_neq_tmp by metis+
  have "lockPath = y @ ''.tmp'' \<Longrightarrow> last lockPath = last (y @ ''.tmp'')" by simp
  then show "lockPath \<noteq> y @ ''.tmp''" "y @ ''.tmp'' \<noteq> lockPath" by (auto simp: lockPath_def)
qed

lemma path_neq [simp]:
  "linksPath \<noteq> subjectsPath" "subjectsPath \<noteq> linksPath" "linksPath \<noteq> lockPath" "lockPath \<noteq> linksPath"
  "subjectsPath \<noteq> lockPath" "lockPath \<noteq> subjectsPath" "keyPath \<noteq> lockPath" "lockPath \<noteq> keyPath"
  "keyPath \<noteq> linksPath" "linksPath \<noteq> keyPath"
  by (simp_all add: linksPath_def subjectsPath_def lockPath_def keyPath_def)

lemma sess_name_inject [simp]: "sess_name i = sess_name j \<longleftrightarrow> i = j"
  by (simp add: sess_name_def)

lemma is_session_file_name: "is_session_file n \<Longrightarrow> \<exists>y. n = y @ ''.json''"
  by (auto simp: is_session_file_def has_suffix_iff)

lemma is_session_file_sess [simp]: "is_session_file (sess_name i)"
  by (auto simp: is_session_file_def sess_name_def has_prefix_iff has_suffix_iff intro: exI [of _ "''sessions-'' @ i"])

lemma session_file_neq [simp]:
  "is_session_file n \<Longrightarrow> n \<noteq> linksPath" "is_session_file n \<Longrightarrow> n \<noteq> subjectsPath"
  "is_session_file n \<Longrightarrow> n \<noteq> lockPath" "is_session_file n \<Longrightarrow> n \<noteq> keyPath"
  by (auto simp: is_session_file_def has_prefix_iff linksPath_def subjectsPath_def lockPath_def keyPath_def)

lemma session_file_neq_tmp [simp]: "is_session_file n \<Longrightarrow> n \<noteq> y @ ''.tmp''"
  using is_session_file_name [of n] json_neq_tmp by metis

section \<open>The link table\<close>

abbreviation links_of :: "codec \<Rightarrow> osdir \<Rightarrow> link list option" where
  "links_of c w \<equiv> table (dec_links c) [] linksPath w"

abbreviation subjects_of :: "codec \<Rightarrow> osdir \<Rightarrow> subject list option" where
  "subjects_of c w \<equiv> table (dec_subjects c) [] subjectsPath w"

definition link_keys :: "link list \<Rightarrow> (string \<times> string) list" where
  "link_keys ls = map (\<lambda>l. (l_Issuer l, l_Subject l)) ls"

text \<open>The interface of a table from subjects to users, as the store's clients use it.\<close>

locale subject_map =
  fixes lookup :: "'t \<Rightarrow> string \<Rightarrow> string \<Rightarrow> string option"
    and assign :: "string \<Rightarrow> string \<Rightarrow> string \<Rightarrow> 't \<Rightarrow> 't"
    and unique :: "'t \<Rightarrow> bool"
  assumes lookup_assign: "lookup (assign i s u t) i' s' = (if i' = i \<and> s' = s then Some u else lookup t i' s')"
    and unique_assign: "unique t \<Longrightarrow> unique (assign i s u t)"
begin

lemma assign_overwrites: "lookup (assign i s u (assign i s v t)) = lookup (assign i s u t)"
  by (auto simp: lookup_assign fun_eq_iff)

lemma assign_commutes:
  "(i, s) \<noteq> (i', s') \<Longrightarrow> lookup (assign i s u (assign i' s' v t)) = lookup (assign i' s' v (assign i s u t))"
  by (auto simp: lookup_assign fun_eq_iff)

end

lemma lookup_set_link:
  "lookup_links (set_link i s u ls) i' s' = (if i' = i \<and> s' = s then Some u else lookup_links ls i' s')"
  by (induction i s u ls rule: set_link.induct) (auto simp: lookup_links_def)

lemma set_link_keys:
  "link_keys (set_link i s u ls) = (if (i, s) \<in> set (link_keys ls) then link_keys ls else link_keys ls @ [(i, s)])"
  by (induction i s u ls rule: set_link.induct) (auto simp: link_keys_def)

interpretation links: subject_map lookup_links set_link "\<lambda>ls. distinct (link_keys ls)"
  by unfold_locales (auto simp: lookup_set_link set_link_keys)

lemma set_link_valid:
  "list_all valid_link ls \<Longrightarrow> valid_utf8 i \<Longrightarrow> valid_utf8 s \<Longrightarrow> valid_utf8 u \<Longrightarrow> list_all valid_link (set_link i s u ls)"
  by (induction i s u ls rule: set_link.induct) (auto simp: valid_link_def)

lemma readLinks_of:
  "readLinks c w = (r, w') \<Longrightarrow> bytes w' = bytes w \<and> (case r of Inl _ \<Rightarrow> True | Inr ls \<Rightarrow> links_of c w = Some ls)"
  unfolding readLinks_def by (rule readJSON_table)

lemma readSubjects_of:
  "readSubjects c w = (r, w') \<Longrightarrow> bytes w' = bytes w \<and> (case r of Inl _ \<Rightarrow> True | Inr us \<Rightarrow> subjects_of c w = Some us)"
  unfolding readSubjects_def by (rule readJSON_table)

abbreviation "links_files \<equiv> {linksPath, linksPath @ ''.tmp''}"
abbreviation "subjects_files \<equiv> {subjectsPath, subjectsPath @ ''.tmp''}"

context json_codec
begin

lemma links_of_valid: "links_of c w = Some ls \<Longrightarrow> list_all valid_link ls"
  by (auto simp: table_def split: option.splits dest: links_dec)

lemma subjects_of_valid: "subjects_of c w = Some us \<Longrightarrow> list_all valid_subject us"
  by (auto simp: table_def split: option.splits dest: subjects_dec)

lemma writeLinks_of:
  assumes "writeLinks c ls w = (r, w')" "list_all valid_link ls"
  shows "agree links_files w w' \<and>
    (case r of Inl _ \<Rightarrow> bytes w' linksPath = bytes w linksPath | Inr _ \<Rightarrow> links_of c w' = Some ls)"
  using writeJSON_bytes [OF assms(1) [unfolded writeLinks_def]] links_rt [OF _ assms(2)]
  by (auto simp: table_def split: sum.splits)

lemma writeSubjects_of:
  assumes "writeSubjects c us w = (r, w')" "list_all valid_subject us"
  shows "agree subjects_files w w' \<and>
    (case r of Inl _ \<Rightarrow> bytes w' subjectsPath = bytes w subjectsPath | Inr _ \<Rightarrow> subjects_of c w' = Some us)"
  using writeJSON_bytes [OF assms(1) [unfolded writeSubjects_def]] subjects_rt [OF _ assms(2)]
  by (auto simp: table_def split: sum.splits)

lemma setLinkLocked_of:
  assumes "setLinkLocked c i s u w = (r, w')" "valid_utf8 i" "valid_utf8 s" "valid_utf8 u"
  shows "agree links_files w w' \<and>
    (case r of Inl _ \<Rightarrow> bytes w' linksPath = bytes w linksPath
     | Inr _ \<Rightarrow> \<exists>ls. links_of c w = Some ls \<and> links_of c w' = Some (set_link i s u ls))"
proof -
  obtain r1 w1 where s1: "readLinks c w = (r1, w1)" by force
  note b1 = readLinks_of [OF s1]
  show ?thesis
  proof (cases r1)
    case (Inl e)
    with s1 b1 assms(1) show ?thesis by (auto simp: setLinkLocked_def agree_def)
  next
    case (Inr ls)
    with s1 assms(1) have s2: "writeLinks c (set_link i s u ls) w1 = (r, w')" by (simp add: setLinkLocked_def)
    have "links_of c w = Some ls" using b1 Inr by simp
    with set_link_valid [OF links_of_valid assms(2-4)] writeLinks_of [OF s2] b1 show ?thesis
      by (auto simp: agree_def split: sum.splits)
  qed
qed

lemma SetLink_of:
  assumes "SetLink c i s u w = (r, w')" "valid_utf8 i" "valid_utf8 s" "valid_utf8 u"
  shows "agree (insert lockPath links_files) w w' \<and>
    (case r of Inl _ \<Rightarrow> links_of c w' = links_of c w
     | Inr _ \<Rightarrow> \<exists>ls. links_of c w = Some ls \<and> links_of c w' = Some (set_link i s u ls))"
  using assms(1) unfolding SetLink_def
proof (cases rule: withLock_cases)
  case (failed e)
  then have "links_of c w' = links_of c w" by (intro table_cong) (simp add: agreeD)
  with failed show ?thesis by (simp add: agree_def)
next
  case (run w1)
  have t: "links_of c w1 = links_of c w" using agreeD [OF run(1), of linksPath] by (intro table_cong) simp
  note b = setLinkLocked_of [OF run(2) assms(2-4)]
  have "agree (insert lockPath links_files) w w'"
    using agree_trans [OF run(1), of links_files w'] b by blast
  moreover have "links_of c w' = links_of c w" if "r = Inl e" for e
    using b that t table_cong [of w' linksPath w1 "dec_links c" "[]"] by simp
  ultimately show ?thesis
    using b t by (auto split: sum.splits)
qed

end

section \<open>Pinned subjects\<close>

definition pin :: "subject list \<Rightarrow> string \<Rightarrow> (string \<times> string) option" where
  "pin us email = map_option (\<lambda>u. (u_Issuer u, u_Subject u)) (find (\<lambda>u. u_Email u = email) us)"

lemma find_append: "find P (xs @ ys) = (case find P xs of None \<Rightarrow> find P ys | Some x \<Rightarrow> Some x)"
  by (induction xs) auto

lemma pin_append:
  "pin (us @ [u]) email = (case pin us email of Some p \<Rightarrow> Some p
     | None \<Rightarrow> if u_Email u = email then Some (u_Issuer u, u_Subject u) else None)"
  by (auto simp: pin_def find_append split: option.splits)

definition bind_post ::
  "codec \<Rightarrow> string \<Rightarrow> string \<Rightarrow> string \<Rightarrow> osdir \<Rightarrow> store_error + unit \<Rightarrow> osdir \<Rightarrow> bool" where
  "bind_post c email i s w r w' \<longleftrightarrow> (case r of
      Inl e \<Rightarrow> subjects_of c w' = subjects_of c w
    | Inr _ \<Rightarrow> \<exists>us us'. subjects_of c w = Some us \<and> subjects_of c w' = Some us' \<and> pin us' email = Some (i, s) \<and>
        (\<forall>a p. pin us a = Some p \<longrightarrow> pin us' a = Some p) \<and> (\<forall>a. a \<noteq> email \<longrightarrow> pin us' a = pin us a))"

context json_codec
begin

lemma bind_locked:
  assumes "(case readSubjects c w of (r, w1) \<Rightarrow> case r of Inl e \<Rightarrow> (Inl e, w1)
        | Inr sf \<Rightarrow> (case find (\<lambda>row. u_Email row = email) sf of
               Some row \<Rightarrow> (if u_Issuer row = i \<and> u_Subject row = s then Inr () else Inl ErrSubjectMismatch, w1)
             | None \<Rightarrow> writeSubjects c (sf @ [\<lparr>u_Email = email, u_Issuer = i, u_Subject = s\<rparr>]) w1)) = (r, w')"
    and v: "valid_utf8 email" "valid_utf8 i" "valid_utf8 s"
  shows "bind_post c email i s w r w'"
proof -
  obtain r1 w1 where s1: "readSubjects c w = (r1, w1)" by force
  note b1 = readSubjects_of [OF s1]
  have t1: "subjects_of c w1 = subjects_of c w" using b1 by (simp add: table_def)
  show ?thesis
  proof (cases r1)
    case (Inl e)
    with s1 t1 assms(1) show ?thesis by (auto simp: bind_post_def)
  next
    case (Inr us)
    with b1 have us: "subjects_of c w = Some us" by simp
    show ?thesis
    proof (cases "find (\<lambda>row. u_Email row = email) us")
      case (Some row)
      with Inr s1 t1 us assms(1) show ?thesis
        by (auto simp: bind_post_def pin_def split: if_splits)
    next
      case None
      let ?us = "us @ [\<lparr>u_Email = email, u_Issuer = i, u_Subject = s\<rparr>]"
      from None Inr s1 assms(1) have s2: "writeSubjects c ?us w1 = (r, w')" by simp
      have "list_all valid_subject ?us" using subjects_of_valid [OF us] v by (simp add: valid_subject_def)
      note b2 = writeSubjects_of [OF s2 this]
      have "pin us email = None" using None by (simp add: pin_def)
      then have "pin ?us email = Some (i, s)" "\<forall>a p. pin us a = Some p \<longrightarrow> pin ?us a = Some p"
        "\<forall>a. a \<noteq> email \<longrightarrow> pin ?us a = pin us a"
        by (auto simp: pin_append split: option.splits)
      moreover have "subjects_of c w' = subjects_of c w" if "r = Inl e" for e
        using b2 that t1 table_cong [of w' subjectsPath w1 "dec_subjects c" "[]"] by simp
      ultimately show ?thesis
        using b2 t1 us by (auto simp: bind_post_def split: sum.splits)
    qed
  qed
qed

lemma BindSubject_post:
  assumes "BindSubject c email i s w = (r, w')" "valid_utf8 email" "valid_utf8 i" "valid_utf8 s"
  shows "bind_post c email i s w r w'"
proof (cases "email = [] \<or> i = [] \<or> s = []")
  case True
  with assms(1) show ?thesis by (auto simp: BindSubject_def bind_post_def)
next
  case False
  with assms(1) show ?thesis
    unfolding BindSubject_def if_not_P [OF False]
  proof (cases rule: withLock_cases)
    case (failed e)
    then have "subjects_of c w' = subjects_of c w" by (intro table_cong) (simp add: agreeD)
    with failed show ?thesis by (simp add: bind_post_def)
  next
    case (run w1)
    have "subjects_of c w1 = subjects_of c w" using agreeD [OF run(1), of subjectsPath] by (intro table_cong) simp
    with bind_locked [OF run(2) assms(2-4)] show ?thesis unfolding bind_post_def by (simp cong: sum.case_cong)
  qed
qed

end

section \<open>Session files\<close>

definition sess_in :: "codec \<Rightarrow> osdir \<Rightarrow> string \<Rightarrow> session option" where
  "sess_in c w n = Option.bind (bytes w n) (dec_session c)"

text \<open>Every session is stored under its own identifier.\<close>

definition named :: "codec \<Rightarrow> osdir \<Rightarrow> bool" where
  "named c w \<longleftrightarrow> (\<forall>n s. is_session_file n \<longrightarrow> sess_in c w n = Some s \<longrightarrow> n = sess_name (s_ID s))"

lemma sess_in_cong: "bytes w' n = bytes w n \<Longrightarrow> sess_in c w' n = sess_in c w n"
  by (simp add: sess_in_def)

lemma named_agree:
  "agree X w w' \<Longrightarrow> (\<And>x. x \<in> X \<Longrightarrow> \<not> is_session_file x) \<Longrightarrow> named c w' = named c w"
  unfolding named_def sess_in_def agree_def by metis

lemma sessionPath_Some: "sessionPath i = Some p \<Longrightarrow> p = sess_name i"
  by (auto simp: sessionPath_def split: if_splits)

abbreviation "sess_files i \<equiv> {sess_name i, sess_name i @ ''.tmp''}"

lemma not_session_file [simp]:
  "\<not> is_session_file (y @ ''.tmp'')" "\<not> is_session_file lockPath" "\<not> is_session_file linksPath"
  "\<not> is_session_file subjectsPath" "\<not> is_session_file keyPath"
  using session_file_neq_tmp session_file_neq by blast+

text \<open>
  The files \<open>w'\<close> differs from \<open>w\<close> in are sessions that satisfied \<open>match\<close> and have lost their PAM
  user, and temporary files.
\<close>

definition cleared :: "codec \<Rightarrow> (session \<Rightarrow> bool) \<Rightarrow> osdir \<Rightarrow> osdir \<Rightarrow> bool" where
  "cleared c match w w' \<longleftrightarrow>
     (\<forall>x. is_session_file x \<longrightarrow> sess_in c w' x = sess_in c w x \<or>
        (\<exists>s. sess_in c w x = Some s \<and> match s \<and> sess_in c w' x = Some (s\<lparr>s_PAMUser := []\<rparr>))) \<and>
     (\<forall>x. \<not> is_session_file x \<longrightarrow> (\<forall>y. x \<noteq> y @ ''.tmp'') \<longrightarrow> bytes w' x = bytes w x)"

lemma cleared_refl: "bytes w' = bytes w \<Longrightarrow> cleared c match w w'"
  by (simp add: cleared_def sess_in_def)

lemma cleared_trans:
  assumes "cleared c match w w1" "cleared c match w1 w2" "\<And>s. \<not> match (s\<lparr>s_PAMUser := []\<rparr>)"
  shows "cleared c match w w2"
proof -
  have "sess_in c w2 x = sess_in c w x \<or>
        (\<exists>s. sess_in c w x = Some s \<and> match s \<and> sess_in c w2 x = Some (s\<lparr>s_PAMUser := []\<rparr>))"
    if "is_session_file x" for x
    using assms that unfolding cleared_def by (metis option.inject)
  then show ?thesis
    using assms(1,2) by (auto simp: cleared_def)
qed

lemma cleared_unmatched:
  "cleared c match w w' \<Longrightarrow> (\<And>s. \<not> match (s\<lparr>s_PAMUser := []\<rparr>)) \<Longrightarrow> is_session_file x \<Longrightarrow>
   sess_in c w x = Some s \<Longrightarrow> \<not> match s \<Longrightarrow> sess_in c w' x = Some s"
  unfolding cleared_def by (metis option.inject)

lemma valid_utf8_Nil [simp]: "valid_utf8 []"
  by (simp add: valid_utf8_def)

context json_codec
begin

lemma saveSession_of:
  assumes "saveSession c s w = (r, w')" "valid_session s"
  shows "agree (sess_files (s_ID s)) w w' \<and>
    (case r of Inl _ \<Rightarrow> bytes w' (sess_name (s_ID s)) = bytes w (sess_name (s_ID s))
     | Inr _ \<Rightarrow> sess_in c w' (sess_name (s_ID s)) = Some s)"
proof (cases "sessionPath (s_ID s)")
  case None
  with assms(1) show ?thesis by (auto simp: saveSession_def agree_def)
next
  case (Some p)
  note p = sessionPath_Some [OF Some]
  show ?thesis
  proof (cases "enc_session c s")
    case None
    with Some assms(1) show ?thesis by (auto simp: saveSession_def agree_def)
  next
    case e: (Some b)
    with Some p assms(1) have "writeStateFile (sess_name (s_ID s)) b w = (r, w')" by (simp add: saveSession_def)
    from writeStateFile_bytes [OF this] session_rt [OF e assms(2)] show ?thesis
      by (auto simp: sess_in_def split: sum.splits)
  qed
qed

lemma saveSession_named:
  assumes "saveSession c s w = (r, w')" "valid_session s" "named c w"
  shows "named c w'"
proof -
  note b = saveSession_of [OF assms(1,2)]
  have "n = sess_name (s_ID s')" if n: "is_session_file n" "sess_in c w' n = Some s'" for n s'
  proof (cases "n = sess_name (s_ID s) \<and> (\<exists>u. r = Inr u)")
    case True
    with b n show ?thesis by (auto split: sum.splits)
  next
    case False
    then have "bytes w' n = bytes w n"
      using b n(1) agreeD [of "sess_files (s_ID s)" w w' n] by (auto split: sum.splits)
    then show ?thesis using assms(3) n by (auto simp: named_def sess_in_def)
  qed
  then show ?thesis by (auto simp: named_def)
qed

lemma save_cleared:
  assumes "saveSession c (s\<lparr>s_PAMUser := []\<rparr>) w = (r, w')" "named c w" "is_session_file x"
    and "sess_in c w x = Some s" "match s"
  shows "cleared c match w w' \<and> named c w' \<and> (r = Inr () \<longrightarrow> sess_in c w' x = Some (s\<lparr>s_PAMUser := []\<rparr>))"
proof -
  have v: "valid_session (s\<lparr>s_PAMUser := []\<rparr>)"
  proof -
    have "valid_session s" using assms(4) session_dec by (auto simp: sess_in_def bind_eq_Some_conv)
    then show ?thesis by (simp add: valid_session_def)
  qed
  note b = saveSession_of [OF assms(1) v]
  have x: "x = sess_name (s_ID s)" using assms(2-4) by (auto simp: named_def)
  have keep: "bytes w' y = bytes w y" if "y \<noteq> x" "\<And>z. y \<noteq> z @ ''.tmp''" for y
    using b that(1) that(2) [of "sess_name (s_ID s)"] x agreeD [of "sess_files (s_ID s)" w w' y] by simp
  have "sess_in c w' y = sess_in c w y" if "is_session_file y" "y \<noteq> x" for y
    using keep [of y] that by (simp add: sess_in_def)
  moreover have "sess_in c w' x = sess_in c w x \<or> sess_in c w' x = Some (s\<lparr>s_PAMUser := []\<rparr>)"
    using b x by (auto simp: sess_in_def split: sum.splits)
  ultimately have "cleared c match w w'"
    using keep assms(3-5) unfolding cleared_def by metis
  moreover have "r = Inr () \<longrightarrow> sess_in c w' x = Some (s\<lparr>s_PAMUser := []\<rparr>)"
    using b x by auto
  ultimately show ?thesis using saveSession_named [OF assms(1) v assms(2)] by blast
qed

lemma clear_loop_cleared:
  assumes "\<And>s. \<not> match (s\<lparr>s_PAMUser := []\<rparr>)"
  shows "clear_loop c match names n w = ((m, e), w') \<Longrightarrow> named c w \<Longrightarrow>
    cleared c match w w' \<and> named c w' \<and>
    (e = None \<longrightarrow> (\<forall>x \<in> set names. is_session_file x \<longrightarrow> (\<exists>s. sess_in c w' x = Some s \<and> \<not> match s)))"
proof (induction names arbitrary: n w)
  case Nil
  then show ?case by (auto intro: cleared_refl)
next
  case (Cons x names)
  show ?case
  proof (cases "is_session_file x")
    case False
    with Cons show ?thesis by auto
  next
    case x: True
    obtain r w1 where s1: "os_read_file x w = (r, w1)" by force
    note b1 = os_keep(5) [OF s1]
    have n1: "named c w1" using Cons.prems(2) b1 by (simp add: named_def sess_in_def)
    have c1: "cleared c match w w1" by (rule cleared_refl [OF b1])
    show ?thesis
    proof (cases "case r of Inl _ \<Rightarrow> None | Inr b \<Rightarrow> dec_session c b")
      case None
      with Cons.prems(1) x s1 have "w' = w1 \<and> e \<noteq> None" by (auto split: sum.splits)
      with n1 c1 show ?thesis by auto
    next
      case (Some s)
      then obtain b where r: "r = Inr b" "dec_session c b = Some s" by (auto split: sum.splits)
      have sx: "sess_in c w1 x = Some s"
        using os_read_file_Inr [of x w b w1] s1 r b1 by (simp add: sess_in_def)
      show ?thesis
      proof (cases "match s")
        case False
        then have l: "clear_loop c match names n w1 = ((m, e), w')" using Cons.prems(1) x s1 r by simp
        note ih = Cons.IH [OF l n1]
        have "sess_in c w' x = Some s"
          using cleared_unmatched [OF _ assms x sx False] ih by blast
        with ih False cleared_trans [OF c1 _ assms] show ?thesis by auto
      next
        case True
        obtain sr w2 where s2: "saveSession c (s\<lparr>s_PAMUser := []\<rparr>) w1 = (sr, w2)" by force
        note b2 = save_cleared [where match = match, OF s2 n1 x sx True]
        show ?thesis
        proof (cases sr)
          case (Inl e')
          with Cons.prems(1) x s1 r True s2 have "w' = w2 \<and> e \<noteq> None" by auto
          with b2 cleared_trans [OF c1 _ assms] show ?thesis by auto
        next
          case (Inr u)
          then have l: "clear_loop c match names (Suc n) w2 = ((m, e), w')"
            using Cons.prems(1) x s1 r True s2 by simp
          have n2: "named c w2" and s2x: "sess_in c w2 x = Some (s\<lparr>s_PAMUser := []\<rparr>)" using b2 Inr by auto
          note ih = Cons.IH [OF l n2]
          have "sess_in c w' x = Some (s\<lparr>s_PAMUser := []\<rparr>)"
            using cleared_unmatched [where match = match and w = w2 and w' = w', OF _ _ x s2x] ih assms by blast
          moreover have "cleared c match w w'"
            using cleared_trans [OF cleared_trans [OF c1 _ assms] _ assms] b2 ih by blast
          ultimately show ?thesis using ih assms by auto
        qed
      qed
    qed
  qed
qed

lemma clearMatching_cleared:
  assumes "clearMatchingSessionsLocked c match w = ((m, e), w')" "named c w"
    and "\<And>s. \<not> match (s\<lparr>s_PAMUser := []\<rparr>)"
  shows "cleared c match w w' \<and> named c w' \<and>
    (e = None \<longrightarrow> (\<forall>x s. is_session_file x \<longrightarrow> sess_in c w' x = Some s \<longrightarrow> \<not> match s))"
proof -
  obtain r w1 where s1: "os_read_dir w = (r, w1)" by force
  note b1 = os_keep(9) [OF s1]
  have n1: "named c w1" and c1: "cleared c match w w1"
    using assms(2) b1 by (simp_all add: named_def sess_in_def cleared_refl)
  show ?thesis
  proof (cases r)
    case (Inl e')
    with assms(1) s1 n1 c1 show ?thesis by (auto simp: clearMatchingSessionsLocked_def)
  next
    case (Inr es)
    then have l: "clear_loop c match (map fst es) 0 w1 = ((m, e), w')"
      using assms(1) s1 by (simp add: clearMatchingSessionsLocked_def)
    note b = clear_loop_cleared [OF assms(3) l n1]
    have "\<not> match s" if "e = None" "is_session_file x" "sess_in c w' x = Some s" for x s
    proof -
      have "sess_in c w1 x \<noteq> None" using b that unfolding cleared_def by fastforce
      then obtain bs where "bytes w x = Some bs" using b1 by (auto simp: sess_in_def bind_eq_None_conv)
      then have "x \<in> set (map fst es)" using os_read_dir_names s1 Inr by blast
      then show ?thesis using b that by fastforce
    qed
    moreover have "cleared c match w w'" using b cleared_trans [OF c1 _ assms(3)] by simp
    ultimately show ?thesis using b by simp
  qed
qed

end

section \<open>Operations on sessions\<close>

lemma hex_encode_ascii: "list_all is_ascii (hex_encode b)"
  using set_hex_encode [of _ b] by (force simp: list_all_iff is_ascii_def in_range_def)

lemma hex_encode_plain: "b \<noteq> [] \<Longrightarrow> plain_name (hex_encode b)"
proof (rule plain_nameI)
  assume "b \<noteq> []"
  then show "hex_encode b \<noteq> []" using length_hex_encode [of b] by (metis length_0_conv mult_eq_0_iff zero_neq_numeral)
  show "slash \<notin> set (hex_encode b)"
    using set_hex_encode [of slash b] by (auto simp: in_range_def byte_of_def)
  have "CHR ''.'' \<notin> set (hex_encode b)"
    using set_hex_encode [of "CHR ''.''" b] by (auto simp: in_range_def byte_of_def)
  then show "hex_encode b \<noteq> dot" "hex_encode b \<noteq> dotdot" by (metis list.set_intros(1))+
qed

text \<open>The identifiers the store makes are accepted by \<open>sessionPath\<close>.\<close>

lemma safeID_hex: "b \<noteq> [] \<Longrightarrow> length b \<le> 64 \<Longrightarrow> safeID (hex_encode b)"
  using set_hex_encode [of _ b]
  by (auto simp: safeID_def runes_ascii [OF hex_encode_ascii] list_all_iff)

lemma sessionPath_hex: "b \<noteq> [] \<Longrightarrow> length b \<le> 64 \<Longrightarrow> sessionPath (hex_encode b) = Some (sess_name (hex_encode b))"
  by (simp add: sessionPath_def safeID_hex plain_name_is_local hex_encode_plain)

lemma utf8_first_small:
  "fst (utf8_first bs) < 128 \<Longrightarrow> bs \<noteq> [] \<Longrightarrow> hd bs < 128 \<and> snd (utf8_first bs) = 1"
  by (auto simp: utf8_first_def rune_error_def in_range_def split: list.splits if_splits)

lemma utf8_chunks_small:
  "list_all (\<lambda>r. r < 128) (map fst (utf8_chunks s)) \<Longrightarrow> list_all is_ascii s"
proof (induction s rule: utf8_chunks.induct)
  case (2 ch cs)
  obtain r n where rn: "utf8_first (map byte_of (take 4 (ch # cs))) = (r, n)" by force
  with 2(2) have "r < 128" by simp
  with utf8_first_small [of "map byte_of (take 4 (ch # cs))"] rn have "byte_of ch < 128" "n = 1" by auto
  with 2 rn show ?case by (simp add: is_ascii_def)
qed simp

text \<open>An accepted identifier is a plain ASCII name, so the session path stays in the directory.\<close>

lemma safeID_plain:
  assumes "safeID i"
  shows "list_all is_ascii i" "plain_name i"
proof -
  have rs: "list_all (\<lambda>r. in_range 0x30 0x39 r \<or> in_range 0x61 0x66 r \<or> in_range 0x41 0x46 r) (runes i)" "i \<noteq> []"
    using assms by (auto simp: safeID_def)
  then have "list_all (\<lambda>r. r < 128) (map fst (utf8_chunks i))"
    by (auto simp: runes_def list_all_iff in_range_def)
  then show a: "list_all is_ascii i" by (rule utf8_chunks_small)
  have ch: "in_range 0x30 0x39 (byte_of x) \<or> in_range 0x61 0x66 (byte_of x) \<or> in_range 0x41 0x46 (byte_of x)"
    if "x \<in> set i" for x
    using rs(1) that by (auto simp: runes_ascii [OF a] list_all_iff)
  have "slash \<notin> set i" "CHR ''.'' \<notin> set i"
    using ch [of slash] ch [of "CHR ''.''"] by (auto simp: in_range_def byte_of_def)
  with rs(2) show "plain_name i" by (auto intro!: plain_nameI)
qed

lemma sessionPath_plain:
  "sessionPath i = Some p \<Longrightarrow> p = sess_name i \<and> plain_name p"
proof -
  assume p: "sessionPath i = Some p"
  then have "p = sess_name i" "slash \<notin> set i"
    using safeID_plain [of i] by (auto simp: sessionPath_def plain_name_def split: if_splits)
  moreover have "slash \<notin> set (sess_name i)" using calculation(2) by (simp add: sess_name_def)
  ultimately show ?thesis by (auto intro!: plain_nameI simp: sess_name_def)
qed

context json_codec
begin

lemma putSession_of:
  assumes "putSession c s ttl prep rnd now w = (Inr s', w')"
    and prep: "\<And>s w r w'. prep s w = (r, w') \<Longrightarrow> bytes w' = bytes w"
    and valid: "\<And>s w t w'. prep s w = (Inr t, w') \<Longrightarrow> valid_session s \<Longrightarrow> valid_session t \<and> s_ID t = s_ID s"
    and v: "valid_session s"
  obtains b w1 where "rnd = Some b" "agree {lockPath} w w1"
    "fst (prep (s\<lparr>s_ID := hex_encode b, s_Expires := now + ttl\<rparr>) w1) = Inr s'"
    "agree (insert lockPath (sess_files (hex_encode b))) w w'"
    "sess_in c w' (sess_name (s_ID s')) = Some s'" "s_ID s' = hex_encode b" "valid_session s'"
    "sessionPath (s_ID s') \<noteq> None"
proof -
  obtain b where b: "rnd = Some b" using assms(1) by (cases rnd) (auto simp: putSession_def randomID_def)
  let ?s = "s\<lparr>s_ID := hex_encode b, s_Expires := now + ttl\<rparr>"
  have vs: "valid_session ?s"
    using v valid_utf8_ascii [OF hex_encode_ascii] by (simp add: valid_session_def)
  from assms(1) b have "withLock Inl (\<lambda>w1.
            case prep ?s w1 of (pr, w2) \<Rightarrow>
            case pr of Inl e \<Rightarrow> (Inl e, w2)
            | Inr s' \<Rightarrow> (case saveSession c s' w2 of (sr, w3) \<Rightarrow>
                case sr of Inl e \<Rightarrow> (Inl e, w3) | Inr _ \<Rightarrow> (Inr s', w3))) w = (Inr s', w')"
    by (simp add: putSession_def randomID_def)
  then show thesis
  proof (cases rule: withLock_cases)
    case (run w1)
    obtain pr w2 where s1: "prep ?s w1 = (pr, w2)" by force
    with run(2) obtain t where t: "pr = Inr t" by (cases pr) auto
    obtain sr w3 where s2: "saveSession c t w2 = (sr, w3)" by force
    with run(2) s1 t have st: "t = s'" "sr = Inr ()" "w3 = w'" by (auto split: sum.splits)
    have vt: "valid_session s'" "s_ID s' = hex_encode b" using valid [OF s1 [unfolded t] vs] st by auto
    note b2 = saveSession_of [OF s2 [unfolded st] vt(1)]
    have "agree (sess_files (hex_encode b)) w1 w'"
      using b2 prep [OF s1] vt(2) by (simp add: agree_def)
    then have "agree (insert lockPath (sess_files (hex_encode b))) w w'"
      using agree_trans [OF run(1)] by blast
    moreover have "sessionPath (s_ID s') \<noteq> None"
      using s2 st by (auto simp: saveSession_def split: option.splits)
    ultimately show thesis
      using that [OF b run(1) _ _ _ vt(2,1)] s1 t st b2 by auto
  qed simp
qed

end

lemma lookupLinkLocked_of:
  "lookupLinkLocked c i s w = (r, w') \<Longrightarrow> bytes w' = bytes w \<and>
    (case r of Inl _ \<Rightarrow> True | Inr p \<Rightarrow> \<exists>ls. links_of c w = Some ls \<and> p = lookup_links ls i s)"
  by (cases "readLinks c w") (auto simp: lookupLinkLocked_def dest!: readLinks_of split: sum.splits)

lemma lookup_valid:
  "list_all valid_link ls \<Longrightarrow> lookup_links ls i s = Some p \<Longrightarrow> valid_utf8 p"
  by (auto simp: lookup_links_def find_Some_iff list_all_length valid_link_def)

lemma GetSession_of:
  assumes "od_faults w = []" "sess_in c w (sess_name i) = Some s" "sessionPath i \<noteq> None"
  shows "GetSession c i now w =
    (if now > s_Expires s then (Inl ErrNotExist, fdel (sess_name i) w) else (Inr s, w))"
proof -
  obtain b where b: "bytes w (sess_name i) = Some b" "dec_session c b = Some s"
    using assms(2) by (auto simp: sess_in_def bind_eq_Some_conv)
  then show ?thesis
    using assms os_read_file_ok [OF assms(1) b(1)] os_remove_ok [OF assms(1) b(1)]
    using sessionPath_Some [of i] by (auto simp: GetSession_def)
qed

context json_codec
begin

lemma CreateSession_of:
  assumes "CreateSession c iss sub email ttl rnd now w = (Inr s, w')"
    and "valid_utf8 iss" "valid_utf8 sub" "valid_utf8 email"
  shows "sess_in c w' (sess_name (s_ID s)) = Some s \<and> sessionPath (s_ID s) \<noteq> None \<and>
    agree (insert lockPath (sess_files (s_ID s))) w w' \<and>
    (\<exists>ls b. links_of c w = Some ls \<and> rnd = Some b \<and> s = \<lparr>s_ID = hex_encode b, s_Iss = iss, s_Sub = sub,
       s_PAMUser = (case lookup_links ls iss sub of None \<Rightarrow> [] | Some p \<Rightarrow> p),
       s_Email = email, s_Expires = now + ttl\<rparr>)"
proof -
  let ?prep = "\<lambda>s w. case lookupLinkLocked c iss sub w of (r, w1) \<Rightarrow>
          case r of
            Inl e \<Rightarrow> (Inl e, w1)
          | Inr pam \<Rightarrow> (Inr (case pam of None \<Rightarrow> s | Some p \<Rightarrow> s\<lparr>s_PAMUser := p\<rparr>), w1)"
  have p1: "bytes w' = bytes w" if "?prep s w = (r, w')" for s w w' and r :: "store_error + session"
    using that by (cases "lookupLinkLocked c iss sub w") (auto split: sum.splits dest!: lookupLinkLocked_of)
  have p2: "valid_session t \<and> s_ID t = s_ID s" if e: "?prep s w = (Inr t, w')" and v: "valid_session s" for s w t w'
  proof -
    obtain r w1 where l: "lookupLinkLocked c iss sub w = (r, w1)" by force
    with e obtain pam where r: "r = Inr pam" by (cases r) auto
    with lookupLinkLocked_of [OF l] obtain ls where ls: "links_of c w = Some ls" "pam = lookup_links ls iss sub" by auto
    then show ?thesis
      using e l r v lookup_valid [OF links_of_valid [OF ls(1)]]
      by (auto simp: valid_session_def split: option.splits)
  qed
  have v: "valid_session (empty_session\<lparr>s_Iss := iss, s_Sub := sub, s_Email := email\<rparr>)"
    using assms(2-4) by (simp add: valid_session_def empty_session_def)
  show ?thesis
  proof (rule putSession_of [where prep = ?prep, OF assms(1) [unfolded CreateSession_def] _ _ v])
    fix s w w' and r :: "store_error + session" assume "?prep s w = (r, w')"
    then show "bytes w' = bytes w" by (rule p1)
  next
    fix s w t w' assume "?prep s w = (Inr t, w')" "valid_session s"
    then show "valid_session t \<and> s_ID t = s_ID s" by (rule p2)
  next
    fix b w1
    assume a: "rnd = Some b" "agree {lockPath} w w1"
      "fst (?prep (empty_session\<lparr>s_Iss := iss, s_Sub := sub, s_Email := email, s_ID := hex_encode b, s_Expires := now + ttl\<rparr>) w1) = Inr s"
      "agree (insert lockPath (sess_files (hex_encode b))) w w'"
      "sess_in c w' (sess_name (s_ID s)) = Some s" "s_ID s = hex_encode b" "sessionPath (s_ID s) \<noteq> None"
    obtain r w2 where l: "lookupLinkLocked c iss sub w1 = (r, w2)" by force
    with a(3) obtain pam where r: "r = Inr pam" by (cases r) auto
    with lookupLinkLocked_of [OF l] obtain ls where ls: "links_of c w1 = Some ls" "pam = lookup_links ls iss sub" by auto
    have "links_of c w = Some ls" using ls(1) agreeD [OF a(2), of linksPath] by (simp add: table_def)
    moreover have "s = \<lparr>s_ID = hex_encode b, s_Iss = iss, s_Sub = sub,
       s_PAMUser = (case pam of None \<Rightarrow> [] | Some p \<Rightarrow> p), s_Email = email, s_Expires = now + ttl\<rparr>"
      using a(3) l r by (auto simp: empty_session_def split: option.splits)
    ultimately show ?thesis using a ls by auto
  qed
qed

end

section \<open>Unlinking\<close>

definition unlink_match :: "string \<Rightarrow> link list \<Rightarrow> session \<Rightarrow> bool" where
  "unlink_match pam ls s \<longleftrightarrow>
     (s_PAMUser s = pam \<or> (s_Iss s, s_Sub s) \<in> set (link_keys ls)) \<and> s_PAMUser s \<noteq> []"

text \<open>The sessions of \<open>w'\<close> are those of \<open>w\<close>, where those that satisfy \<open>match\<close> may have lost their PAM user.\<close>

definition sess_cleared :: "codec \<Rightarrow> (session \<Rightarrow> bool) \<Rightarrow> osdir \<Rightarrow> osdir \<Rightarrow> bool" where
  "sess_cleared c match w w' \<longleftrightarrow>
     (\<forall>x. is_session_file x \<longrightarrow> sess_in c w' x = sess_in c w x \<or>
        (\<exists>s. sess_in c w x = Some s \<and> match s \<and> sess_in c w' x = Some (s\<lparr>s_PAMUser := []\<rparr>)))"

lemma sess_in_agree: "agree X w w' \<Longrightarrow> x \<notin> X \<Longrightarrow> sess_in c w' x = sess_in c w x"
  by (simp add: agree_def sess_in_def)

context json_codec
begin

lemma UnlinkPAM_of:
  assumes u: "UnlinkPAM c pam w = ((removed, n, None), w')" and nm: "named c w"
  shows "\<exists>ls. links_of c w = Some ls \<and> links_of c w' = Some (filter (\<lambda>l. l_PAMUser l \<noteq> pam) ls) \<and>
    removed = filter (\<lambda>l. l_PAMUser l = pam) ls \<and> named c w' \<and>
    sess_cleared c (unlink_match pam removed) w w' \<and>
    (\<forall>x s. is_session_file x \<longrightarrow> sess_in c w' x = Some s \<longrightarrow> \<not> unlink_match pam removed s)"
proof -
  have "pam \<noteq> []" using u by (auto simp: UnlinkPAM_def)
  then have "withLock (\<lambda>e. ([], 0, Some e)) (\<lambda>w.
        case readLinks c w of (r, w1) \<Rightarrow>
        case r of
          Inl e \<Rightarrow> (([], 0, Some e), w1)
        | Inr ls \<Rightarrow>
            (let removed = filter (\<lambda>l. l_PAMUser l = pam) ls in
             case writeLinks c (filter (\<lambda>l. l_PAMUser l \<noteq> pam) ls) w1 of (wr, w2) \<Rightarrow>
             case wr of
               Inl e \<Rightarrow> ((removed, 0, Some e), w2)
             | Inr _ \<Rightarrow> (case clearSessionPAMLocked c pam removed w2 of (ne, w3) \<Rightarrow>
                 ((removed, fst ne, snd ne), w3)))) w = ((removed, n, None), w')"
    using u by (simp add: UnlinkPAM_def)
  then show ?thesis
  proof (cases rule: withLock_cases)
    case (run w1)
    obtain r w2 where s1: "readLinks c w1 = (r, w2)" by force
    with run(2) obtain ls where ls: "r = Inr ls" by (cases r) auto
    let ?rm = "filter (\<lambda>l. l_PAMUser l = pam) ls" and ?ls = "filter (\<lambda>l. l_PAMUser l \<noteq> pam) ls"
    obtain wr w3 where s2: "writeLinks c ?ls w2 = (wr, w3)" by force
    with run(2) s1 ls obtain x where wr: "wr = Inr x" by (cases wr) (auto simp: Let_def)
    obtain m e w4 where s3: "clearSessionPAMLocked c pam ?rm w3 = ((m, e), w4)" by (metis surj_pair)
    with run(2) s1 ls s2 wr have e: "removed = ?rm" "e = None" "w4 = w'" by (auto simp: Let_def)
    note b1 = readLinks_of [OF s1]
    have l1: "links_of c w1 = Some ls" using b1 ls by simp
    have l0: "links_of c w = Some ls" using l1 agreeD [OF run(1), of linksPath] by (simp add: table_def)
    have "list_all valid_link ?ls" using links_of_valid [OF l1] by (auto simp: list_all_iff)
    note b2 = writeLinks_of [OF s2 this]
    have "agree links_files w1 w3" using b2 b1 by (simp add: agree_def)
    then have ag: "agree (insert lockPath links_files) w w3"
      by (rule agree_trans [OF run(1)]) blast+
    have "named c w3 = named c w" by (rule named_agree [OF ag]) auto
    with nm have nm3: "named c w3" by simp
    have m: "clearMatchingSessionsLocked c (unlink_match pam ?rm) w3 = ((m, None), w')"
      using s3 e by (simp add: clearSessionPAMLocked_def unlink_match_def [abs_def] link_keys_def)
    have nomatch: "\<not> unlink_match pam ?rm (s\<lparr>s_PAMUser := []\<rparr>)" for s by (simp add: unlink_match_def)
    note b3 = clearMatching_cleared [OF m nm3 nomatch]
    have "bytes w' linksPath = bytes w3 linksPath" using b3 unfolding cleared_def by (metis not_session_file(3) path_neq_tmp(1))
    then have l': "links_of c w' = Some ?ls" using b2 wr by (simp add: table_def)
    have "sess_in c w3 x = sess_in c w x" if "is_session_file x" for x
      using sess_in_agree [OF ag, of x] that by auto
    then have "sess_cleared c (unlink_match pam ?rm) w w'"
      using b3 by (auto simp: sess_cleared_def cleared_def)
    then show ?thesis using l0 l' e b3 by auto
  qed simp
qed

end

section \<open>The invariant of the state directory\<close>

text \<open>
  Sessions are stored under their own identifiers, and the two tables have one row per key.
\<close>

definition sinv :: "codec \<Rightarrow> osdir \<Rightarrow> bool" where
  "sinv c w \<longleftrightarrow> named c w \<and>
     (\<forall>ls. links_of c w = Some ls \<longrightarrow> distinct (link_keys ls)) \<and>
     (\<forall>us. subjects_of c w = Some us \<longrightarrow> distinct (map u_Email us))"

lemma sinv_agree:
  assumes "agree X w w'" "\<And>x. x \<in> X \<Longrightarrow> \<not> is_session_file x" "linksPath \<notin> X" "subjectsPath \<notin> X"
  shows "sinv c w' = sinv c w"
  using named_agree [OF assms(1,2)] agreeD [OF assms(1,3)] agreeD [OF assms(1,4)]
  by (simp add: sinv_def table_def)

lemma sinv_bytes: "bytes w' = bytes w \<Longrightarrow> sinv c w \<Longrightarrow> sinv c w'"
  by (simp add: sinv_def named_def sess_in_def table_def)

lemma keep_triple: "(\<And>w r w'. f w = (r, w') \<Longrightarrow> bytes w' = bytes w) \<Longrightarrow> triple (sinv c) f (\<lambda>_. sinv c)"
  using sinv_bytes by (fastforce simp: triple_def split: prod.splits)

lemma withLock_triple:
  assumes "triple (sinv c) fn Q" "\<And>e w. sinv c w \<Longrightarrow> Q (failed e) w"
  shows "triple (sinv c) (withLock failed fn) Q"
proof (unfold triple_def, clarify)
  fix w r w' assume w: "sinv c w" and eq: "withLock failed fn w = (r, w')"
  have lock: "sinv c w1" if "agree {lockPath} w w1" for w1
    using sinv_agree [OF that, of c] w by simp
  from eq show "Q r w'"
  proof (cases rule: withLock_cases)
    case (failed e)
    then show ?thesis using assms(2) lock by blast
  next
    case (run w1)
    then show ?thesis using tripleD [OF assms(1)] lock by blast
  qed
qed

lemma remove_session_triple:
  assumes "n = sess_name i"
  shows "triple (sinv c) (os_remove n) (\<lambda>_. sinv c)"
proof (unfold triple_def, clarify)
  fix w r w' assume w: "sinv c w" and eq: "os_remove n w = (r, w')"
  note b = os_remove_bytes [OF eq]
  have keep: "bytes w' x = bytes w x \<or> bytes w' x = None" for x using b by (cases "x = n") auto
  have "bytes w' linksPath = bytes w linksPath" "bytes w' subjectsPath = bytes w subjectsPath"
    using b assms by auto
  moreover have "sess_in c w' x = Some s \<Longrightarrow> sess_in c w x = Some s" for x s
    using keep [of x] by (auto simp: sess_in_def)
  ultimately show "sinv c w'" using w by (auto simp: sinv_def named_def table_def)
qed

lemma keyfile_triple: "triple (sinv c) (writeStateFile keyPath b) (\<lambda>_. sinv c)"
proof (unfold triple_def, clarify)
  fix w r w' assume w: "sinv c w" and eq: "writeStateFile keyPath b w = (r, w')"
  have a: "agree {keyPath, keyPath @ ''.tmp''} w w'" using writeStateFile_bytes [OF eq] by simp
  have "sinv c w' = sinv c w"
  proof (rule sinv_agree [OF a])
    show "subjectsPath \<notin> {keyPath, keyPath @ ''.tmp''}" by (simp add: subjectsPath_def keyPath_def)
  qed auto
  with w show "sinv c w'" by simp
qed

context json_codec
begin

lemma saveSession_triple:
  assumes "valid_session s"
  shows "triple (sinv c) (saveSession c s) (\<lambda>_. sinv c)"
proof (unfold triple_def, clarify)
  fix w r w' assume w: "sinv c w" and eq: "saveSession c s w = (r, w')"
  have a: "agree (sess_files (s_ID s)) w w'" using saveSession_of [OF eq assms] by simp
  have "bytes w' linksPath = bytes w linksPath" "bytes w' subjectsPath = bytes w subjectsPath"
    using agreeD [OF a] by auto
  moreover have "named c w'" using saveSession_named [OF eq assms] w by (simp add: sinv_def)
  ultimately show "sinv c w'" using w by (simp add: sinv_def table_def)
qed

definition good_links :: "store_error + link list \<Rightarrow> bool" where
  "good_links r \<longleftrightarrow> (\<forall>ls. r = Inr ls \<longrightarrow> list_all valid_link ls \<and> distinct (link_keys ls))"

lemma readLinks_triple: "triple (sinv c) (readLinks c) (\<lambda>r w. good_links r \<and> sinv c w)"
proof (unfold triple_def, clarify)
  fix w r w' assume w: "sinv c w" and eq: "readLinks c w = (r, w')"
  note b = readLinks_of [OF eq]
  have "sinv c w'" using b w sinv_bytes by blast
  moreover have "good_links r"
  proof (cases r)
    case (Inr ls)
    then have "links_of c w = Some ls" using b by simp
    with w links_of_valid Inr show ?thesis by (simp add: good_links_def sinv_def)
  qed (simp add: good_links_def)
  ultimately show "good_links r \<and> sinv c w'" by simp
qed

lemma writeLinks_triple:
  assumes "list_all valid_link ls" "distinct (link_keys ls)"
  shows "triple (sinv c) (writeLinks c ls) (\<lambda>_. sinv c)"
proof (unfold triple_def, clarify)
  fix w r w' assume w: "sinv c w" and eq: "writeLinks c ls w = (r, w')"
  note b = writeLinks_of [OF eq assms(1)]
  have a: "agree links_files w w'" using b by simp
  have "named c w' = named c w" by (rule named_agree [OF a]) auto
  moreover have "bytes w' subjectsPath = bytes w subjectsPath" using agreeD [OF a] by simp
  moreover have "links_of c w' = Some ls \<or> links_of c w' = links_of c w"
    using b by (cases r) (auto simp: table_def)
  ultimately show "sinv c w'" using w assms(2) by (auto simp: sinv_def table_def)
qed

lemma writeSubjects_triple:
  assumes "list_all valid_subject us" "distinct (map u_Email us)"
  shows "triple (sinv c) (writeSubjects c us) (\<lambda>_. sinv c)"
proof (unfold triple_def, clarify)
  fix w r w' assume w: "sinv c w" and eq: "writeSubjects c us w = (r, w')"
  note b = writeSubjects_of [OF eq assms(1)]
  have a: "agree subjects_files w w'" using b by simp
  have "named c w' = named c w" by (rule named_agree [OF a]) auto
  moreover have "bytes w' linksPath = bytes w linksPath" using agreeD [OF a] by simp
  moreover have "subjects_of c w' = Some us \<or> subjects_of c w' = subjects_of c w"
    using b by (cases r) (auto simp: table_def)
  ultimately show "sinv c w'" using w assms(2) by (auto simp: sinv_def table_def)
qed

lemma readSubjects_triple:
  "triple (sinv c) (readSubjects c)
     (\<lambda>r w. (\<forall>us. r = Inr us \<longrightarrow> list_all valid_subject us \<and> distinct (map u_Email us)) \<and> sinv c w)"
proof (unfold triple_def, clarify)
  fix w r w' assume w: "sinv c w" and eq: "readSubjects c w = (r, w')"
  note b = readSubjects_of [OF eq]
  show "(\<forall>us. r = Inr us \<longrightarrow> list_all valid_subject us \<and> distinct (map u_Email us)) \<and> sinv c w'"
  proof (cases r)
    case (Inl e)
    then show ?thesis using b w sinv_bytes by blast
  next
    case (Inr us)
    then have "subjects_of c w = Some us" using b by simp
    moreover have "sinv c w'" using b w sinv_bytes by blast
    ultimately show ?thesis using w subjects_of_valid Inr by (simp add: sinv_def)
  qed
qed

lemma setLinkLocked_triple:
  assumes "valid_utf8 i" "valid_utf8 s" "valid_utf8 u"
  shows "triple (sinv c) (setLinkLocked c i s u) (\<lambda>_. sinv c)"
  unfolding setLinkLocked_def
  by (intro triple_bind [OF readLinks_triple] triple_pure triple_sum triple_return writeLinks_triple)
     (use assms in \<open>auto simp: good_links_def set_link_valid set_link_keys\<close>)

lemma lookup_triple:
  "triple (sinv c) (lookupLinkLocked c i s) (\<lambda>r w. (\<forall>p. r = Inr (Some p) \<longrightarrow> valid_utf8 p) \<and> sinv c w)"
  unfolding lookupLinkLocked_def
  by (intro triple_bind [OF readLinks_triple] triple_pure triple_return)
     (auto simp: good_links_def map_sum_def lookup_valid split: sum.splits)

lemma clear_loop_triple: "triple (sinv c) (clear_loop c match names n) (\<lambda>_. sinv c)"
proof (induction names arbitrary: n)
  case Nil
  then show ?case by (auto intro: triple_return)
next
  case (Cons x names)
  have read: "triple (sinv c) (os_read_file x) (\<lambda>_. sinv c)" by (rule keep_triple) (rule os_keep(5))
  show ?case
    unfolding clear_loop.simps
  proof (intro triple_if triple_bind [OF read] triple_sum triple_return triple_option Cons.IH)
    fix r s e w
    assume "dec_session c r = Some s"
    then have "valid_session (s\<lparr>s_PAMUser := []\<rparr>)" using session_dec by (fastforce simp: valid_session_def)
    then show "triple (sinv c) (\<lambda>w1. case saveSession c (s\<lparr>s_PAMUser := []\<rparr>) w1 of (sr, w2) \<Rightarrow>
                      case sr of Inl e \<Rightarrow> ((n, Some e), w2) | Inr _ \<Rightarrow> clear_loop c match names (Suc n) w2) (\<lambda>_. sinv c)"
      by (intro triple_bind [OF saveSession_triple] triple_sum triple_return Cons.IH)
  qed simp_all
qed

lemma clear_triple: "triple (sinv c) (clearMatchingSessionsLocked c match) (\<lambda>_. sinv c)"
proof -
  have rd: "triple (sinv c) os_read_dir (\<lambda>_. sinv c)" by (rule keep_triple) (rule os_keep(9))
  show ?thesis
    unfolding clearMatchingSessionsLocked_def
    by (intro triple_bind [OF rd] triple_sum triple_return clear_loop_triple)
qed

lemma UnlinkPAM_triple: "triple (sinv c) (UnlinkPAM c pam) (\<lambda>_. sinv c)"
proof -
  have f: "good_links (Inr ls) \<Longrightarrow> list_all valid_link (filter P ls) \<and> distinct (link_keys (filter P ls))" for P ls
    by (auto simp: good_links_def list_all_iff link_keys_def distinct_map_filter)
  show ?thesis
    unfolding UnlinkPAM_def clearSessionPAMLocked_def Let_def
    by (intro triple_if triple_return withLock_triple triple_bind [OF readLinks_triple] triple_pure triple_sum
          triple_bind [OF writeLinks_triple] triple_bind [OF clear_triple])
       (use f in auto)
qed

lemma remove_quiet_triple: "triple (sinv c) (remove_quiet (sess_name i)) (\<lambda>_. sinv c)"
  unfolding remove_quiet_def
  by (intro triple_bind [OF remove_session_triple] triple_sum triple_return) auto

end

context json_codec
begin

lemma putSession_triple:
  assumes "\<And>s. valid_session s \<Longrightarrow> triple (sinv c) (prep s) (\<lambda>r w. (\<forall>t. r = Inr t \<longrightarrow> valid_session t) \<and> sinv c w)"
    and "valid_session s"
  shows "triple (sinv c) (putSession c s ttl prep rnd now) (\<lambda>_. sinv c)"
proof -
  have v: "valid_session (s\<lparr>s_ID := hex_encode b, s_Expires := t\<rparr>)" for b t
    using assms(2) valid_utf8_ascii [OF hex_encode_ascii] by (simp add: valid_session_def)
  show ?thesis
    unfolding putSession_def randomID_def
    by (cases rnd)
       (auto intro!: triple_return withLock_triple triple_bind [OF assms(1) [OF v]] triple_pure triple_sum
          triple_bind [OF saveSession_triple])
qed

lemma CreateSession_triple:
  assumes "valid_utf8 iss" "valid_utf8 sub" "valid_utf8 email"
  shows "triple (sinv c) (CreateSession c iss sub email ttl rnd now) (\<lambda>_. sinv c)"
proof -
  have v: "valid_session (empty_session\<lparr>s_Iss := iss, s_Sub := sub, s_Email := email\<rparr>)"
    using assms by (simp add: valid_session_def empty_session_def)
  show ?thesis
    unfolding CreateSession_def
  proof (rule putSession_triple [OF _ v])
    fix s assume s: "valid_session s"
    show "triple (sinv c) (\<lambda>w. case lookupLinkLocked c iss sub w of (r, w1) \<Rightarrow> case r of
            Inl e \<Rightarrow> (Inl e, w1)
          | Inr pam \<Rightarrow> (Inr (case pam of None \<Rightarrow> s | Some p \<Rightarrow> s\<lparr>s_PAMUser := p\<rparr>), w1))
       (\<lambda>r w. (\<forall>t. r = Inr t \<longrightarrow> valid_session t) \<and> sinv c w)"
      by (intro triple_bind [OF lookup_triple] triple_pure triple_sum triple_return)
         (use s in \<open>auto simp: valid_session_def split: option.splits\<close>)
  qed
qed

lemma CreatePAMSession_triple:
  assumes "valid_utf8 u"
  shows "triple (sinv c) (CreatePAMSession c u ttl rnd now) (\<lambda>_. sinv c)"
  unfolding CreatePAMSession_def
  by (intro triple_if triple_return putSession_triple)
     (use assms in \<open>auto simp: valid_session_def empty_session_def\<close>)

lemma GetSession_triple: "triple (sinv c) (GetSession c i now) (\<lambda>_. sinv c)"
proof -
  have rd: "triple (sinv c) (os_read_file p) (\<lambda>_. sinv c)" for p by (rule keep_triple) (rule os_keep(5))
  show ?thesis
    unfolding GetSession_def
    by (intro triple_option triple_return triple_bind [OF rd] triple_sum triple_if
          triple_bind [OF remove_session_triple]) (auto dest: sessionPath_Some)
qed

lemma SaveSession_triple:
  "(\<And>t. s = Some t \<Longrightarrow> valid_session t) \<Longrightarrow> triple (sinv c) (SaveSession c s) (\<lambda>_. sinv c)"
  unfolding SaveSession_def
  by (intro withLock_triple triple_option triple_return saveSession_triple) auto

lemma DeleteSession_triple: "triple (sinv c) (DeleteSession i) (\<lambda>_. sinv c)"
  unfolding DeleteSession_def
  by (cases "sessionPath i") (auto intro!: triple_return remove_quiet_triple dest!: sessionPath_Some)

lemma EnsureCryptoKey_triple: "triple (sinv c) (EnsureCryptoKey ex rnd) (\<lambda>_. sinv c)"
proof -
  have rd: "triple (sinv c) (os_read_file keyPath) (\<lambda>_. sinv c)" by (rule keep_triple) (rule os_keep(5))
  show ?thesis
    unfolding EnsureCryptoKey_def
    by (intro triple_if triple_return withLock_triple triple_bind [OF rd] triple_option
          triple_bind [OF keyfile_triple] triple_sum)
qed

lemma SetLink_triple:
  "valid_utf8 i \<Longrightarrow> valid_utf8 s \<Longrightarrow> valid_utf8 u \<Longrightarrow> triple (sinv c) (SetLink c i s u) (\<lambda>_. sinv c)"
  unfolding SetLink_def by (intro withLock_triple setLinkLocked_triple)

lemma BindSubject_triple:
  assumes "valid_utf8 email" "valid_utf8 i" "valid_utf8 s"
  shows "triple (sinv c) (BindSubject c email i s) (\<lambda>_. sinv c)"
  unfolding BindSubject_def
  by (intro triple_if triple_return withLock_triple triple_bind [OF readSubjects_triple] triple_pure triple_sum
        triple_option writeSubjects_triple)
     (use assms in \<open>auto simp: valid_subject_def find_None_iff\<close>)

lemma clearSubject_triple: "triple (sinv c) (clearSubjectPAMLocked c i s x) (\<lambda>_. sinv c)"
  unfolding clearSubjectPAMLocked_def by (intro triple_bind [OF clear_triple] triple_return)

lemma saveLinked_triple:
  assumes "valid_session s" "valid_utf8 u"
  shows "triple (sinv c) (saveLinkedLocked c s u rnd) (\<lambda>_. sinv c)"
proof -
  have v: "valid_utf8 (s_Iss s)" "valid_utf8 (s_Sub s)" "valid_session (s\<lparr>s_ID := hex_encode b, s_PAMUser := u\<rparr>)" for b
    using assms valid_utf8_ascii [OF hex_encode_ascii] by (simp_all add: valid_session_def)
  have rm: "triple (sinv c) (\<lambda>w3. case sessionPath i of None \<Rightarrow> (Inr (), w3)
      | Some path \<Rightarrow> if i \<noteq> j then remove_quiet path w3 else (Inr (), w3)) (\<lambda>_. sinv c)" for i j
    by (cases "sessionPath i") (auto intro!: triple_if triple_return remove_quiet_triple dest!: sessionPath_Some)
  show ?thesis
    unfolding saveLinkedLocked_def randomID_def Let_def
    by (cases rnd)
       (auto intro!: triple_bind [OF lookup_triple] triple_pure triple_return triple_sum
          triple_bind [OF setLinkLocked_triple] triple_bind [OF saveSession_triple] triple_bind [OF rm]
          triple_bind [OF clearSubject_triple] triple_if v assms)
qed

lemma SaveLinkedSession_triple:
  "valid_session s \<Longrightarrow> valid_utf8 u \<Longrightarrow> triple (sinv c) (SaveLinkedSession c s u rnd) (\<lambda>_. sinv c)"
  unfolding SaveLinkedSession_def by (intro withLock_triple saveLinked_triple)

lemma read_triples:
  "triple (sinv c) (LookupLink c i s) (\<lambda>_. sinv c)"
  "triple (sinv c) (ListLinks c) (\<lambda>_. sinv c)"
  "triple (sinv c) (LinkedPAMUsers c) (\<lambda>_. sinv c)"
  unfolding LookupLink_def ListLinks_def LinkedPAMUsers_def
  by (intro withLock_triple triple_conseq [OF lookup_triple] triple_bind [OF readLinks_triple] triple_pure
        triple_return; simp)+

end

lemma reclaim_loop_bytes: "bytes (reclaim_loop u g es w) = bytes w"
proof (induction u g es w rule: reclaim_loop.induct)
  case (2 uid gid n isdir es w)
  then show ?case using osutil_keep(2) [of n uid gid w] by (cases "Osutil.Chown n uid gid w") auto
qed simp

lemma reclaimState_bytes: "bytes (reclaimState w) = bytes w"
  by (auto simp: reclaimState_def reclaim_loop_bytes split: prod.splits sum.splits dest!: os_keep)

lemma OpenStore_bytes: "OpenStore w = (r, w') \<Longrightarrow> bytes w' = bytes w"
  by (auto simp: OpenStore_def reclaimState_bytes split: prod.splits sum.splits if_splits dest!: os_keep)

section \<open>Reachable states\<close>

text \<open>
  One step of the store: a call of any exported operation with any arguments whose strings are
  valid UTF-8, run to its end on whatever faults are pending, or the environment setting
  which of the next system calls fail.
\<close>

inductive store_step :: "codec \<Rightarrow> osdir \<Rightarrow> osdir \<Rightarrow> bool" for c where
  Faults: "store_step c w (w\<lparr>od_faults := fs\<rparr>)"
| Open: "store_step c w (snd (OpenStore w))"
| Key: "store_step c w (snd (EnsureCryptoKey ex rnd w))"
| Create: "valid_utf8 iss \<Longrightarrow> valid_utf8 sub \<Longrightarrow> valid_utf8 email \<Longrightarrow>
    store_step c w (snd (CreateSession c iss sub email ttl rnd now w))"
| CreatePAM: "valid_utf8 u \<Longrightarrow> store_step c w (snd (CreatePAMSession c u ttl rnd now w))"
| Get: "store_step c w (snd (GetSession c i now w))"
| Save: "valid_session s \<Longrightarrow> store_step c w (snd (SaveSession c (Some s) w))"
| Delete: "store_step c w (snd (DeleteSession i w))"
| Lookup: "store_step c w (snd (LookupLink c iss sub w))"
| List: "store_step c w (snd (ListLinks c w))"
| Users: "store_step c w (snd (LinkedPAMUsers c w))"
| Set: "valid_utf8 iss \<Longrightarrow> valid_utf8 sub \<Longrightarrow> valid_utf8 u \<Longrightarrow> store_step c w (snd (SetLink c iss sub u w))"
| SaveLinked: "valid_session s \<Longrightarrow> valid_utf8 u \<Longrightarrow> store_step c w (snd (SaveLinkedSession c s u rnd w))"
| Unlink: "store_step c w (snd (UnlinkPAM c u w))"
| Bind: "valid_utf8 email \<Longrightarrow> valid_utf8 iss \<Longrightarrow> valid_utf8 sub \<Longrightarrow>
    store_step c w (snd (BindSubject c email iss sub w))"

lemma triple_snd: "triple P f (\<lambda>_. P) \<Longrightarrow> P w \<Longrightarrow> P (snd (f w))"
  by (cases "f w") (auto dest: tripleD)

context json_codec
begin

lemmas op_triples = EnsureCryptoKey_triple CreateSession_triple CreatePAMSession_triple GetSession_triple
  SaveSession_triple DeleteSession_triple read_triples SetLink_triple SaveLinkedSession_triple
  UnlinkPAM_triple BindSubject_triple

lemma store_step_sinv: "store_step c w w' \<Longrightarrow> sinv c w \<Longrightarrow> sinv c w'"
proof (induction rule: store_step.induct)
  case (Faults w fs)
  then show ?case by (auto elim: sinv_bytes [rotated])
next
  case (Open w)
  then show ?case using OpenStore_bytes [of w] sinv_bytes by (cases "OpenStore w") auto
qed (auto intro!: triple_snd [where P = "sinv c"] op_triples)

lemma reachable_sinv: "(store_step c)\<^sup>*\<^sup>* w w' \<Longrightarrow> sinv c w \<Longrightarrow> sinv c w'"
  by (induction rule: rtranclp_induct) (auto intro: store_step_sinv)

end

end
