(* ===== verification/Net_Codec.thy ===== *)
theory Net_Codec
  imports Session_Store
begin

text \<open>
  A concrete encoding that satisfies the laws of \<open>json_codec\<close>: every string is written with
  its length before it. It stands for \<open>encoding/json\<close> in the concrete runs; the store's
  theorems hold for every codec with the laws.
\<close>

section \<open>Lists of strings\<close>

definition enc_str :: "string \<Rightarrow> string" where
  "enc_str s = show_nat (length s) @ CHR '':'' # s"

definition enc_strs :: "string list \<Rightarrow> string" where
  "enc_strs ss = concat (map enc_str ss)"

definition dec_str :: "string \<Rightarrow> (string \<times> string) option" where
  "dec_str b =
     (case dropWhile is_digit b of
        [] \<Rightarrow> None
      | x # r \<Rightarrow>
          (case read_nat (takeWhile is_digit b) of
             None \<Rightarrow> None
           | Some n \<Rightarrow> if n \<le> length r then Some (take n r, drop n r) else None))"

fun dec_strs :: "nat \<Rightarrow> string \<Rightarrow> string list option" where
  "dec_strs 0 b = (if b = [] then Some [] else None)"
| "dec_strs (Suc k) b =
     (if b = [] then Some []
      else (case dec_str b of
              None \<Rightarrow> None
            | Some (s, r) \<Rightarrow> map_option ((#) s) (dec_strs k r)))"

lemma colon_no_digit: "\<not> is_digit (CHR '':'')"
  by (simp add: is_digit_def byte_of_def)

lemma dec_enc_str: "dec_str (enc_str s @ r) = Some (s, r)"
proof -
  have d: "takeWhile is_digit (show_nat n @ CHR '':'' # x) = show_nat n"
    "dropWhile is_digit (show_nat n @ CHR '':'' # x) = CHR '':'' # x" for n x
    using show_nat_digits [of n] colon_no_digit by (auto simp: list_all_iff)
  show ?thesis by (simp add: dec_str_def enc_str_def d)
qed

lemma dec_enc_strs: "length ss \<le> k \<Longrightarrow> dec_strs k (enc_strs ss) = Some ss"
proof (induction ss arbitrary: k)
  case Nil
  then show ?case by (cases k) (auto simp: enc_strs_def)
next
  case (Cons s ss)
  then obtain j where k: "k = Suc j" by (cases k) auto
  have "enc_strs (s # ss) = enc_str s @ enc_strs ss" by (simp add: enc_strs_def)
  moreover have "enc_str s @ enc_strs ss \<noteq> []" by (simp add: enc_str_def)
  ultimately show ?case using Cons k by (simp add: dec_enc_str)
qed

lemma length_enc_strs: "length ss \<le> length (enc_strs ss)"
  by (induction ss) (auto simp: enc_strs_def enc_str_def)

definition dec_all :: "string \<Rightarrow> string list option" where
  "dec_all b = dec_strs (length b) b"

lemma dec_all_enc [simp]: "dec_all (enc_strs ss) = Some ss"
  by (simp add: dec_all_def dec_enc_strs length_enc_strs)

section \<open>The codec\<close>

definition session_strs :: "session \<Rightarrow> string list" where
  "session_strs s = [s_ID s, s_Iss s, s_Sub s, s_PAMUser s, s_Email s, show_int (s_Expires s)]"

definition strs_session :: "string list \<Rightarrow> session option" where
  "strs_session ss = (case ss of [a, b, d, e, f, t] \<Rightarrow>
       (case parse_int64 t of None \<Rightarrow> None | Some x \<Rightarrow>
          let s = \<lparr>s_ID = a, s_Iss = b, s_Sub = d, s_PAMUser = e, s_Email = f, s_Expires = x\<rparr>
          in if valid_session s then Some s else None)
     | _ \<Rightarrow> None)"

fun triples :: "string list \<Rightarrow> (string \<times> string \<times> string) list option" where
  "triples [] = Some []"
| "triples (a # b # c # r) = map_option ((#) (a, b, c)) (triples r)"
| "triples _ = None"

definition net_codec :: codec where
  "net_codec = \<lparr>
     enc_session = (\<lambda>s. if - (2 ^ 63) \<le> s_Expires s \<and> s_Expires s < 2 ^ 63
       then Some (enc_strs (session_strs s)) else None),
     dec_session = (\<lambda>b. Option.bind (dec_all b) strs_session),
     enc_links = (\<lambda>ls. Some (enc_strs (concat (map (\<lambda>l. [l_Issuer l, l_Subject l, l_PAMUser l]) ls)))),
     dec_links = (\<lambda>b. Option.bind (dec_all b) (\<lambda>ss. Option.bind (triples ss) (\<lambda>ts.
       let ls = map (\<lambda>(i, s, u). \<lparr>l_Issuer = i, l_Subject = s, l_PAMUser = u\<rparr>) ts
       in if list_all valid_link ls then Some ls else None))),
     enc_subjects = (\<lambda>us. Some (enc_strs (concat (map (\<lambda>u. [u_Email u, u_Issuer u, u_Subject u]) us)))),
     dec_subjects = (\<lambda>b. Option.bind (dec_all b) (\<lambda>ss. Option.bind (triples ss) (\<lambda>ts.
       let us = map (\<lambda>(e, i, s). \<lparr>u_Email = e, u_Issuer = i, u_Subject = s\<rparr>) ts
       in if list_all valid_subject us then Some us else None)))\<rparr>"

lemma triples_concat: "triples (concat (map (\<lambda>x. [f x, g x, h x]) xs)) = Some (map (\<lambda>x. (f x, g x, h x)) xs)"
  by (induction xs) auto

lemma row_eta [simp]:
  "\<lparr>l_Issuer = l_Issuer l, l_Subject = l_Subject l, l_PAMUser = l_PAMUser l\<rparr> = l"
  "\<lparr>u_Email = u_Email u, u_Issuer = u_Issuer u, u_Subject = u_Subject u\<rparr> = u"
  by (cases l, simp) (cases u, simp)

lemma strs_session_valid: "strs_session ss = Some s \<Longrightarrow> valid_session s"
  by (auto simp: strs_session_def Let_def split: list.splits option.splits if_splits)

interpretation net: json_codec net_codec
proof (unfold_locales, goal_cases)
  case (1 s b)
  then show ?case
    by (auto simp: net_codec_def session_strs_def strs_session_def parse_show_int Let_def valid_session_def split: if_splits)
next
  case (2 b s)
  then show ?case
    by (auto simp: net_codec_def bind_eq_Some_conv dest: strs_session_valid)
qed (auto simp: net_codec_def triples_concat Let_def comp_def bind_eq_Some_conv split: if_splits)

end
