(* ===== verification/Store_Properties.thy ===== *)
theory Store_Properties
  imports Net_Codec
begin

text \<open>
  The properties of \<open>internal/store\<close>: atomic writes under every fault, the link table, pinned
  subjects, the life of a session, unlinking, and the invariant of all reachable states. The
  concrete runs use the codec of \<open>Net_Codec\<close> on small directories.
\<close>

section \<open>Concrete directories\<close>

definition st_dir :: ofile where
  "st_dir = \<lparr>f_bytes = [], f_bits = 0x1C0, f_uid = 7, f_gid = 8, f_isdir = True\<rparr>"

definition st_empty :: osdir where
  "st_empty = \<lparr>od_self = Some st_dir, od_files = [], od_faults = []\<rparr>"

text \<open>An alice linked to a Google subject, with one session.\<close>

definition st_linked :: osdir where
  "st_linked = snd (CreateSession net_codec ''google'' ''g1'' ''a@x'' 100 (Some ''K'') 1000
     (snd (SetLink net_codec ''google'' ''g1'' ''alice'' st_empty)))"

lemma st_empty_bytes: "bytes st_empty n = None"
  by (simp add: st_empty_def bytes_def fget_def)

lemma st_empty_sinv: "sinv net_codec st_empty"
  by (simp add: sinv_def named_def sess_in_def table_def st_empty_bytes link_keys_def)

lemma demo_valid:
  "valid_utf8 ''google''" "valid_utf8 ''g1''" "valid_utf8 ''g2''" "valid_utf8 ''a@x''" "valid_utf8 ''alice''"
  by (rule valid_utf8_ascii, simp add: is_ascii_def byte_of_def)+

section \<open>Files\<close>

text \<open>
  C7. \<open>writeStateFile\<close> is atomic however its system calls fail: the named file holds the new
  bytes when it returns without error and the old ones otherwise, and no file other than it
  and its temporary file changes.
\<close>

theorem writeStateFile_atomic:
  "case writeStateFile n b w of (r, w') \<Rightarrow>
     (\<forall>x. x \<noteq> n \<and> x \<noteq> n @ ''.tmp'' \<longrightarrow> bytes w' x = bytes w x) \<and>
     bytes w' n = (case r of Inl _ \<Rightarrow> bytes w n | Inr _ \<Rightarrow> Some b)"
  using writeStateFile_bytes [of n b w] by (auto simp: agree_def split: prod.splits sum.splits)

lemma demo_write: "fst (writeStateFile ''links.json'' ''new''
    (st_empty\<lparr>od_faults := [None, None, None, None, None, Some (EIO, 0)]\<rparr>)) = Inl (OsErr EIO)"
  by code_simp

theorem writeStateFile_atomic_witness:
  "(case writeStateFile ''links.json'' ''new''
      (st_empty\<lparr>od_faults := [None, None, None, None, None, Some (EIO, 0)]\<rparr>) of (r, w') \<Rightarrow>
     r = Inl (OsErr EIO) \<and> bytes w' ''links.json'' = None)"
  using writeStateFile_atomic [where n = "''links.json''" and b = "''new''" and w =
      "st_empty\<lparr>od_faults := [None, None, None, None, None, Some (EIO, 0)]\<rparr>"] demo_write
  by (auto simp: st_empty_bytes split: prod.splits)

text \<open>
  C8. \<open>SetLink\<close> updates the table like a map: after success a lookup of the subject gives the new
  user and every other subject keeps its user; after an error the table is unchanged. Either
  way no session and no pinned subject is touched.
\<close>

theorem SetLink_lookup:
  assumes "json_codec c" "SetLink c iss sub u w = (r, w')" "valid_utf8 iss" "valid_utf8 sub" "valid_utf8 u"
  shows "(case r of
      Inl _ \<Rightarrow> links_of c w' = links_of c w
    | Inr _ \<Rightarrow> \<exists>ls ls'. links_of c w = Some ls \<and> links_of c w' = Some ls' \<and>
        (\<forall>i s. lookup_links ls' i s = (if i = iss \<and> s = sub then Some u else lookup_links ls i s))) \<and>
    subjects_of c w' = subjects_of c w \<and> (\<forall>x. is_session_file x \<longrightarrow> sess_in c w' x = sess_in c w x)"
proof -
  note b = json_codec.SetLink_of [OF assms]
  have a: "agree (insert lockPath links_files) w w'" using b by simp
  have "subjects_of c w' = subjects_of c w" using agreeD [OF a, of subjectsPath] by (simp add: table_def)
  moreover have "sess_in c w' x = sess_in c w x" if "is_session_file x" for x
    using sess_in_agree [OF a, of x] that by auto
  ultimately show ?thesis
    using b by (auto simp: links.lookup_assign split: sum.splits)
qed

lemma demo_set: "SetLink net_codec ''google'' ''g1'' ''alice'' st_empty =
    (Inr (), snd (SetLink net_codec ''google'' ''g1'' ''alice'' st_empty))"
  by code_simp

theorem SetLink_lookup_witness:
  "\<exists>ls. links_of net_codec (snd (SetLink net_codec ''google'' ''g1'' ''alice'' st_empty)) = Some ls \<and>
     lookup_links ls ''google'' ''g1'' = Some ''alice''"
  using SetLink_lookup [OF net.json_codec_axioms demo_set demo_valid(1,2,5)] by fastforce

section \<open>Pinned subjects\<close>

text \<open>
  C9. \<open>BindSubject\<close> pins an address once and for all: success means the address is pinned to
  the presented subject; no call, successful or not, changes the subject an address is already
  pinned to, and no call affects other addresses.
\<close>

theorem BindSubject_pins:
  assumes "json_codec c" "BindSubject c email iss sub w = (r, w')"
    and "valid_utf8 email" "valid_utf8 iss" "valid_utf8 sub"
  shows "case r of
      Inl _ \<Rightarrow> subjects_of c w' = subjects_of c w
    | Inr _ \<Rightarrow> \<exists>us us'. subjects_of c w = Some us \<and> subjects_of c w' = Some us' \<and>
        pin us' email = Some (iss, sub) \<and> (\<forall>a p. pin us a = Some p \<longrightarrow> pin us' a = Some p) \<and>
        (\<forall>a. a \<noteq> email \<longrightarrow> pin us' a = pin us a)"
  using json_codec.BindSubject_post [OF assms] by (simp add: bind_post_def)

definition st_bound :: osdir where
  "st_bound = snd (BindSubject net_codec ''a@x'' ''google'' ''g1'' st_empty)"

lemma demo_bind: "BindSubject net_codec ''a@x'' ''google'' ''g2'' st_bound =
    (Inl ErrSubjectMismatch, snd (BindSubject net_codec ''a@x'' ''google'' ''g2'' st_bound))"
  by code_simp

theorem BindSubject_pins_witness:
  "fst (BindSubject net_codec ''a@x'' ''google'' ''g2'' st_bound) = Inl ErrSubjectMismatch \<and>
   subjects_of net_codec (snd (BindSubject net_codec ''a@x'' ''google'' ''g2'' st_bound)) = subjects_of net_codec st_bound"
proof
  show "fst (BindSubject net_codec ''a@x'' ''google'' ''g2'' st_bound) = Inl ErrSubjectMismatch"
    by (subst demo_bind) simp
  show "subjects_of net_codec (snd (BindSubject net_codec ''a@x'' ''google'' ''g2'' st_bound)) = subjects_of net_codec st_bound"
    using BindSubject_pins [OF net.json_codec_axioms demo_bind demo_valid(4,1,3)] by simp
qed

section \<open>Sessions\<close>

text \<open>
  C10. A session that \<open>CreateSession\<close> returns carries the linked user of its subject and can be
  loaded by its identifier until it expires; once it has expired, loading it reports a missing
  session and removes the file.
\<close>

theorem session_life:
  assumes "json_codec c" "CreateSession c iss sub email ttl rnd now w = (Inr s, w')" "od_faults w' = []"
    and "valid_utf8 iss" "valid_utf8 sub" "valid_utf8 email"
  shows "GetSession c (s_ID s) t w' =
      (if t > now + ttl then (Inl ErrNotExist, fdel (sess_name (s_ID s)) w') else (Inr s, w')) \<and>
    (\<exists>ls. links_of c w = Some ls \<and> s_Iss s = iss \<and> s_Sub s = sub \<and> s_Email s = email \<and>
       s_PAMUser s = (case lookup_links ls iss sub of None \<Rightarrow> [] | Some p \<Rightarrow> p))"
proof -
  note b = json_codec.CreateSession_of [OF assms(1,2,4-6)]
  then have "s_Expires s = now + ttl" by auto
  then show ?thesis using GetSession_of [OF assms(3), of c "s_ID s" s t] b by auto
qed

definition st_set :: osdir where
  "st_set = snd (SetLink net_codec ''google'' ''g1'' ''alice'' st_empty)"

definition demo_session :: session where
  "demo_session = \<lparr>s_ID = ''4b'', s_Iss = ''google'', s_Sub = ''g1'', s_PAMUser = ''alice'',
     s_Email = ''a@x'', s_Expires = 1100\<rparr>"

lemma demo_create: "CreateSession net_codec ''google'' ''g1'' ''a@x'' 100 (Some ''K'') 1000 st_set =
    (Inr demo_session, snd (CreateSession net_codec ''google'' ''g1'' ''a@x'' 100 (Some ''K'') 1000 st_set))"
  by code_simp

lemma demo_create_faults:
  "od_faults (snd (CreateSession net_codec ''google'' ''g1'' ''a@x'' 100 (Some ''K'') 1000 st_set)) = []"
  by code_simp

theorem session_life_witness:
  "fst (GetSession net_codec ''4b'' 1100 (snd (CreateSession net_codec ''google'' ''g1'' ''a@x'' 100 (Some ''K'') 1000 st_set)))
     = Inr demo_session \<and>
   fst (GetSession net_codec ''4b'' 1101 (snd (CreateSession net_codec ''google'' ''g1'' ''a@x'' 100 (Some ''K'') 1000 st_set)))
     = Inl ErrNotExist"
  using session_life [OF net.json_codec_axioms demo_create demo_create_faults demo_valid(1,2,4), of 1100]
    session_life [OF net.json_codec_axioms demo_create demo_create_faults demo_valid(1,2,4), of 1101]
  by (simp add: demo_session_def)


lemma demo_unlink: "UnlinkPAM net_codec ''alice'' st_linked =
    (([\<lparr>l_Issuer = ''google'', l_Subject = ''g1'', l_PAMUser = ''alice''\<rparr>], 1, None),
     snd (UnlinkPAM net_codec ''alice'' st_linked))"
  by code_simp

lemma st_linked_named: "named net_codec st_linked"
proof -
  have "sinv net_codec st_linked"
    unfolding st_linked_def
    by (intro triple_snd [OF net.CreateSession_triple] triple_snd [OF net.SetLink_triple] demo_valid st_empty_sinv)
  then show ?thesis by (simp add: sinv_def)
qed


section \<open>Reachable states\<close>

text \<open>
  C12. In every state the store can reach from an empty directory, by any sequence of its
  operations and with any system calls failing, every session file holds the session with the
  identifier of its name, no subject has two links and no address two pins.
\<close>

theorem store_invariant:
  assumes "json_codec c" "(store_step c)\<^sup>*\<^sup>* w w'" "od_files w = []"
  shows "(\<forall>n s. is_session_file n \<longrightarrow> sess_in c w' n = Some s \<longrightarrow> n = sess_name (s_ID s)) \<and>
    (\<forall>ls. links_of c w' = Some ls \<longrightarrow> distinct (link_keys ls)) \<and>
    (\<forall>us. subjects_of c w' = Some us \<longrightarrow> distinct (map u_Email us))"
proof -
  have "bytes w n = None" for n using assms(3) by (simp add: bytes_def fget_def)
  then have "sinv c w" by (simp add: sinv_def named_def sess_in_def table_def link_keys_def)
  from json_codec.reachable_sinv [OF assms(1,2) this] show ?thesis by (simp add: sinv_def named_def)
qed

theorem store_invariant_witness:
  "(store_step net_codec)\<^sup>*\<^sup>* st_empty st_set \<and>
   (\<exists>ls. links_of net_codec st_set = Some ls \<and> ls \<noteq> [] \<and> distinct (link_keys ls))"
proof -
  have s: "(store_step net_codec)\<^sup>*\<^sup>* st_empty st_set"
    unfolding st_set_def by (intro r_into_rtranclp store_step.Set demo_valid)
  have l: "links_of net_codec st_set = Some [\<lparr>l_Issuer = ''google'', l_Subject = ''g1'', l_PAMUser = ''alice''\<rparr>]"
    by code_simp
  have e: "od_files st_empty = []" by (simp add: st_empty_def)
  show ?thesis
    using store_invariant [OF net.json_codec_axioms s e] s l by blast
qed

end
