(* ===== verification/Pamauth.thy ===== *)
theory Pamauth
  imports Session_Store
begin

text \<open>
  Package \<open>internal/pamauth\<close> and the setuid helper \<open>cmd/bootstash-pam\<close>: which names may be
  authenticated, how the daemon calls the helper, and how the helper calls PAM.

  Parameters: the passwd and group databases (\<open>users\<close>, \<open>groups\<close>), running a program
  (\<open>exec\<close>) and libpam (\<open>pam\<close>), each with the outcomes the code distinguishes.
\<close>

section \<open>Names\<close>

definition validASCIIToken :: "string \<Rightarrow> bool" where
  "validASCIIToken name \<longleftrightarrow>
     \<not> contains_any name [slash, backslash, CHR '':'', nul] \<and>
     list_all (\<lambda>r. r \<le> 127 \<and> (in_range 65 90 r \<or> in_range 97 122 r \<or> in_range 48 57 r \<or> r \<in> {95, 45, 46})) (runes name)"

definition ValidService :: "string \<Rightarrow> bool" where
  "ValidService name \<longleftrightarrow> (name = [] \<or> (\<not> length name > 64 \<and> validASCIIToken name))"

definition ValidUsername :: "string \<Rightarrow> bool" where
  "ValidUsername name \<longleftrightarrow>
     \<not> (name = [] \<or> name = dot \<or> name = dotdot \<or> \<not> is_local name) \<and> validASCIIToken name"

section \<open>Accounts\<close>

record account =
  a_Name :: string
  a_UID :: int
  a_GID :: int

datatype auth_error = ErrDenied | AuthFailed | ErrUnavailable

text \<open>The databases give the name, uid and gid fields of an entry as text.\<close>

type_synonym user_db = "string \<Rightarrow> (string \<times> string \<times> string) option"
type_synonym group_db = "string \<Rightarrow> string option"

definition Lookup :: "user_db \<Rightarrow> string \<Rightarrow> auth_error + account" where
  "Lookup users name =
     (if \<not> ValidUsername name then Inl ErrDenied
      else (case users name of
              None \<Rightarrow> Inl AuthFailed
            | Some (n, us, gs) \<Rightarrow>
                (case parse_int64 us of
                   None \<Rightarrow> Inl AuthFailed
                 | Some uid \<Rightarrow>
                     (case parse_int64 gs of
                        None \<Rightarrow> Inl AuthFailed
                      | Some gid \<Rightarrow> Inr \<lparr>a_Name = n, a_UID = uid, a_GID = gid\<rparr>))))"

definition Linkable :: "account option \<Rightarrow> bool" where
  "Linkable a = (case a of None \<Rightarrow> False | Some x \<Rightarrow> a_UID x \<noteq> 0)"

definition LookupGroupGID :: "group_db \<Rightarrow> string \<Rightarrow> int option" where
  "LookupGroupGID groups name = Option.bind (groups name) parse_int64"

section \<open>The helper and the daemon\<close>

definition DefaultService :: string where "DefaultService = ''bootstashd''"
definition DefaultHelperPath :: string where "DefaultHelperPath = ''/usr/lib/bootstash/pam''"

record helper =
  h_Path :: string
  h_Service :: string

text \<open>Running a program: it exits 0, exits otherwise (or is killed), or cannot be run.\<close>

datatype exec_result = ExecOk | ExecExit | ExecError

text \<open>\<open>denied users username\<close>: the account exists and must not be linked.\<close>

definition denied :: "user_db \<Rightarrow> string \<Rightarrow> bool" where
  "denied users username = (case Lookup users username of Inl _ \<Rightarrow> False | Inr a \<Rightarrow> \<not> Linkable (Some a))"

definition Authenticate ::
  "user_db \<Rightarrow> (string \<Rightarrow> string list \<Rightarrow> string \<Rightarrow> exec_result) \<Rightarrow> helper \<Rightarrow> string \<Rightarrow> string \<Rightarrow> auth_error option" where
  "Authenticate users exec h username password =
     (if \<not> ValidUsername username then Some ErrDenied
      else let svc = (if h_Service h = [] then DefaultService else h_Service h) in
        if \<not> ValidService svc then Some ErrDenied
        else if denied users username then Some ErrDenied
        else (case exec (if h_Path h = [] then DefaultHelperPath else h_Path h) [svc, username] password of
                ExecOk \<Rightarrow> None
              | ExecExit \<Rightarrow> Some ErrDenied
              | ExecError \<Rightarrow> Some AuthFailed))"

text \<open>libpam: whether the transaction starts, authenticates and passes account management.\<close>

datatype pam_result = PamNoStart | PamAuthFail | PamAcctFail | PamOk

definition Run ::
  "user_db \<Rightarrow> (string \<Rightarrow> string \<Rightarrow> string \<Rightarrow> pam_result) \<Rightarrow> string \<Rightarrow> string \<Rightarrow> string \<Rightarrow> auth_error option" where
  "Run users pam service username password =
     (if \<not> ValidUsername username \<or> \<not> ValidService service then Some ErrDenied
      else if denied users username then Some ErrDenied
      else (case pam (if service = [] then DefaultService else service) username password of
              PamNoStart \<Rightarrow> Some AuthFailed
            | PamAuthFail \<Rightarrow> Some ErrDenied
            | PamAcctFail \<Rightarrow> Some ErrDenied
            | PamOk \<Rightarrow> None))"

text \<open>
  \<open>run\<close> of the helper: its exit status. \<open>stdin\<close> is \<open>None\<close> when reading fails; at most 8192
  bytes are read.
\<close>

definition helper_run ::
  "user_db \<Rightarrow> (string \<Rightarrow> string \<Rightarrow> string \<Rightarrow> pam_result) \<Rightarrow> string list \<Rightarrow> string option \<Rightarrow> nat" where
  "helper_run users pam args stdin =
     (if length args \<noteq> 3 then 2
      else (case stdin of
              None \<Rightarrow> 1
            | Some pass \<Rightarrow>
                (let s = trim_suffix (trim_suffix (take 8192 pass) [CHR 0x0A]) [CHR 0x0D] in
                 case Run users pam (args ! 1) (args ! 2) s of Some _ \<Rightarrow> 1 | None \<Rightarrow> 0)))"

text \<open>The daemon's call of the packaged helper.\<close>

definition helper_exec ::
  "user_db \<Rightarrow> (string \<Rightarrow> string \<Rightarrow> string \<Rightarrow> pam_result) \<Rightarrow> string \<Rightarrow> string list \<Rightarrow> string \<Rightarrow> exec_result" where
  "helper_exec users pam path args stdin =
     (if helper_run users pam (path # args) (Some stdin) = 0 then ExecOk else ExecExit)"

text \<open>
  \<open>New\<close>: the helper when its path is an executable file, else PAM in the process, which this
  build may lack. \<open>stat\<close> gives whether the path is a directory and its permission bits.
\<close>

datatype authenticator = ByHelper helper | InProcess string

definition New :: "(string \<Rightarrow> (bool \<times> 32 word) option) \<Rightarrow> string \<Rightarrow> string \<Rightarrow> authenticator" where
  "New stat service helperPath =
     (let p = (if helperPath = [] then DefaultHelperPath else helperPath) in
      if (case stat p of None \<Rightarrow> False | Some (isdir, m) \<Rightarrow> \<not> isdir \<and> and m 0x49 \<noteq> 0)
      then ByHelper \<lparr>h_Path = p, h_Service = service\<rparr> else InProcess service)"

section \<open>Lemmas\<close>

lemma ValidUsername_plain:
  assumes "ValidUsername name"
  shows "plain_name name" "list_all is_ascii name"
proof -
  from assms have "name \<noteq> []" "name \<noteq> dot" "name \<noteq> dotdot" and v: "validASCIIToken name"
    by (auto simp: ValidUsername_def)
  moreover have "slash \<notin> set name"
    using v by (auto simp: validASCIIToken_def contains_any_def list_ex_iff)
  ultimately show "plain_name name" by (intro plain_nameI)
  have "list_all (\<lambda>r. r < 128) (map fst (utf8_chunks name))"
    using v by (auto simp: validASCIIToken_def runes_def list_all_iff)
  then show "list_all is_ascii name" by (rule utf8_chunks_small)
qed

lemma ValidUsername_path:
  "ValidUsername u \<Longrightarrow> d \<noteq> [] \<Longrightarrow> list_all plain_name ds \<Longrightarrow>
   path_norm (path_join (d # ds @ [u])) = (fst (path_norm d), snd (path_norm d) @ ds @ [u])"
  using path_join_norm [of d "ds @ [u]"] ValidUsername_plain by simp

section \<open>Properties\<close>

text \<open>
  C13. Root is never authenticated: for an account with uid 0, whatever the password and
  whatever PAM would say, the daemon denies before running the helper, and the helper denies
  before calling PAM.
\<close>

theorem root_never_authenticated:
  assumes "users name = Some (n, us, gs)" "parse_int64 us = Some 0" "parse_int64 gs \<noteq> None"
  shows "Authenticate users exec h name password = Some ErrDenied \<and>
    Run users pam service name password = Some ErrDenied \<and>
    helper_run users pam [a0, service, name] (Some password) = 1"
proof -
  have d: "ValidUsername name \<Longrightarrow> denied users name"
    using assms by (auto simp: denied_def Lookup_def Linkable_def)
  have "Run users pam service name s = Some ErrDenied" for s
    using d by (auto simp: Run_def)
  then show ?thesis
    using d by (auto simp: Authenticate_def helper_run_def Let_def)
qed

definition demo_users :: user_db where
  "demo_users = (\<lambda>u. if u = ''root'' then Some (''root'', ''0'', ''0'')
     else if u = ''alice'' then Some (''alice'', ''1000'', ''1000'') else None)"

theorem root_never_authenticated_witness:
  "Authenticate demo_users (\<lambda>_ _ _. ExecOk) \<lparr>h_Path = [], h_Service = []\<rparr> ''root'' ''pw'' = Some ErrDenied \<and>
   Authenticate demo_users (\<lambda>_ _ _. ExecOk) \<lparr>h_Path = [], h_Service = []\<rparr> ''alice'' ''pw'' = None"
proof
  have r: "demo_users ''root'' = Some (''root'', ''0'', ''0'')" "parse_int64 ''0'' = Some 0" by code_simp+
  show "Authenticate demo_users (\<lambda>_ _ _. ExecOk) \<lparr>h_Path = [], h_Service = []\<rparr> ''root'' ''pw'' = Some ErrDenied"
    using root_never_authenticated [where users = demo_users and name = "''root''", OF r] r by simp
  show "Authenticate demo_users (\<lambda>_ _ _. ExecOk) \<lparr>h_Path = [], h_Service = []\<rparr> ''alice'' ''pw'' = None"
    by code_simp
qed

text \<open>
  C14. The daemon and the helper agree: when the daemon runs the packaged helper, the answer is
  the one of the checks in the helper for the same service and user and the password without
  its line end, for every password of at most 8192 bytes.
\<close>

theorem helper_agrees:
  assumes "length password \<le> 8192"
  shows "(Authenticate users (helper_exec users pam) h name password = None) =
    (Run users pam (if h_Service h = [] then DefaultService else h_Service h) name
       (trim_suffix (trim_suffix password [CHR 0x0A]) [CHR 0x0D]) = None)"
  using assms
  by (auto simp: Authenticate_def helper_exec_def helper_run_def Run_def Let_def split: option.splits if_splits)

theorem helper_agrees_witness:
  "(Authenticate demo_users (helper_exec demo_users (\<lambda>_ _ p. if p = ''pw'' then PamOk else PamAuthFail))
      \<lparr>h_Path = [], h_Service = []\<rparr> ''alice'' ''pw'' = None) =
   (Run demo_users (\<lambda>_ _ p. if p = ''pw'' then PamOk else PamAuthFail) DefaultService ''alice'' ''pw'' = None)"
proof -
  have t: "trim_suffix (trim_suffix ''pw'' [CHR 0x0A]) [CHR 0x0D] = ''pw''" by code_simp
  have "length ''pw'' \<le> 8192" by simp
  from helper_agrees [OF this, of demo_users "\<lambda>_ _ p. if p = ''pw'' then PamOk else PamAuthFail"
      "\<lparr>h_Path = [], h_Service = []\<rparr>" "''alice''"] show ?thesis
    by (simp only: t helper.simps if_True simp_thms)
qed

end
