(* ===== verification/Net_Ip.thy ===== *)
theory Net_Ip
  imports Go_Prelude
begin

text \<open>
  What the program uses of packages \<open>net\<close> and \<open>net/netip\<close> on addresses: parsing and printing
  IP addresses and prefixes, the address classes, and \<open>JoinHostPort\<close>. An address is its 16
  bytes; an IPv4 address is in the mapped form \<open>::ffff:a.b.c.d\<close>, as \<open>net.ParseIP\<close> returns it.
\<close>

type_synonym ip = "nat list"

definition v4_prefix :: "nat list" where
  "v4_prefix = replicate 10 0 @ [255, 255]"

definition To4 :: "ip \<Rightarrow> nat list option" where
  "To4 i = (if length i = 16 \<and> take 12 i = v4_prefix then Some (drop 12 i) else None)"

section \<open>Parsing\<close>

definition v4_field :: "string \<Rightarrow> nat option" where
  "v4_field s =
     (if s = [] \<or> length s > 3 \<or> \<not> list_all is_digit s \<or> (length s > 1 \<and> hd s = CHR ''0'') then None
      else (case read_nat s of None \<Rightarrow> None | Some n \<Rightarrow> if n \<le> 255 then Some n else None))"

definition parse_v4 :: "string \<Rightarrow> nat list option" where
  "parse_v4 s =
     (case map v4_field (split_sep (CHR ''.'') s) of
        [Some a, Some b, Some c, Some d] \<Rightarrow> Some [a, b, c, d]
      | _ \<Rightarrow> None)"

fun hex_nat :: "nat \<Rightarrow> string \<Rightarrow> nat" where
  "hex_nat acc [] = acc"
| "hex_nat acc (c # cs) = hex_nat (16 * acc + (case hex_value c of None \<Rightarrow> 0 | Some v \<Rightarrow> v)) cs"

definition is_hex_char :: "char \<Rightarrow> bool" where
  "is_hex_char c \<longleftrightarrow> hex_value c \<noteq> None"

text \<open>
  The loop of \<open>netip.parseIPv6\<close>: \<open>out\<close> are the bytes so far, \<open>el\<close> the position of \<open>::\<close> in
  them; the counter bounds the number of groups.
\<close>

fun v6_loop :: "nat \<Rightarrow> nat list \<Rightarrow> nat option \<Rightarrow> string \<Rightarrow> (nat list \<times> nat option) option" where
  "v6_loop 0 out el s = (if s = [] then Some (out, el) else None)"
| "v6_loop (Suc k) out el s =
     (if length out \<ge> 16 then (if s = [] then Some (out, el) else None)
      else let g = takeWhile is_hex_char s; r = dropWhile is_hex_char s in
        if g = [] \<or> length g > 4 then None
        else if r \<noteq> [] \<and> hd r = CHR ''.'' then
          (if (el = None \<and> length out \<noteq> 12) \<or> length out + 4 > 16 then None
           else (case parse_v4 s of None \<Rightarrow> None | Some bs \<Rightarrow> Some (out @ bs, el)))
        else
          (let out' = out @ [hex_nat 0 g div 256, hex_nat 0 g mod 256] in
           if r = [] then Some (out', el)
           else if hd r \<noteq> CHR '':'' \<or> tl r = [] then None
           else if hd (tl r) = CHR '':'' then
             (if el \<noteq> None then None
              else if tl (tl r) = [] then Some (out', Some (length out'))
              else v6_loop k out' (Some (length out')) (tl (tl r)))
           else v6_loop k out' el (tl r)))"

definition parse_v6 :: "string \<Rightarrow> ip option" where
  "parse_v6 s =
     (let ell = has_prefix s ''::''; s' = (if ell then drop 2 s else s); el0 = (if ell then Some 0 else None) in
      case (if ell \<and> s' = [] then Some ([], Some 0) else v6_loop 9 [] el0 s') of
        None \<Rightarrow> None
      | Some (out, el) \<Rightarrow>
          if length out < 16 then
            (case el of None \<Rightarrow> None
             | Some p \<Rightarrow> Some (take p out @ replicate (16 - length out) 0 @ drop p out))
          else if el \<noteq> None then None else Some out)"

definition ParseIP :: "string \<Rightarrow> ip option" where
  "ParseIP s =
     (case dropWhile (\<lambda>c. c \<notin> {CHR ''.'', CHR '':'', CHR ''%''}) s of
        [] \<Rightarrow> None
      | c # _ \<Rightarrow>
          if c = CHR ''.'' then map_option (\<lambda>bs. v4_prefix @ bs) (parse_v4 s)
          else if c = CHR '':'' then (if CHR ''%'' \<in> set s then None else parse_v6 s)
          else None)"

text \<open>\<open>net.ParseCIDR\<close>: the masked address, and the prefix length over 128 bits.\<close>

record ipnet =
  n_ip :: ip
  n_len :: nat

definition mask_byte :: "nat \<Rightarrow> nat \<Rightarrow> nat" where
  "mask_byte k b = (if k \<ge> 8 then b else b div 2 ^ (8 - k) * 2 ^ (8 - k))"

definition ip_mask :: "nat \<Rightarrow> ip \<Rightarrow> ip" where
  "ip_mask len i = map (\<lambda>(j, b). if len \<le> 8 * j then 0 else mask_byte (len - 8 * j) b) (enumerate 0 i)"

definition ParseCIDR :: "string \<Rightarrow> ipnet option" where
  "ParseCIDR s =
     (case go_cut (CHR ''/'') s of (addr, mk, ok) \<Rightarrow>
      if \<not> ok then None
      else (case ParseIP addr of
              None \<Rightarrow> None
            | Some i \<Rightarrow>
                (let v4 = (CHR '':'' \<notin> set addr) in
                 if mk = [] \<or> \<not> list_all is_digit mk then None
                 else (case read_nat mk of
                         None \<Rightarrow> None
                       | Some n \<Rightarrow>
                           if n > (if v4 then 32 else 128) then None
                           else (let len = (if v4 then 96 + n else n)
                                 in Some \<lparr>n_ip = ip_mask len i, n_len = len\<rparr>)))))"

text \<open>\<open>IPNet.Contains\<close>: a mapped network with a mask shorter than the mapping contains nothing.\<close>

definition net_contains :: "ipnet \<Rightarrow> ip \<Rightarrow> bool" where
  "net_contains n i \<longleftrightarrow>
     (To4 (n_ip n) \<noteq> None) = (To4 i \<noteq> None) \<and> (To4 (n_ip n) \<noteq> None \<longrightarrow> n_len n \<ge> 96) \<and>
     ip_mask (n_len n) i = ip_mask (n_len n) (n_ip n)"

section \<open>Classes and printing\<close>

definition IsLoopback :: "ip \<Rightarrow> bool" where
  "IsLoopback i = (case To4 i of Some bs \<Rightarrow> hd bs = 127 | None \<Rightarrow> i = replicate 15 0 @ [1])"

definition IsLinkLocalUnicast :: "ip \<Rightarrow> bool" where
  "IsLinkLocalUnicast i = (case To4 i of Some bs \<Rightarrow> take 2 bs = [169, 254]
     | None \<Rightarrow> length i = 16 \<and> i ! 0 = 254 \<and> i ! 1 div 64 = 2)"

definition IsMulticast :: "ip \<Rightarrow> bool" where
  "IsMulticast i = (case To4 i of Some bs \<Rightarrow> hd bs div 16 = 14 | None \<Rightarrow> length i = 16 \<and> i ! 0 = 255)"

fun hex_show :: "nat \<Rightarrow> string" where
  "hex_show n = (if n < 16 then [hex_digit n] else hex_show (n div 16) @ [hex_digit (n mod 16)])"

declare hex_show.simps [simp del]

fun groups :: "nat list \<Rightarrow> nat list" where
  "groups (a # b # r) = (256 * a + b) # groups r"
| "groups _ = []"

text \<open>The first longest run of two or more zero groups, as start and length.\<close>

definition zero_run :: "nat list \<Rightarrow> nat \<Rightarrow> nat" where
  "zero_run gs j = length (takeWhile (\<lambda>g. g = 0) (drop j gs))"

definition best_run :: "nat list \<Rightarrow> (nat \<times> nat) option" where
  "best_run gs = foldl (\<lambda>best j. let l = zero_run gs j in
       if l \<ge> 2 \<and> (case best of None \<Rightarrow> True | Some (_, l') \<Rightarrow> l > l') then Some (j, l) else best)
     None [0..<length gs]"

definition ip_string :: "ip \<Rightarrow> string" where
  "ip_string i =
     (case To4 i of
        Some bs \<Rightarrow> join_sep ''.'' (map show_nat bs)
      | None \<Rightarrow>
          (let gs = groups i; hs = map hex_show gs in
           case best_run gs of
             None \<Rightarrow> join_sep '':'' hs
           | Some (j, l) \<Rightarrow> join_sep '':'' (take j hs) @ ''::'' @ join_sep '':'' (drop (j + l) hs)))"

definition JoinHostPort :: "string \<Rightarrow> string \<Rightarrow> string" where
  "JoinHostPort host port =
     (if CHR '':'' \<in> set host then ''['' @ host @ '']:'' @ port else host @ '':'' @ port)"

end
