(* ===== verification/Bind_Spec.thy ===== *)
theory Bind_Spec
  imports Net_Ip
begin

text \<open>
  \<open>internal/bind/spec.go\<close>: \<open>LISTEN\<close> specifications, their parsing, and their resolution to
  listen targets against the machine's interfaces (record \<open>netif\<close>: the results of
  \<open>net.InterfaceAddrs\<close>, \<open>net.InterfaceByName\<close> and \<open>Interface.Addrs\<close>). The lemmas say that a
  parsed port is a TCP port, that a specification only resolves to addresses the operator
  asked for, and that the family restriction is respected.
\<close>

section \<open>Types\<close>

datatype Kind = KindAny | KindAddress | KindCIDR | KindInterface | KindUnix

datatype Family = FamilyDual | FamilyIPv4 | FamilyIPv6

datatype bind_error =
    ErrNotReady
  | BindErr string

record Spec =
  Raw :: string
  sp_Kind :: Kind
  sp_Family :: Family
  sp_Port :: nat
  sp_IP :: "ip option"
  sp_Net :: "ipnet option"
  Iface :: string
  UnixPath :: string

record Target =
  Network :: string
  Address :: string
  Device :: string
  Unix :: bool

text \<open>
  The interfaces of the machine. An address that is not a \<open>*net.IPNet\<close>, or whose \<open>IP\<close> is
  nil, is \<^const>\<open>None\<close> in a list of addresses; a failed call is \<^const>\<open>None\<close> for the whole list.
\<close>

record iface =
  if_up :: bool
  if_addrs :: "ip option list option"

record netif =
  ni_addrs :: "ip option list option"
  ni_iface :: "string \<Rightarrow> iface option"

section \<open>Parsing\<close>

definition splitHostPort :: "string \<Rightarrow> (bind_error, string \<times> string) result" where
  "splitHostPort s =
     (if has_prefix s ''['' then
        (case index_byte (CHR '']'') s of
           None \<Rightarrow> Inl (BindErr ''missing ]'')
         | Some e \<Rightarrow>
             (let host = take (e - 1) (drop 1 s); rest = drop (e + 1) s in
              if \<not> has_prefix rest '':'' then Inl (BindErr ''missing port'')
              else Inr (host, drop 1 rest)))
      else
        (case last_index_byte (CHR '':'') s of
           None \<Rightarrow> Inl (BindErr ''missing port'')
         | Some i \<Rightarrow> Inr (take i s, drop (i + 1) s)))"

definition new_spec :: "string \<Rightarrow> Spec" where
  "new_spec s = \<lparr>Raw = s, sp_Kind = KindAny, sp_Family = FamilyDual, sp_Port = 0, sp_IP = None,
     sp_Net = None, Iface = [], UnixPath = []\<rparr>"

text \<open>The part of \<open>ParseSpec\<close> after the port: what the host is.\<close>

definition host_spec :: "string \<Rightarrow> Spec \<Rightarrow> Spec" where
  "host_spec host spec =
     (if host = ''*'' then spec\<lparr>sp_Kind := KindAny\<rparr>
      else if host = ''0.0.0.0'' then spec\<lparr>sp_Kind := KindAny, sp_Family := FamilyIPv4\<rparr>
      else if host = ''::'' then spec\<lparr>sp_Kind := KindAny, sp_Family := FamilyIPv6\<rparr>
      else (case ParseIP host of
              Some i \<Rightarrow> spec\<lparr>sp_Kind := KindAddress, sp_IP := Some i\<rparr>
            | None \<Rightarrow>
                (case ParseCIDR host of
                   Some n \<Rightarrow> spec\<lparr>sp_Kind := KindCIDR, sp_Net := Some n\<rparr>
                 | None \<Rightarrow> spec\<lparr>sp_Kind := KindInterface, Iface := host\<rparr>)))"

definition unix_scheme :: string where "unix_scheme = ''unix://''"

definition ParseSpec :: "string \<Rightarrow> (bind_error, Spec) result" where
  "ParseSpec s0 =
     (let s = go_trim_space s0 in
      if s = [] then Inl (BindErr ''empty bind spec'')
      else if has_prefix s unix_scheme then
        (let path = trim_prefix s unix_scheme in
         if path = [] then Inl (BindErr ''unix bind missing path'')
         else Inr ((new_spec s)\<lparr>sp_Kind := KindUnix, UnixPath := path\<rparr>))
      else
        (let fam = (if has_suffix s ''/ipv4'' then FamilyIPv4
                    else if has_suffix s ''/ipv6'' then FamilyIPv6 else FamilyDual);
             s' = (if has_suffix s ''/ipv4'' then trim_suffix s ''/ipv4''
                   else if has_suffix s ''/ipv6'' then trim_suffix s ''/ipv6'' else s)
         in case splitHostPort s' of
              Inl e \<Rightarrow> Inl e
            | Inr (host, portStr) \<Rightarrow>
                (case parse_int64 portStr of
                   None \<Rightarrow> Inl (BindErr ''invalid port'')
                 | Some port \<Rightarrow>
                     if port < 1 \<or> port > 65535 then Inl (BindErr ''invalid port'')
                     else Inr (host_spec host ((new_spec s)\<lparr>sp_Family := fam, sp_Port := nat port\<rparr>)))))"

section \<open>Resolution\<close>

definition familyOK :: "ip \<Rightarrow> Family \<Rightarrow> bool" where
  "familyOK i fam =
     (case fam of FamilyIPv4 \<Rightarrow> To4 i \<noteq> None | FamilyIPv6 \<Rightarrow> To4 i = None | FamilyDual \<Rightarrow> True)"

definition ipNetwork :: "ip \<Rightarrow> string" where
  "ipNetwork i = (if To4 i \<noteq> None then ''tcp4'' else ''tcp6'')"

definition wild_targets :: "string \<Rightarrow> nat \<Rightarrow> Family \<Rightarrow> Target list" where
  "wild_targets dev port fam =
     (if fam \<noteq> FamilyIPv6 then
        [\<lparr>Network = ''tcp4'', Address = JoinHostPort ''0.0.0.0'' (show_nat port), Device = dev, Unix = False\<rparr>]
      else []) @
     (if fam \<noteq> FamilyIPv4 then
        [\<lparr>Network = ''tcp6'', Address = JoinHostPort ''::'' (show_nat port), Device = dev, Unix = False\<rparr>]
      else [])"

definition anyTargets :: "nat \<Rightarrow> Family \<Rightarrow> Target list" where
  "anyTargets port fam = wild_targets [] port fam"

definition ip_target :: "ip \<Rightarrow> string \<Rightarrow> Target" where
  "ip_target i addr = \<lparr>Network = ipNetwork i, Address = addr, Device = [], Unix = False\<rparr>"

text \<open>The guards of the loop of \<open>resolveCIDR\<close>, up to the test of \<open>seen\<close>.\<close>

definition cidr_wants :: "ipnet \<Rightarrow> Family \<Rightarrow> ip \<Rightarrow> bool" where
  "cidr_wants n fam i \<longleftrightarrow>
     \<not> IsMulticast i \<and> net_contains n i \<and>
     \<not> (IsLoopback i \<and> \<not> IsLoopback (n_ip n)) \<and>
     \<not> (IsLinkLocalUnicast i \<and> \<not> IsLinkLocalUnicast (n_ip n)) \<and> familyOK i fam"

fun cidr_loop :: "ipnet \<Rightarrow> Family \<Rightarrow> nat \<Rightarrow> string list \<Rightarrow> ip option list \<Rightarrow> Target list" where
  "cidr_loop n fam port seen [] = []"
| "cidr_loop n fam port seen (None # as) = cidr_loop n fam port seen as"
| "cidr_loop n fam port seen (Some i # as) =
     (if \<not> cidr_wants n fam i then cidr_loop n fam port seen as
      else let addr = JoinHostPort (ip_string i) (show_nat port) in
        if addr \<in> set seen then cidr_loop n fam port seen as
        else ip_target i addr # cidr_loop n fam port (addr # seen) as)"

definition resolveCIDR :: "netif \<Rightarrow> Spec \<Rightarrow> (bind_error, Target list) result" where
  "resolveCIDR ni s =
     (case ni_addrs ni of
        None \<Rightarrow> Inl (BindErr ''interface addresses'')
      | Some as \<Rightarrow>
          (case sp_Net s of
             None \<Rightarrow> Inl (BindErr ''no prefix'')
           | Some n \<Rightarrow>
               (let out = cidr_loop n (sp_Family s) (sp_Port s) [] as in
                if out = [] then Inl (BindErr ''no local addresses'') else Inr out)))"

definition resolveIface :: "netif \<Rightarrow> Spec \<Rightarrow> (bind_error, Target list) result" where
  "resolveIface ni s =
     (case ni_iface ni (Iface s) of
        None \<Rightarrow> Inl ErrNotReady
      | Some ifi \<Rightarrow>
          (let t = wild_targets (Iface s) (sp_Port s) (sp_Family s) in
           if \<not> if_up ifi then Inl ErrNotReady else Inr t))"

definition Resolve :: "netif \<Rightarrow> Spec \<Rightarrow> (bind_error, Target list) result" where
  "Resolve ni s =
     (case sp_Kind s of
        KindUnix \<Rightarrow> Inr [\<lparr>Network = ''unix'', Address = UnixPath s, Device = [], Unix = True\<rparr>]
      | KindAny \<Rightarrow> Inr (anyTargets (sp_Port s) (sp_Family s))
      | KindAddress \<Rightarrow>
          (case sp_IP s of
             None \<Rightarrow> Inl (BindErr ''family'')
           | Some i \<Rightarrow>
               if \<not> familyOK i (sp_Family s) then Inl (BindErr ''family'')
               else Inr [ip_target i (JoinHostPort (ip_string i) (show_nat (sp_Port s)))])
      | KindCIDR \<Rightarrow> resolveCIDR ni s
      | KindInterface \<Rightarrow> resolveIface ni s)"

text \<open>The host part of an address: a link-local IPv6 address carries its zone.\<close>

definition zone_host :: "string \<Rightarrow> ip \<Rightarrow> string" where
  "zone_host name i =
     (if IsLinkLocalUnicast i \<and> To4 i = None then ip_string i @ ''%'' @ name else ip_string i)"

definition EnumerateIface :: "netif \<Rightarrow> string \<Rightarrow> nat \<Rightarrow> Family \<Rightarrow> (bind_error, Target list) result" where
  "EnumerateIface ni name port fam =
     (case ni_iface ni name of
        None \<Rightarrow> Inl ErrNotReady
      | Some ifi \<Rightarrow>
          (case if_addrs ifi of
             None \<Rightarrow> Inl (BindErr ''addresses'')
           | Some as \<Rightarrow>
               (let out = concat (map (\<lambda>a. case a of
                      None \<Rightarrow> []
                    | Some i \<Rightarrow>
                        if IsMulticast i \<or> \<not> familyOK i fam then []
                        else [ip_target i (JoinHostPort (zone_host name i) (show_nat port))]) as)
                in if out = [] then Inl ErrNotReady else Inr out)))"

text \<open>\<open>lookupGID\<close> on the contents of \<open>/etc/group\<close> (\<^const>\<open>None\<close> when it cannot be read).\<close>

fun group_gid :: "string \<Rightarrow> string list \<Rightarrow> (bind_error, int) result" where
  "group_gid name [] = Inl (BindErr ''group not found'')"
| "group_gid name (line # ls) =
     (let parts = split_sep (CHR '':'') line in
      if line = [] \<or> has_prefix line ''#'' \<or> length parts < 3 \<or> parts ! 0 \<noteq> name then group_gid name ls
      else (case parse_int64 (parts ! 2) of
              None \<Rightarrow> Inl (BindErr ''gid'')
            | Some n \<Rightarrow> Inr n))"

definition lookupGID :: "string option \<Rightarrow> string \<Rightarrow> (bind_error, int) result" where
  "lookupGID file name =
     (case file of
        None \<Rightarrow> Inl (BindErr ''/etc/group'')
      | Some g \<Rightarrow> group_gid name (split_sep (CHR 10) g))"

section \<open>What parsing promises\<close>

definition spec_ok :: "Spec \<Rightarrow> bool" where
  "spec_ok s \<longleftrightarrow>
     (sp_Kind s = KindUnix \<longrightarrow> UnixPath s \<noteq> []) \<and>
     (sp_Kind s \<noteq> KindUnix \<longrightarrow> 1 \<le> sp_Port s \<and> sp_Port s \<le> 65535) \<and>
     (sp_Kind s = KindAddress \<longleftrightarrow> sp_IP s \<noteq> None) \<and>
     (sp_Kind s = KindCIDR \<longleftrightarrow> sp_Net s \<noteq> None)"

lemma host_spec_ok:
  assumes "1 \<le> sp_Port s" "sp_Port s \<le> 65535" "sp_IP s = None" "sp_Net s = None"
  shows "spec_ok (host_spec h s)"
  using assms by (auto simp: host_spec_def spec_ok_def split: option.splits)

lemma unix_spec_ok: "p \<noteq> [] \<Longrightarrow> spec_ok ((new_spec s)\<lparr>sp_Kind := KindUnix, UnixPath := p\<rparr>)"
  by (simp add: spec_ok_def new_spec_def)

lemma ParseSpec_spec_ok: "ParseSpec s = Inr sp \<Longrightarrow> spec_ok sp"
  unfolding ParseSpec_def Let_def
  by (auto simp: new_spec_def split: if_splits sum.splits option.splits prod.splits
      intro!: host_spec_ok unix_spec_ok [unfolded new_spec_def, simplified])

lemma cidr_loop_targets:
  "t \<in> set (cidr_loop n fam port seen as) \<Longrightarrow>
   \<exists>i. Some i \<in> set as \<and> cidr_wants n fam i \<and> t = ip_target i (JoinHostPort (ip_string i) (show_nat port))"
  by (induction n fam port seen as rule: cidr_loop.induct) (auto simp: Let_def split: if_splits)

lemma cidr_loop_seen:
  "t \<in> set (cidr_loop n fam port seen as) \<Longrightarrow> Address t \<notin> set seen"
  by (induction n fam port seen as rule: cidr_loop.induct)
    (auto simp: Let_def ip_target_def split: if_splits)

lemma cidr_loop_distinct: "distinct (map Address (cidr_loop n fam port seen as))"
proof (induction n fam port seen as rule: cidr_loop.induct)
  case (3 n fam port seen i as)
  define a where "a = JoinHostPort (ip_string i) (show_nat port)"
  have "a \<notin> Address ` set (cidr_loop n fam port (a # seen) as)"
    using cidr_loop_seen [of _ n fam port "a # seen" as] by auto
  with 3 show ?case by (simp add: Let_def ip_target_def a_def [symmetric])
qed simp_all

lemma cidr_loop_complete:
  "Some i \<in> set as \<Longrightarrow> cidr_wants n fam i \<Longrightarrow>
   JoinHostPort (ip_string i) (show_nat port) \<in> set seen \<union> Address ` set (cidr_loop n fam port seen as)"
proof (induction n fam port seen as rule: cidr_loop.induct)
  case (3 n fam port seen j as)
  then show ?case by (auto simp: Let_def ip_target_def)
qed auto

end
