(* ===== verification/Bind_Manager.thy ===== *)
theory Bind_Manager
  imports Bind_Spec "HOL-Library.AList" "HOL-Library.Multiset"
begin

text \<open>
  \<open>bind.Listen\<close> and \<open>internal/bind/manager.go\<close>: the set of running listeners and \<open>Sync\<close>, which
  makes it follow the specifications. The world holds the open listening sockets (a handle and
  the target it listens on) and the outcomes of the system calls still to come, one per call, so
  a statement for every world is a statement for every way the calls can fail. The goroutine
  that runs \<open>srv.Serve\<close> is not modelled: a listener counts as running from \<open>serve\<close> until it is
  shut down.

  Go iterates over a map in an unspecified order. The order is the parameter \<open>rng\<close> of \<open>Sync\<close>;
  the theorems hold for every \<open>rng\<close> that visits each entry once (\<open>visits\<close>).
\<close>

section \<open>Sockets\<close>

record bind_world =
  bw_if :: netif
  bw_group :: "string option"
  bw_next :: nat
  bw_open :: "(nat \<times> Target) list"
  bw_calls :: "bool list"

definition bind_call :: "bind_world \<Rightarrow> bool \<times> bind_world" where
  "bind_call w = (case bw_calls w of [] \<Rightarrow> (True, w) | b # bs \<Rightarrow> (b, w\<lparr>bw_calls := bs\<rparr>))"

definition sock_open :: "Target \<Rightarrow> bind_world \<Rightarrow> (bind_error, nat) result \<times> bind_world" where
  "sock_open t w =
     (case bind_call w of (ok, w1) \<Rightarrow>
      if ok then (Inr (bw_next w1), w1\<lparr>bw_next := bw_next w1 + 1, bw_open := (bw_next w1, t) # bw_open w1\<rparr>)
      else (Inl (BindErr ''listen''), w1))"

definition sock_close :: "nat \<Rightarrow> bind_world \<Rightarrow> bind_world" where
  "sock_close h w = w\<lparr>bw_open := filter (\<lambda>x. fst x \<noteq> h) (bw_open w)\<rparr>"

text \<open>
  \<open>Listen\<close>. For a Unix socket the calls are \<open>os.Remove\<close> (a missing file counts as success),
  \<open>net.Listen\<close>, \<open>osutil.Chmod\<close> and \<open>osutil.Chown\<close>, whose result is ignored; for a TCP socket the
  option calls are part of the one \<open>lc.Listen\<close>, which closes the socket when they fail.
\<close>

definition Listen :: "Target \<Rightarrow> string \<Rightarrow> bind_world \<Rightarrow> (bind_error, nat) result \<times> bind_world" where
  "Listen t unixGroup w =
     (if Unix t then
        (case bind_call w of (ok, w1) \<Rightarrow>
         if \<not> ok then (Inl (BindErr ''remove''), w1)
         else (case sock_open t w1 of (r, w2) \<Rightarrow>
               case r of
                 Inl e \<Rightarrow> (Inl e, w2)
               | Inr ln \<Rightarrow>
                   (case bind_call w2 of (ok, w3) \<Rightarrow>
                    if \<not> ok then (Inl (BindErr ''chmod''), sock_close ln w3)
                    else if unixGroup \<noteq> [] \<and> \<not> isl (lookupGID (bw_group w3) unixGroup)
                    then (Inr ln, snd (bind_call w3))
                    else (Inr ln, w3))))
      else sock_open t w)"

section \<open>The manager\<close>

record managed =
  mg_specRaw :: string
  mg_https :: bool
  mg_ln :: nat

record Manager =
  UnixGroup :: string
  current :: "(string \<times> managed) list"

definition NewManager :: "string \<Rightarrow> Manager" where
  "NewManager ug = \<lparr>UnixGroup = ug, current = []\<rparr>"

definition targetID :: "Target \<Rightarrow> string" where
  "targetID t = Network t @ ''|'' @ Address t @ ''|'' @ Device t"

text \<open>\<open>net.SplitHostPort\<close>: \<^const>\<open>None\<close> is the error.\<close>

definition SplitHostPort :: "string \<Rightarrow> (string \<times> string) option" where
  "SplitHostPort s =
     (case last_index_byte (CHR '':'') s of
        None \<Rightarrow> None
      | Some i \<Rightarrow>
          if has_prefix s ''['' then
            (case index_byte (CHR '']'') s of
               None \<Rightarrow> None
             | Some e \<Rightarrow>
                 if e + 1 \<noteq> i \<or> CHR ''['' \<in> set (drop 1 s) \<or> CHR '']'' \<in> set (drop (e + 1) s) then None
                 else Some (take (e - 1) (drop 1 s), drop (i + 1) s))
          else if CHR '':'' \<in> set (take i s) \<or> CHR ''['' \<in> set s \<or> CHR '']'' \<in> set s then None
          else Some (take i s, drop (i + 1) s))"

definition portOf :: "Target \<Rightarrow> nat" where
  "portOf t =
     (case SplitHostPort (Address t) of
        None \<Rightarrow> 0
      | Some (_, p) \<Rightarrow> (case parse_int64 p of None \<Rightarrow> 0 | Some n \<Rightarrow> nat n))"

definition familyOf :: "Target \<Rightarrow> Family" where
  "familyOf t =
     (if Network t = ''tcp4'' then FamilyIPv4 else if Network t = ''tcp6'' then FamilyIPv6 else FamilyDual)"

definition serve :: "string \<Rightarrow> string \<Rightarrow> nat \<Rightarrow> bool \<Rightarrow> Manager \<Rightarrow> Manager" where
  "serve i specRaw ln https m =
     m\<lparr>current := AList.update i \<lparr>mg_specRaw = specRaw, mg_https = https, mg_ln = ln\<rparr> (current m)\<rparr>"

definition listenAndServe ::
  "string \<Rightarrow> string \<Rightarrow> Target \<Rightarrow> bool \<Rightarrow> Manager \<Rightarrow> bind_world \<Rightarrow> bind_error option \<times> Manager \<times> bind_world" where
  "listenAndServe i specRaw t https m w =
     (case Listen t (UnixGroup m) w of (r, w1) \<Rightarrow>
      case r of Inl e \<Rightarrow> (Some e, m, w1) | Inr ln \<Rightarrow> (None, serve i specRaw ln https m, w1))"

text \<open>\<open>Shutdown\<close>, \<open>Close\<close> and \<open>delete\<close> for one listener.\<close>

definition stop :: "string \<Rightarrow> managed \<Rightarrow> Manager \<times> bind_world \<Rightarrow> Manager \<times> bind_world" where
  "stop i mg mw = (case mw of (m, w) \<Rightarrow>
     (m\<lparr>current := AList.delete i (current m)\<rparr>, sock_close (mg_ln mg) w))"

text \<open>The first loop of \<open>Sync\<close>: what the specifications resolve to.\<close>

record plan =
  wanted :: "(string \<times> Target) list"
  specOf :: "(string \<times> string) list"
  keepRaw :: "string list"
  firstErr :: "bind_error option"

definition first_of :: "bind_error option \<Rightarrow> bind_error \<Rightarrow> bind_error option" where
  "first_of old e = (case old of None \<Rightarrow> Some e | Some _ \<Rightarrow> old)"

fun want_all :: "string \<Rightarrow> Target list \<Rightarrow> plan \<Rightarrow> plan" where
  "want_all raw [] p = p"
| "want_all raw (t # ts) p =
     want_all raw ts (p\<lparr>wanted := AList.update (targetID t) t (wanted p),
                        specOf := AList.update (targetID t) raw (specOf p)\<rparr>)"

fun resolve_specs :: "netif \<Rightarrow> bool \<Rightarrow> Spec list \<Rightarrow> plan \<Rightarrow> (bind_error, plan) result" where
  "resolve_specs ni reload [] p = Inr p"
| "resolve_specs ni reload (sp # sps) p =
     (case Resolve ni sp of
        Inl e \<Rightarrow>
          if reload \<and> (e = ErrNotReady \<or> sp_Kind sp = KindCIDR)
          then resolve_specs ni reload sps (p\<lparr>keepRaw := Raw sp # keepRaw p\<rparr>)
          else if e = ErrNotReady then resolve_specs ni reload sps (p\<lparr>firstErr := first_of (firstErr p) e\<rparr>)
          else if sp_Kind sp = KindCIDR then Inl e
          else resolve_specs ni reload sps (p\<lparr>firstErr := first_of (firstErr p) e\<rparr>)
      | Inr ts \<Rightarrow> resolve_specs ni reload sps (want_all (Raw sp) ts p))"

text \<open>The second loop: close what is neither wanted nor kept.\<close>

definition keeps :: "plan \<Rightarrow> string \<Rightarrow> managed \<Rightarrow> bool" where
  "keeps p i mg \<longleftrightarrow> map_of (wanted p) i \<noteq> None \<or> mg_specRaw mg \<in> set (keepRaw p)"

fun close_stale :: "plan \<Rightarrow> (string \<times> managed) list \<Rightarrow> Manager \<times> bind_world \<Rightarrow> Manager \<times> bind_world" where
  "close_stale p [] mw = mw"
| "close_stale p ((i, mg) # cs) mw =
     close_stale p cs
       (if keeps p i mg then mw else stop i mg mw)"

text \<open>The fallback for a device that cannot be bound: one listener per address of it.\<close>

fun fallback_loop ::
  "string \<Rightarrow> bool \<Rightarrow> Target list \<Rightarrow> bool \<Rightarrow> Manager \<times> bind_world \<Rightarrow> bool \<times> Manager \<times> bind_world" where
  "fallback_loop raw https [] okListen mw = (okListen, mw)"
| "fallback_loop raw https (ft # fts) okListen (m, w) =
     (if map_of (current m) (targetID ft) \<noteq> None then fallback_loop raw https fts True (m, w)
      else (case listenAndServe (targetID ft) raw ft https m w of (e, m1, w1) \<Rightarrow>
            fallback_loop raw https fts (okListen \<or> e = None) (m1, w1)))"

definition start_target ::
  "string \<Rightarrow> string \<Rightarrow> Target \<Rightarrow> bool \<Rightarrow> bind_error option \<Rightarrow> Manager \<times> bind_world \<Rightarrow> bind_error option \<times> Manager \<times> bind_world" where
  "start_target i raw t https listenErr mw =
     (case listenAndServe i raw t https (fst mw) (snd mw) of (r, m1, w1) \<Rightarrow>
      case r of
        None \<Rightarrow> (listenErr, m1, w1)
      | Some e \<Rightarrow>
          if Device t \<noteq> [] then
            (case EnumerateIface (bw_if w1) (Device t) (portOf t) (familyOf t) of
               Inl _ \<Rightarrow> (first_of listenErr e, m1, w1)
             | Inr fallback \<Rightarrow>
                 (case fallback_loop raw https fallback False (m1, w1) of (okListen, m2, w2) \<Rightarrow>
                  if \<not> okListen then (first_of listenErr e, m2, w2) else (listenErr, m2, w2)))
          else (first_of listenErr e, m1, w1))"

text \<open>The third loop: start what is wanted and not running with the right protocol.\<close>

definition set_raw :: "string \<Rightarrow> string \<Rightarrow> managed \<Rightarrow> Manager \<Rightarrow> Manager" where
  "set_raw i raw mg m = m\<lparr>current := AList.update i (mg\<lparr>mg_specRaw := raw\<rparr>) (current m)\<rparr>"

definition start_step ::
  "bool \<Rightarrow> plan \<Rightarrow> string \<Rightarrow> Target \<Rightarrow> bind_error option \<Rightarrow> Manager \<times> bind_world \<Rightarrow> bind_error option \<times> Manager \<times> bind_world" where
  "start_step useTLS p i t listenErr mw =
     (let https = (useTLS \<and> \<not> Unix t);
          raw = (case map_of (specOf p) i of None \<Rightarrow> [] | Some r \<Rightarrow> r)
      in case map_of (current (fst mw)) i of
           Some mg \<Rightarrow>
             if mg_https mg = https then (listenErr, set_raw i raw mg (fst mw), snd mw)
             else start_target i raw t https listenErr (stop i mg mw)
         | None \<Rightarrow> start_target i raw t https listenErr mw)"

fun start_loop ::
  "bool \<Rightarrow> plan \<Rightarrow> (string \<times> Target) list \<Rightarrow> bind_error option \<Rightarrow> Manager \<times> bind_world \<Rightarrow> bind_error option \<times> Manager \<times> bind_world" where
  "start_loop useTLS p [] listenErr mw = (listenErr, mw)"
| "start_loop useTLS p ((i, t) # ts) listenErr mw =
     (case start_step useTLS p i t listenErr mw of (e, mw1) \<Rightarrow> start_loop useTLS p ts e mw1)"

record ranges =
  rng_current :: "(string \<times> managed) list \<Rightarrow> (string \<times> managed) list"
  rng_wanted :: "(string \<times> Target) list \<Rightarrow> (string \<times> Target) list"

definition visits :: "ranges \<Rightarrow> bool" where
  "visits rng \<longleftrightarrow> (\<forall>xs. mset (rng_current rng xs) = mset xs) \<and> (\<forall>xs. mset (rng_wanted rng xs) = mset xs)"

definition no_plan :: plan where
  "no_plan = \<lparr>wanted = [], specOf = [], keepRaw = [], firstErr = None\<rparr>"

definition Sync ::
  "ranges \<Rightarrow> Spec list \<Rightarrow> bool \<Rightarrow> bool \<Rightarrow> Manager \<Rightarrow> bind_world \<Rightarrow> bind_error option \<times> Manager \<times> bind_world" where
  "Sync rng specs useTLS reload m w =
     (case resolve_specs (bw_if w) reload specs no_plan of
        Inl e \<Rightarrow> (Some e, m, w)
      | Inr p \<Rightarrow>
          (case start_loop useTLS p (rng_wanted rng (wanted p)) None
                  (close_stale p (rng_current rng (current m)) (m, w)) of (listenErr, m1, w1) \<Rightarrow>
           if current m1 = [] then
             ((case firstErr p of
                 Some e \<Rightarrow> Some e
               | None \<Rightarrow> (case listenErr of Some e \<Rightarrow> Some e | None \<Rightarrow> Some (BindErr ''no listeners''))), m1, w1)
           else (None, m1, w1)))"

text \<open>\<open>Close\<close>: whether or not \<open>Shutdown\<close> times out, the listening socket is closed.\<close>

fun close_all :: "(string \<times> managed) list \<Rightarrow> bind_error option \<Rightarrow> Manager \<times> bind_world \<Rightarrow> bind_error option \<times> Manager \<times> bind_world" where
  "close_all [] last_e mw = (last_e, mw)"
| "close_all ((i, mg) # cs) last_e (m, w) =
     (case bind_call w of (ok, w1) \<Rightarrow>
      close_all cs (if ok then last_e else Some (BindErr ''shutdown'')) (stop i mg (m, w1)))"

definition Close :: "ranges \<Rightarrow> Manager \<Rightarrow> bind_world \<Rightarrow> bind_error option \<times> Manager \<times> bind_world" where
  "Close rng m w = close_all (rng_current rng (current m)) None (m, w)"

definition Names :: "Manager \<Rightarrow> string list" where
  "Names m = map fst (current m)"

section \<open>Every listener is an open socket, and every open socket a listener\<close>

definition socks :: "bind_world \<Rightarrow> (nat \<times> string) set" where
  "socks w = (\<lambda>(h, t). (h, targetID t)) ` set (bw_open w)"

definition entries :: "(string \<times> managed) list \<Rightarrow> (nat \<times> string) set" where
  "entries cs = (\<lambda>(i, mg). (mg_ln mg, i)) ` set cs"

definition fresh :: "bind_world \<Rightarrow> bool" where
  "fresh w \<longleftrightarrow> distinct (map fst (bw_open w)) \<and> (\<forall>x \<in> set (bw_open w). fst x < bw_next w)"

definition mgr_inv :: "Manager \<times> bind_world \<Rightarrow> bool" where
  "mgr_inv mw \<longleftrightarrow> (case mw of (m, w) \<Rightarrow>
     fresh w \<and> distinct (map fst (current m)) \<and> entries (current m) = socks w)"

lemma entries_append [simp]: "entries (cs @ ds) = entries cs \<union> entries ds"
  by (simp add: entries_def image_Un)

lemma entries_single [simp]: "entries [(i, mg)] = {(mg_ln mg, i)}"
  by (simp add: entries_def)

lemma socks_cons: "bw_open w1 = (h, t) # bw_open w \<Longrightarrow> socks w1 = insert (h, targetID t) (socks w)"
  by (simp add: socks_def)

lemma bind_call_fields [simp]:
  "bw_open (snd (bind_call w)) = bw_open w" "bw_next (snd (bind_call w)) = bw_next w"
  "bw_if (snd (bind_call w)) = bw_if w"
  by (auto simp: bind_call_def split: list.splits)

lemma bind_call_eq:
  "bind_call w = (ok, w1) \<Longrightarrow> bw_open w1 = bw_open w \<and> bw_next w1 = bw_next w \<and> bw_if w1 = bw_if w"
  by (metis bind_call_fields snd_conv)

lemma sock_open_eq:
  assumes "sock_open t w = (r, w1)"
  shows "bw_if w1 = bw_if w \<and>
    (case r of Inl _ \<Rightarrow> bw_open w1 = bw_open w \<and> bw_next w1 = bw_next w
     | Inr h \<Rightarrow> h = bw_next w \<and> bw_next w1 = bw_next w + 1 \<and> bw_open w1 = (h, t) # bw_open w)"
  using assms bind_call_eq [of w] by (auto simp: sock_open_def split: prod.splits if_splits)

lemma filter_fresh: "\<forall>x \<in> set xs. fst x < n \<Longrightarrow> filter (\<lambda>x. fst x \<noteq> (n :: nat)) xs = xs"
  by (induction xs) auto

lemma Listen_eq:
  assumes L: "Listen t ug w = (r, w1)" and f: "fresh w"
  shows "bw_if w1 = bw_if w \<and>
    (case r of Inl _ \<Rightarrow> bw_open w1 = bw_open w \<and> bw_next w \<le> bw_next w1
     | Inr h \<Rightarrow> h = bw_next w \<and> bw_next w1 = bw_next w + 1 \<and> bw_open w1 = (h, t) # bw_open w)"
proof (cases "Unix t")
  case False
  with L sock_open_eq [of t w r w1] show ?thesis
    by (auto simp: Listen_def split: sum.splits)
next
  case True
  obtain ok w2 where b1: "bind_call w = (ok, w2)" by force
  obtain r3 w3 where b2: "sock_open t w2 = (r3, w3)" by force
  obtain ok4 w4 where b3: "bind_call w3 = (ok4, w4)" by force
  note e = bind_call_eq [OF b1] sock_open_eq [OF b2] bind_call_eq [OF b3]
  show ?thesis
    using L True b1 b2 b3 e f filter_fresh [of "bw_open w" "bw_next w"]
    by (auto simp: Listen_def sock_close_def fresh_def split: if_splits sum.splits)
qed

lemma Listen_fresh:
  assumes "Listen t ug w = (r, w1)" "fresh w"
  shows "fresh w1"
  using Listen_eq [OF assms] assms(2)
  by (cases r) (fastforce simp: fresh_def)+

lemma update_new: "k \<notin> fst ` set xs \<Longrightarrow> AList.update k v xs = xs @ [(k, v)]"
  by (induction xs) auto

lemma listenAndServe_inv:
  assumes L: "listenAndServe (targetID t) raw t https m w = (e, m1, w1)"
    and inv: "mgr_inv (m, w)" and new: "map_of (current m) (targetID t) = None"
  shows "mgr_inv (m1, w1) \<and> bw_if w1 = bw_if w"
proof -
  obtain r w2 where r: "Listen t (UnixGroup m) w = (r, w2)" by force
  have f: "fresh w" using inv by (simp add: mgr_inv_def)
  note eq = Listen_eq [OF r f] and f2 = Listen_fresh [OF r f]
  show ?thesis
  proof (cases r)
    case (Inl x)
    with L r eq f2 inv show ?thesis
      by (auto simp: listenAndServe_def mgr_inv_def socks_def)
  next
    case (Inr h)
    have "targetID t \<notin> fst ` set (current m)" using new by (simp add: map_of_eq_None_iff)
    then show ?thesis
      using L r eq f2 inv Inr update_new [of "targetID t" "current m"] socks_cons [of w2 h t w]
      by (simp add: listenAndServe_def serve_def mgr_inv_def) auto
  qed
qed

lemma stop_inv:
  assumes inv: "mgr_inv (m, w)" and i: "(i, mg) \<in> set (current m)"
  shows "mgr_inv (stop i mg (m, w))"
proof -
  have d: "distinct (map fst (current m))" and f: "fresh w"
    and eq: "entries (current m) = socks w"
    using inv by (auto simp: mgr_inv_def)
  have key: "j = i \<longleftrightarrow> mg_ln mg' = mg_ln mg" if j: "(j, mg') \<in> set (current m)" for j mg'
  proof
    assume "j = i" then show "mg_ln mg' = mg_ln mg" using d i j eq_key_imp_eq_value by metis
  next
    assume h: "mg_ln mg' = mg_ln mg"
    have "(mg_ln mg, i) \<in> socks w" "(mg_ln mg, j) \<in> socks w"
      unfolding eq [symmetric] using i j h by (force simp: entries_def)+
    then obtain t t' where "(mg_ln mg, t) \<in> set (bw_open w)" "i = targetID t"
      "(mg_ln mg, t') \<in> set (bw_open w)" "j = targetID t'" by (auto simp: socks_def)
    with f show "j = i" unfolding fresh_def by (metis eq_key_imp_eq_value)
  qed
  have "entries (AList.delete i (current m)) = {x \<in> entries (current m). fst x \<noteq> mg_ln mg}"
  proof -
    have "set (AList.delete i (current m)) = {x \<in> set (current m). mg_ln (snd x) \<noteq> mg_ln mg}"
      using key unfolding AList.delete_eq by (auto; blast)
    then show ?thesis by (force simp: entries_def)
  qed
  also have "\<dots> = socks (sock_close (mg_ln mg) w)"
    unfolding eq by (force simp: socks_def sock_close_def)
  finally have "entries (AList.delete i (current m)) = socks (sock_close (mg_ln mg) w)" .
  moreover have "distinct (map fst (AList.delete i (current m)))" using d by (rule distinct_delete)
  moreover have "fresh (sock_close (mg_ln mg) w)"
    using f by (auto simp: fresh_def sock_close_def distinct_map_filter)
  ultimately show ?thesis by (simp add: stop_def mgr_inv_def)
qed

lemma stop_if: "bw_if (snd (stop i mg mw)) = bw_if (snd mw)"
  by (auto simp: stop_def sock_close_def split: prod.splits)

lemma update_entries:
  "map_of cs i = Some mg \<Longrightarrow> mg_ln mg' = mg_ln mg \<Longrightarrow> entries (AList.update i mg' cs) = entries cs"
  by (induction cs) (auto simp: entries_def split: if_splits)

lemma set_raw_inv:
  assumes inv: "mgr_inv (m, w)" and i: "map_of (current m) i = Some mg"
  shows "mgr_inv (set_raw i raw mg m, w)"
proof -
  have "entries (AList.update i (mg\<lparr>mg_specRaw := raw\<rparr>) (current m)) = entries (current m)"
    using i by (rule update_entries) simp
  with inv show ?thesis by (simp add: mgr_inv_def set_raw_def distinct_update)
qed

section \<open>The loops of Sync\<close>

definition plan_ok :: "plan \<Rightarrow> bool" where
  "plan_ok p \<longleftrightarrow> distinct (map fst (wanted p)) \<and> (\<forall>x \<in> set (wanted p). fst x = targetID (snd x))"

lemma set_update_subset: "set (AList.update k v xs) \<subseteq> insert (k, v) (set xs)"
  by (induction xs) auto

lemma want_all_ok: "plan_ok p \<Longrightarrow> plan_ok (want_all raw ts p)"
proof (induction raw ts p rule: want_all.induct)
  case (2 raw t ts p)
  have "plan_ok (p\<lparr>wanted := AList.update (targetID t) t (wanted p),
                   specOf := AList.update (targetID t) raw (specOf p)\<rparr>)"
    using 2(2) set_update_subset [of "targetID t" t "wanted p"]
    by (auto simp: plan_ok_def distinct_update)
  with 2 show ?case by simp
qed simp

lemma resolve_specs_ok:
  "resolve_specs ni reload sps p = Inr p' \<Longrightarrow> plan_ok p \<Longrightarrow> plan_ok p'"
proof (induction ni reload sps p rule: resolve_specs.induct)
  case (2 ni reload sp sps p)
  have same: "plan_ok (p\<lparr>keepRaw := k\<rparr>) = plan_ok p" "plan_ok (p\<lparr>firstErr := e\<rparr>) = plan_ok p" for k e
    by (simp_all add: plan_ok_def)
  from 2 show ?case
    by (auto simp: same want_all_ok split: sum.splits if_splits)
qed simp

lemma no_plan_ok: "plan_ok no_plan"
  by (simp add: plan_ok_def no_plan_def)

lemma close_stale_inv:
  "mgr_inv (m, w) \<Longrightarrow> set cs \<subseteq> set (current m) \<Longrightarrow> distinct (map fst cs) \<Longrightarrow>
   mgr_inv (close_stale p cs (m, w)) \<and> bw_if (snd (close_stale p cs (m, w))) = bw_if w"
proof (induction cs arbitrary: m w)
  case (Cons c cs)
  obtain i mg where c: "c = (i, mg)" by force
  obtain m1 w1 where s: "stop i mg (m, w) = (m1, w1)" by force
  have "mgr_inv (m1, w1)" using stop_inv [of m w i mg] Cons.prems c s by simp
  moreover have "current m1 = AList.delete i (current m)" "bw_if w1 = bw_if w"
    using s stop_if [of i mg "(m, w)"] by (auto simp: stop_def)
  moreover from this Cons.prems c have "set cs \<subseteq> set (current m1)"
    by (force simp: AList.delete_eq)
  ultimately show ?case using Cons c s by auto
qed simp

lemma close_stale_current:
  "distinct (map fst cs) \<Longrightarrow>
   map_of (current (fst (close_stale p cs (m, w)))) i =
     (if \<exists>mg. (i, mg) \<in> set cs \<and> \<not> keeps p i mg then None else map_of (current m) i)"
proof (induction cs arbitrary: m w)
  case (Cons c cs)
  obtain j mg where c: "c = (j, mg)" by force
  have "current (fst (stop j mg (m, w))) = AList.delete j (current m)" by (simp add: stop_def)
  moreover obtain m1 w1 where s: "stop j mg (m, w) = (m1, w1)" by force
  ultimately have d: "map_of (current m1) = (map_of (current m))(j := None)" by (simp add: delete_conv')
  have j: "(j, x) \<notin> set cs" for x using Cons.prems c by force
  show ?case
    using Cons.IH [of m w] Cons.IH [of m1 w1] Cons.prems c s d j
    by (cases "keeps p j mg"; cases "i = j") auto
qed simp

lemma fallback_inv:
  "fallback_loop raw https ts ok (m, w) = (ok', m', w') \<Longrightarrow> mgr_inv (m, w) \<Longrightarrow>
   mgr_inv (m', w') \<and> bw_if w' = bw_if w"
proof (induction raw https ts ok "(m, w)" arbitrary: m w rule: fallback_loop.induct)
  case (2 raw https t ts ok m w)
  obtain e m1 w1 where l: "listenAndServe (targetID t) raw t https m w = (e, m1, w1)" using prod_cases3 by blast
  show ?case
  proof (cases "map_of (current m) (targetID t) = None")
    case True
    with 2 l listenAndServe_inv [OF l] show ?thesis by fastforce
  qed (use 2 in auto)
qed auto

lemma start_target_inv:
  assumes s: "start_target (targetID t) raw t https err (m, w) = (e, m', w')"
    and inv: "mgr_inv (m, w)" and new: "map_of (current m) (targetID t) = None"
  shows "mgr_inv (m', w') \<and> bw_if w' = bw_if w"
proof -
  obtain r m1 w1 where l: "listenAndServe (targetID t) raw t https m w = (r, m1, w1)" using prod_cases3 by blast
  note i1 = listenAndServe_inv [OF l inv new]
  show ?thesis
    using s l i1 fallback_inv [of raw https _ False m1 w1]
    by (fastforce simp: start_target_def split: option.splits if_splits sum.splits prod.splits)
qed

lemma start_step_inv:
  assumes s: "start_step useTLS p (targetID t) t err (m, w) = (e, m', w')" and inv: "mgr_inv (m, w)"
  shows "mgr_inv (m', w') \<and> bw_if w' = bw_if w"
proof (cases "map_of (current m) (targetID t)")
  case None
  with s start_target_inv inv show ?thesis by (auto simp: start_step_def Let_def)
next
  case (Some mg)
  obtain m1 w1 where st: "stop (targetID t) mg (m, w) = (m1, w1)" by force
  have "mgr_inv (m1, w1)" "map_of (current m1) (targetID t) = None" "bw_if w1 = bw_if w"
    using stop_inv [OF inv map_of_SomeD [OF Some]] stop_if [of "targetID t" mg "(m, w)"] st
    by (auto simp: stop_def delete_conv')
  with Some s st set_raw_inv [OF inv Some] show ?thesis
    using start_target_inv [of t _ _ err m1 w1 e m' w'] by (auto simp: start_step_def Let_def split: if_splits)
qed

lemma start_loop_inv:
  "start_loop useTLS p ts err (m, w) = (e, m', w') \<Longrightarrow> mgr_inv (m, w) \<Longrightarrow>
   \<forall>x \<in> set ts. fst x = targetID (snd x) \<Longrightarrow> mgr_inv (m', w') \<and> bw_if w' = bw_if w"
proof (induction ts arbitrary: err m w)
  case (Cons x ts)
  obtain t where x: "x = (targetID t, t)" using Cons.prems by (cases x) auto
  obtain e1 m1 w1 where s: "start_step useTLS p (targetID t) t err (m, w) = (e1, m1, w1)" using prod_cases3 by blast
  with Cons x start_step_inv [OF s] show ?case by simp
qed simp

section \<open>What the plan holds\<close>

definition requested :: "netif \<Rightarrow> Spec list \<Rightarrow> Target set" where
  "requested ni specs = {t. \<exists>sp \<in> set specs. \<exists>ts. Resolve ni sp = Inr ts \<and> t \<in> set ts}"

lemma requested_Cons:
  "requested ni (sp # sps) = (case Resolve ni sp of Inl _ \<Rightarrow> {} | Inr ts \<Rightarrow> set ts) \<union> requested ni sps"
  by (auto simp: requested_def split: sum.splits)

lemma fst_update: "fst ` set (AList.update k v xs) = insert k (fst ` set xs)"
  by (induction xs) auto

lemma want_all_wanted:
  "fst ` set (wanted (want_all raw ts p)) = targetID ` set ts \<union> fst ` set (wanted p) \<and>
   snd ` set (wanted (want_all raw ts p)) \<subseteq> set ts \<union> snd ` set (wanted p) \<and>
   keepRaw (want_all raw ts p) = keepRaw p"
proof (induction raw ts p rule: want_all.induct)
  case (2 raw t ts p)
  have "snd ` set (AList.update (targetID t) t (wanted p)) \<subseteq> insert t (snd ` set (wanted p))"
    using set_update_subset [of "targetID t" t "wanted p"] by force
  with 2 show ?case by (simp add: fst_update) blast
qed simp

lemma resolve_specs_wanted:
  "resolve_specs ni reload sps p = Inr p' \<Longrightarrow>
   fst ` set (wanted p') = targetID ` requested ni sps \<union> fst ` set (wanted p) \<and>
   snd ` set (wanted p') \<subseteq> requested ni sps \<union> snd ` set (wanted p)"
proof (induction ni reload sps p rule: resolve_specs.induct)
  case (1 ni reload p)
  then show ?case by (auto simp: requested_def)
next
  case (2 ni reload sp sps p)
  show ?case
  proof (cases "Resolve ni sp")
    case (Inl e)
    with 2 show ?thesis by (auto simp: requested_Cons split: if_splits)
  next
    case (Inr ts)
    define q where "q = want_all (Raw sp) ts p"
    have q: "fst ` set (wanted q) = targetID ` set ts \<union> fst ` set (wanted p)"
      "snd ` set (wanted q) \<subseteq> set ts \<union> snd ` set (wanted p)"
      using want_all_wanted [of "Raw sp" ts p] by (simp_all add: q_def)
    have ih: "fst ` set (wanted p') = targetID ` requested ni sps \<union> fst ` set (wanted q)"
      "snd ` set (wanted p') \<subseteq> requested ni sps \<union> snd ` set (wanted q)"
      using 2(4) [OF Inr] 2(5) Inr by (simp_all add: q_def)
    have "requested ni (sp # sps) = set ts \<union> requested ni sps" using Inr by (simp add: requested_Cons)
    then show ?thesis unfolding ih(1) q(1) using ih(2) q(2) by blast
  qed
qed

text \<open>The specifications whose listeners a reload keeps.\<close>

definition held :: "netif \<Rightarrow> bool \<Rightarrow> Spec list \<Rightarrow> string set" where
  "held ni reload specs =
     {Raw sp | sp e. sp \<in> set specs \<and> reload \<and> Resolve ni sp = Inl e \<and> (e = ErrNotReady \<or> sp_Kind sp = KindCIDR)}"

lemma resolve_specs_keepRaw:
  "resolve_specs ni reload sps p = Inr p' \<Longrightarrow> set (keepRaw p') = held ni reload sps \<union> set (keepRaw p)"
proof (induction ni reload sps p rule: resolve_specs.induct)
  case (1 ni reload p)
  then show ?case by (auto simp: held_def)
next
  case (2 ni reload sp sps p)
  have c: "held ni reload (sp # sps) = held ni reload [sp] \<union> held ni reload sps"
    by (auto simp: held_def)
  have one: "held ni reload [sp] = (case Resolve ni sp of
      Inl e \<Rightarrow> if reload \<and> (e = ErrNotReady \<or> sp_Kind sp = KindCIDR) then {Raw sp} else {} | Inr _ \<Rightarrow> {})"
    by (auto simp: held_def split: sum.splits)
  show ?case
  proof (cases "Resolve ni sp")
    case (Inl e)
    with 2 show ?thesis by (auto simp: c one split: if_splits)
  next
    case (Inr ts)
    with 2(4) [OF Inr] 2(5) want_all_wanted [of "Raw sp" ts p] show ?thesis by (simp add: c one)
  qed
qed

lemma resolve_specs_reload: "\<exists>p'. resolve_specs ni True sps p = Inr p'"
  by (induction ni True sps p rule: resolve_specs.induct) (auto split: sum.splits)

section \<open>Listeners that go on running\<close>

lemma listenAndServe_other:
  "listenAndServe i raw t https m w = (e, m1, w1) \<Longrightarrow> j \<noteq> i \<Longrightarrow> map_of (current m1) j = map_of (current m) j"
  by (auto simp: listenAndServe_def serve_def update_conv' split: prod.splits sum.splits)

lemma fallback_keeps:
  "fallback_loop raw https ts ok (m, w) = (ok', m', w') \<Longrightarrow> map_of (current m) j = Some mg \<Longrightarrow>
   map_of (current m') j = Some mg"
proof (induction raw https ts ok "(m, w)" arbitrary: m w rule: fallback_loop.induct)
  case (2 raw https t ts ok m w)
  obtain e m1 w1 where l: "listenAndServe (targetID t) raw t https m w = (e, m1, w1)" using prod_cases3 by blast
  show ?case
  proof (cases "map_of (current m) (targetID t) = None")
    case True
    then have "j \<noteq> targetID t" using 2 by auto
    with 2 l True listenAndServe_other [OF l] show ?thesis by auto
  qed (use 2 in auto)
qed auto

lemma start_target_keeps:
  assumes "start_target i raw t https err (m, w) = (e, m', w')" "j \<noteq> i" "map_of (current m) j = Some mg"
  shows "map_of (current m') j = Some mg"
proof -
  obtain r m1 w1 where l: "listenAndServe i raw t https m w = (r, m1, w1)" using prod_cases3 by blast
  with assms listenAndServe_other [OF l] fallback_keeps [of raw https _ False m1 w1] show ?thesis
    by (fastforce simp: start_target_def split: option.splits if_splits sum.splits prod.splits)
qed

lemma start_step_keeps:
  assumes s: "start_step useTLS p i t err (m, w) = (e, m', w')" and j: "j \<noteq> i" "map_of (current m) j = Some mg"
  shows "map_of (current m') j = Some mg"
proof (cases "map_of (current m) i")
  case None
  with s j start_target_keeps [of i _ t _ err m w e m' w' j mg] show ?thesis
    by (auto simp: start_step_def Let_def)
next
  case (Some g)
  obtain m1 w1 where st: "stop i g (m, w) = (m1, w1)" by force
  then have "map_of (current m1) j = Some mg" using j by (auto simp: stop_def delete_conv')
  with s j Some st start_target_keeps [of i _ t _ err m1 w1 e m' w' j mg] show ?thesis
    by (auto simp: start_step_def Let_def set_raw_def update_conv' split: if_splits)
qed

lemma start_loop_keeps:
  "start_loop useTLS p ts err (m, w) = (e, m', w') \<Longrightarrow> map_of (current m) j = Some mg \<Longrightarrow>
   j \<notin> fst ` set ts \<Longrightarrow> map_of (current m') j = Some mg"
proof (induction ts arbitrary: err m w)
  case (Cons x ts)
  obtain i t where x: "x = (i, t)" by force
  obtain e1 m1 w1 where s: "start_step useTLS p i t err (m, w) = (e1, m1, w1)" using prod_cases3 by blast
  with Cons x start_step_keeps [OF s, of j mg] show ?case by simp
qed simp

lemma start_loop_running:
  "start_loop useTLS p ts err (m, w) = (e, m', w') \<Longrightarrow> map_of (current m) j = Some mg \<Longrightarrow>
   distinct (map fst ts) \<Longrightarrow> (j, t) \<in> set ts \<Longrightarrow> mg_https mg = (useTLS \<and> \<not> Unix t) \<Longrightarrow>
   \<exists>raw. map_of (current m') j = Some (mg\<lparr>mg_specRaw := raw\<rparr>)"
proof (induction ts arbitrary: err m w)
  case (Cons x ts)
  obtain i s where x: "x = (i, s)" by force
  obtain e1 m1 w1 where st: "start_step useTLS p i s err (m, w) = (e1, m1, w1)" using prod_cases3 by blast
  show ?case
  proof (cases "j = i")
    case True
    have ts: "s = t" "j \<notin> fst ` set ts" using Cons.prems x True by force+
    then have "\<exists>raw. map_of (current m1) j = Some (mg\<lparr>mg_specRaw := raw\<rparr>)"
      using st Cons.prems True by (auto simp: start_step_def Let_def set_raw_def update_conv')
    with start_loop_keeps [of useTLS p ts e1 m1 w1 e m' w' j] Cons.prems x st ts show ?thesis by auto
  next
    case False
    with Cons x st start_step_keeps [OF st False] show ?thesis by auto
  qed
qed simp

section \<open>When no call fails\<close>

lemma Listen_ok:
  assumes "bw_calls w = []"
  shows "\<exists>h w1. Listen t ug w = (Inr h, w1) \<and> bw_calls w1 = []"
  using assms by (auto simp: Listen_def sock_open_def bind_call_def)

lemma start_target_ok:
  assumes "bw_calls w = []" "start_target i raw t https err (m, w) = (e, m', w')"
  shows "bw_calls w' = [] \<and>
    (\<exists>mg. mg_https mg = https \<and> map_of (current m') = (map_of (current m))(i \<mapsto> mg))"
proof -
  obtain h w1 where l: "Listen t (UnixGroup m) w = (Inr h, w1)" "bw_calls w1 = []"
    using Listen_ok assms(1) by blast
  then have "w' = w1" "current m' = AList.update i \<lparr>mg_specRaw = raw, mg_https = https, mg_ln = h\<rparr> (current m)"
    using assms(2) by (auto simp: start_target_def listenAndServe_def serve_def)
  with l show ?thesis
    by (intro conjI exI [of _ "\<lparr>mg_specRaw = raw, mg_https = https, mg_ln = h\<rparr>"]) (simp_all add: update_conv')
qed

lemma start_step_ok:
  assumes c: "bw_calls w = []" and s: "start_step useTLS p i t err (m, w) = (e, m', w')"
  shows "bw_calls w' = [] \<and>
    (\<exists>mg. mg_https mg = (useTLS \<and> \<not> Unix t) \<and> map_of (current m') = (map_of (current m))(i \<mapsto> mg))"
proof (cases "map_of (current m) i")
  case None
  with c s start_target_ok [of w i] show ?thesis by (auto simp: start_step_def Let_def)
next
  case (Some g)
  obtain m1 w1 where st: "stop i g (m, w) = (m1, w1)" by force
  then have st': "bw_calls w1 = []" "map_of (current m1) = (map_of (current m))(i := None)"
    using c by (auto simp: stop_def sock_close_def delete_conv')
  show ?thesis
  proof (cases "mg_https g = (useTLS \<and> \<not> Unix t)")
    case True
    with s Some c show ?thesis
      by (auto simp: start_step_def Let_def set_raw_def update_conv' intro!: exI [of _ "g\<lparr>mg_specRaw := _\<rparr>"])
  next
    case False
    have "start_target i (case map_of (specOf p) i of None \<Rightarrow> [] | Some r \<Rightarrow> r) t (useTLS \<and> \<not> Unix t) err (m1, w1) = (e, m', w')"
      using s unfolding start_step_def Let_def fst_conv Some option.case if_not_P [OF False] st .
    from start_target_ok [OF st'(1) this] st'(2) show ?thesis by simp
  qed
qed

lemma start_loop_ok:
  "bw_calls w = [] \<Longrightarrow> start_loop useTLS p ts err (m, w) = (e, m', w') \<Longrightarrow> distinct (map fst ts) \<Longrightarrow>
   dom (map_of (current m')) = dom (map_of (current m)) \<union> fst ` set ts \<and>
   (\<forall>x \<in> set ts. \<exists>mg. map_of (current m') (fst x) = Some mg \<and> mg_https mg = (useTLS \<and> \<not> Unix (snd x)))"
proof (induction ts arbitrary: err m w)
  case (Cons x ts)
  obtain i t where x: "x = (i, t)" by force
  obtain e1 m1 w1 where s: "start_step useTLS p i t err (m, w) = (e1, m1, w1)" using prod_cases3 by blast
  note ok = start_step_ok [OF Cons.prems(1) s]
  then obtain mg where mg: "mg_https mg = (useTLS \<and> \<not> Unix t)" "map_of (current m1) = (map_of (current m))(i \<mapsto> mg)"
    by blast
  have r: "start_loop useTLS p ts e1 (m1, w1) = (e, m', w')" using Cons.prems x s by simp
  have i: "i \<notin> fst ` set ts" using Cons.prems x by simp
  have "map_of (current m') i = Some mg" using start_loop_keeps [OF r _ i] mg by simp
  moreover have "dom (map_of (current m')) = dom (map_of (current m1)) \<union> fst ` set ts \<and>
    (\<forall>x \<in> set ts. \<exists>mg. map_of (current m') (fst x) = Some mg \<and> mg_https mg = (useTLS \<and> \<not> Unix (snd x)))"
    using Cons.IH [OF _ r] Cons.prems ok by simp
  moreover have "dom (map_of (current m1)) = insert i (dom (map_of (current m)))" using mg by simp
  ultimately show ?case using mg(1) x by simp
qed simp

section \<open>Close and the runs of a manager\<close>

lemma close_all_inv:
  "close_all cs e (m, w) = (e', m', w') \<Longrightarrow> mgr_inv (m, w) \<Longrightarrow> set cs \<subseteq> set (current m) \<Longrightarrow> distinct (map fst cs) \<Longrightarrow>
   mgr_inv (m', w') \<and> set (current m') = {x \<in> set (current m). fst x \<notin> fst ` set cs}"
proof (induction cs arbitrary: e m w)
  case (Cons c cs)
  obtain i mg where c: "c = (i, mg)" by force
  obtain ok w1 where b: "bind_call w = (ok, w1)" by force
  obtain m2 w2 where s: "stop i mg (m, w1) = (m2, w2)" by force
  have "mgr_inv (m, w1)" using bind_call_eq [OF b] Cons.prems by (simp add: mgr_inv_def fresh_def socks_def)
  then have "mgr_inv (m2, w2)" using stop_inv [of m w1 i mg] Cons.prems c s by simp
  moreover have m2: "current m2 = AList.delete i (current m)" using s by (auto simp: stop_def)
  moreover from this Cons.prems c have "set cs \<subseteq> set (current m2)" by (force simp: AList.delete_eq)
  ultimately have "mgr_inv (m', w') \<and> set (current m') = {x \<in> set (current m2). fst x \<notin> fst ` set cs}"
    using Cons c b s by auto
  then show ?case using m2 c by (auto simp: AList.delete_eq)
qed auto

lemma visits_current:
  assumes "visits rng" "distinct (map fst xs)"
  shows "set (rng_current rng xs) = set xs \<and> distinct (map fst (rng_current rng xs))"
  using assms by (metis distinct_map mset_eq_imp_distinct_iff mset_eq_setD visits_def)

lemma visits_wanted:
  assumes "visits rng" "distinct (map fst xs)"
  shows "set (rng_wanted rng xs) = set xs \<and> distinct (map fst (rng_wanted rng xs))"
  using assms by (metis distinct_map mset_eq_imp_distinct_iff mset_eq_setD visits_def)

lemma Sync_inv:
  assumes v: "visits rng" and inv: "mgr_inv (m, w)" and s: "Sync rng specs useTLS reload m w = (e, m', w')"
  shows "mgr_inv (m', w') \<and> bw_if w' = bw_if w"
proof (cases "resolve_specs (bw_if w) reload specs no_plan")
  case (Inl e)
  with s inv show ?thesis by (simp add: Sync_def)
next
  case (Inr p)
  have d: "distinct (map fst (current m))" using inv by (simp add: mgr_inv_def)
  obtain m1 w1 where c: "close_stale p (rng_current rng (current m)) (m, w) = (m1, w1)" by force
  have i1: "mgr_inv (m1, w1)" "bw_if w1 = bw_if w"
    using close_stale_inv [OF inv, of "rng_current rng (current m)" p] visits_current [OF v d] c by simp_all
  obtain le m2 w2 where l: "start_loop useTLS p (rng_wanted rng (wanted p)) None (m1, w1) = (le, m2, w2)"
    using prod_cases3 by blast
  have "plan_ok p" using resolve_specs_ok [OF Inr no_plan_ok] .
  then have "\<forall>x \<in> set (rng_wanted rng (wanted p)). fst x = targetID (snd x)"
    using visits_wanted [OF v, of "wanted p"] by (simp add: plan_ok_def)
  from start_loop_inv [OF l i1(1) this] i1 show ?thesis
    using s Inr c l by (auto simp: Sync_def split: if_splits)
qed

lemma Close_all:
  assumes v: "visits rng" and inv: "mgr_inv (m, w)" and s: "Close rng m w = (e, m', w')"
  shows "current m' = [] \<and> bw_open w' = [] \<and> mgr_inv (m', w')"
proof -
  have d: "distinct (map fst (current m))" using inv by (simp add: mgr_inv_def)
  have "mgr_inv (m', w')" "set (current m') = {}"
    using close_all_inv [of "rng_current rng (current m)" None m w e m' w'] s inv visits_current [OF v d]
    by (auto simp: Close_def)
  then show ?thesis by (simp add: mgr_inv_def entries_def socks_def)
qed

text \<open>The machine may change its interfaces and the outcomes of calls between two operations.\<close>

inductive mgr_run :: "Manager \<times> bind_world \<Rightarrow> bool" where
  start: "bw_open w = [] \<Longrightarrow> mgr_run (NewManager ug, w)"
| sync: "mgr_run (m, w) \<Longrightarrow> visits rng \<Longrightarrow> Sync rng specs useTLS reload m w = (e, m', w') \<Longrightarrow> mgr_run (m', w')"
| close: "mgr_run (m, w) \<Longrightarrow> visits rng \<Longrightarrow> Close rng m w = (e, m', w') \<Longrightarrow> mgr_run (m', w')"
| environment: "mgr_run (m, w) \<Longrightarrow> mgr_run (m, w\<lparr>bw_if := ni, bw_group := g, bw_calls := cs\<rparr>)"

lemma mgr_run_inv: "mgr_run mw \<Longrightarrow> mgr_inv mw"
proof (induction rule: mgr_run.induct)
  case (start w ug)
  then show ?case by (simp add: mgr_inv_def NewManager_def fresh_def entries_def socks_def)
next
  case (environment m w ni g cs)
  then show ?case by (simp add: mgr_inv_def fresh_def socks_def)
qed (use Sync_inv Close_all in blast)+

end
