(* ===== verification/Bind_Properties.thy ===== *)
theory Bind_Properties
  imports Bind_Manager
begin

text \<open>
  The properties of the listeners: the table of the manager and the open sockets agree in every
  run, \<open>Sync\<close> reaches the requested set and does not interrupt a listener that stays, and a
  specification resolves to addresses it names.
\<close>

section \<open>Shared lemmas\<close>

lemma Sync_plan:
  assumes v: "visits rng" and inv: "mgr_inv (m, w)"
    and p: "resolve_specs (bw_if w) reload specs no_plan = Inr p"
    and s: "Sync rng specs useTLS reload m w = (e, m', w')"
  obtains m1 w1 le where
    "start_loop useTLS p (rng_wanted rng (wanted p)) None (m1, w1) = (le, m', w')"
    "\<And>i. map_of (current m1) i =
       (case map_of (current m) i of None \<Rightarrow> None | Some mg \<Rightarrow> if keeps p i mg then Some mg else None)"
    "bw_calls w1 = bw_calls w" "e = None \<longleftrightarrow> current m' \<noteq> []"
proof -
  have d: "distinct (map fst (current m))" using inv by (simp add: mgr_inv_def)
  obtain m1 w1 where c: "close_stale p (rng_current rng (current m)) (m, w) = (m1, w1)" by force
  obtain le m2 w2 where l: "start_loop useTLS p (rng_wanted rng (wanted p)) None (m1, w1) = (le, m2, w2)"
    using prod_cases3 by blast
  have calls: "bw_calls (snd (close_stale p cs mw)) = bw_calls (snd mw)" for cs mw
    by (induction p cs mw rule: close_stale.induct) (auto simp: stop_def sock_close_def split: prod.splits)
  have e: "m2 = m'" "w2 = w'" "e = None \<longleftrightarrow> current m' \<noteq> []"
    using s p c l by (auto simp: Sync_def split: if_splits) (auto split: option.splits)
  note vc = visits_current [OF v d]
  have m1: "map_of (current m1) i =
      (if \<exists>mg. (i, mg) \<in> set (current m) \<and> \<not> keeps p i mg then None else map_of (current m) i)" for i
    using close_stale_current [of "rng_current rng (current m)" p m w i] vc c by simp
  have "map_of (current m1) i =
       (case map_of (current m) i of None \<Rightarrow> None | Some mg \<Rightarrow> if keeps p i mg then Some mg else None)" for i
  proof (cases "map_of (current m) i")
    case None
    then show ?thesis by (simp add: m1)
  next
    case (Some mg)
    then have "(i, mg') \<in> set (current m) \<longleftrightarrow> mg' = mg" for mg'
      using d by (metis map_of_eq_Some_iff option.inject)
    with Some show ?thesis unfolding m1 by (simp del: map_of_eq_Some_iff)
  qed
  moreover have "bw_calls w1 = bw_calls w" using calls [of "rng_current rng (current m)" "(m, w)"] c by simp
  ultimately show thesis using that l e by blast
qed

lemma plan_wanted:
  assumes "resolve_specs ni reload specs no_plan = Inr p"
  shows "plan_ok p" "fst ` set (wanted p) = targetID ` requested ni specs"
    "snd ` set (wanted p) \<subseteq> requested ni specs" "set (keepRaw p) = held ni reload specs"
  using resolve_specs_ok [OF assms no_plan_ok] resolve_specs_wanted [OF assms] resolve_specs_keepRaw [OF assms]
  by (auto simp: no_plan_def)

lemma dom_map_of_eq: "dom (map_of xs) = fst ` set xs"
  by (rule dom_map_of_conv_image_fst)

section \<open>Properties\<close>

text \<open>
  C15. In every state a manager can reach by \<open>Sync\<close> and \<open>Close\<close>, whatever the system calls
  return and whatever order Go visits its maps in, the listeners in the table are exactly the
  open listening sockets: no socket is leaked and no listener is dead, and each listener is
  under the identifier of the target its socket is bound to.
\<close>

theorem listeners_are_sockets:
  assumes "mgr_run (m, w)"
  shows "distinct (Names m) \<and>
    {(mg_ln mg, i) | i mg. (i, mg) \<in> set (current m)} = {(h, targetID t) | h t. (h, t) \<in> set (bw_open w)} \<and>
    length (current m) = length (bw_open w)"
proof (intro conjI)
  have inv: "mgr_inv (m, w)" using assms by (rule mgr_run_inv)
  then show "distinct (Names m)" by (simp add: mgr_inv_def Names_def)
  show "{(mg_ln mg, i) | i mg. (i, mg) \<in> set (current m)} = {(h, targetID t) | h t. (h, t) \<in> set (bw_open w)}"
    using inv by (auto simp: mgr_inv_def entries_def socks_def image_iff set_eq_iff; fastforce)
  have d: "distinct (map fst (bw_open w))" "distinct (map fst (current m))"
    using inv by (auto simp: mgr_inv_def fresh_def)
  have s: "socks w = entries (current m)" using inv by (simp add: mgr_inv_def)
  have "card (socks w) = length (bw_open w)"
  proof -
    have "inj_on (\<lambda>(h, t). (h, targetID t)) (set (bw_open w))"
      using d(1) by (auto simp: inj_on_def) (metis eq_key_imp_eq_value)
    then show ?thesis using d(1) by (simp add: socks_def card_image distinct_card distinct_map)
  qed
  moreover have "card (entries (current m)) = length (current m)"
  proof -
    have "inj_on (\<lambda>(i, mg). (mg_ln mg, i)) (set (current m))"
      using d(2) by (auto simp: inj_on_def) (metis eq_key_imp_eq_value)
    then show ?thesis using d(2) by (simp add: entries_def card_image distinct_card distinct_map)
  qed
  ultimately show "length (current m) = length (bw_open w)" using s by simp
qed

text \<open>
  C16. When every specification resolves and no call fails, \<open>Sync\<close> leaves exactly the requested
  listeners, TCP ones on TLS exactly when it is asked for and Unix sockets never, and it
  succeeds unless nothing was requested.
\<close>

theorem Sync_exact:
  assumes run: "mgr_run (m, w)" and v: "visits rng" and calls: "bw_calls w = []"
    and res: "list_all (\<lambda>sp. \<not> isl (Resolve (bw_if w) sp)) specs"
    and s: "Sync rng specs useTLS reload m w = (e, m', w')"
  shows "set (Names m') = targetID ` requested (bw_if w) specs \<and>
    (\<forall>(i, mg) \<in> set (current m').
       \<exists>t \<in> requested (bw_if w) specs. i = targetID t \<and> mg_https mg = (useTLS \<and> \<not> Unix t)) \<and>
    (e = None \<longleftrightarrow> requested (bw_if w) specs \<noteq> {})"
proof -
  note inv = mgr_run_inv [OF run]
  have held: "held (bw_if w) reload specs = {}"
    using res by (auto simp: held_def list_all_iff)
  have "\<exists>p. resolve_specs (bw_if w) reload specs q = Inr p" for q
    using res by (induction "bw_if w" reload specs q rule: resolve_specs.induct) (auto split: sum.splits)
  then obtain p where p: "resolve_specs (bw_if w) reload specs no_plan = Inr p" by blast
  note pw = plan_wanted [OF p]
  obtain m1 w1 le where l: "start_loop useTLS p (rng_wanted rng (wanted p)) None (m1, w1) = (le, m', w')"
    and m1: "\<And>i. map_of (current m1) i =
       (case map_of (current m) i of None \<Rightarrow> None | Some mg \<Rightarrow> if keeps p i mg then Some mg else None)"
    and c1: "bw_calls w1 = bw_calls w" and e: "e = None \<longleftrightarrow> current m' \<noteq> []"
    using Sync_plan [OF v inv p s] by blast
  have vw: "set (rng_wanted rng (wanted p)) = set (wanted p)" "distinct (map fst (rng_wanted rng (wanted p)))"
    using visits_wanted [OF v] pw(1) by (auto simp: plan_ok_def)
  have "dom (map_of (current m1)) \<subseteq> fst ` set (wanted p)"
    using pw(4) held by (auto simp: m1 keeps_def split: option.splits if_splits) (force dest: map_of_SomeD)
  with start_loop_ok [OF _ l vw(2)] c1 calls vw(1) have
    dom: "dom (map_of (current m')) = fst ` set (wanted p)"
    and tls: "\<forall>x \<in> set (wanted p). \<exists>mg. map_of (current m') (fst x) = Some mg \<and> mg_https mg = (useTLS \<and> \<not> Unix (snd x))"
    by auto
  then have n: "set (Names m') = targetID ` requested (bw_if w) specs"
    by (simp add: Names_def pw(2) dom_map_of_conv_image_fst)
  have "\<exists>t \<in> requested (bw_if w) specs. i = targetID t \<and> mg_https mg = (useTLS \<and> \<not> Unix t)"
    if "(i, mg) \<in> set (current m')" for i mg
  proof -
    have d: "distinct (map fst (current m'))"
      using Sync_inv [OF v inv s] by (simp add: mgr_inv_def)
    then have i: "map_of (current m') i = Some mg" using that by simp
    then have "i \<in> fst ` set (wanted p)" using dom by auto
    then obtain t where t: "(i, t) \<in> set (wanted p)" by auto
    then have "i = targetID t" "t \<in> requested (bw_if w) specs" using pw(1,3) by (auto simp: plan_ok_def)
    with tls t i show ?thesis by fastforce
  qed
  moreover have "e = None \<longleftrightarrow> requested (bw_if w) specs \<noteq> {}" using e n by (auto simp: Names_def)
  ultimately show ?thesis using n by blast
qed

text \<open>
  C17. A reload does not interrupt a listener that stays: one whose target is still requested
  with the same protocol, or whose specification cannot be resolved for the moment (a missing
  interface, a prefix with no local address), keeps its socket, however the calls for the other
  listeners end.
\<close>

theorem reload_keeps_listeners:
  assumes run: "mgr_run (m, w)" and v: "visits rng"
    and i: "(i, mg) \<in> set (current m)"
    and stays: "(\<exists>t \<in> requested (bw_if w) specs. i = targetID t) \<and>
        (\<forall>t \<in> requested (bw_if w) specs. i = targetID t \<longrightarrow> mg_https mg = (useTLS \<and> \<not> Unix t)) \<or>
      (\<forall>t \<in> requested (bw_if w) specs. i \<noteq> targetID t) \<and> mg_specRaw mg \<in> held (bw_if w) True specs"
    and s: "Sync rng specs useTLS True m w = (e, m', w')"
  shows "e = None \<and> (\<exists>mg' \<in> set (map snd (current m')). mg_ln mg' = mg_ln mg \<and> (i, mg') \<in> set (current m')) \<and>
    (\<exists>t. (mg_ln mg, t) \<in> set (bw_open w') \<and> i = targetID t)"
proof -
  note inv = mgr_run_inv [OF run]
  obtain p where p: "resolve_specs (bw_if w) True specs no_plan = Inr p" using resolve_specs_reload by blast
  note pw = plan_wanted [OF p]
  obtain m1 w1 le where l: "start_loop useTLS p (rng_wanted rng (wanted p)) None (m1, w1) = (le, m', w')"
    and m1: "\<And>i. map_of (current m1) i =
       (case map_of (current m) i of None \<Rightarrow> None | Some mg \<Rightarrow> if keeps p i mg then Some mg else None)"
    and e: "e = None \<longleftrightarrow> current m' \<noteq> []"
    using Sync_plan [OF v inv p s] by blast
  have vw: "set (rng_wanted rng (wanted p)) = set (wanted p)" "distinct (map fst (rng_wanted rng (wanted p)))"
    using visits_wanted [OF v] pw(1) by (auto simp: plan_ok_def)
  have "distinct (map fst (current m))" using inv by (simp add: mgr_inv_def)
  then have i0: "map_of (current m) i = Some mg" using i by simp
  have "\<exists>raw. map_of (current m') i = Some (mg\<lparr>mg_specRaw := raw\<rparr>)"
  proof (cases "i \<in> fst ` set (wanted p)")
    case True
    then obtain t where t: "(i, t) \<in> set (wanted p)" by auto
    then have "t \<in> requested (bw_if w) specs" "i = targetID t" using pw(1,3) by (auto simp: plan_ok_def)
    then have "mg_https mg = (useTLS \<and> \<not> Unix t)" using stays by blast
    moreover have "map_of (current m1) i = Some mg" using i0 True by (simp add: m1 keeps_def map_of_eq_None_iff)
    ultimately show ?thesis using start_loop_running [OF l] vw t by simp
  next
    case False
    then have "mg_specRaw mg \<in> set (keepRaw p)" using stays pw(2,4) by auto
    then have "map_of (current m1) i = Some mg" using i0 by (simp add: m1 keeps_def)
    from start_loop_keeps [OF l this] False vw(1) have "map_of (current m') i = Some mg" by simp
    then show ?thesis by (metis managed.surjective managed.update_convs(1))
  qed
  then obtain mg' where mg': "(i, mg') \<in> set (current m')" "mg_ln mg' = mg_ln mg"
    by (auto dest: map_of_SomeD)
  then have "(mg_ln mg, i) \<in> socks w'"
    using Sync_inv [OF v inv s] by (force simp: mgr_inv_def entries_def)
  with mg' e show ?thesis by (force simp: socks_def)
qed


section \<open>Witnesses\<close>

definition ex_netif :: netif where
  "ex_netif = \<lparr>ni_addrs = Some [ParseIP ''127.0.0.1'', ParseIP ''10.1.2.3'', ParseIP ''fe80::1''],
     ni_iface = (\<lambda>n. None)\<rparr>"

definition ex_bind_world :: bind_world where
  "ex_bind_world = \<lparr>bw_if = ex_netif, bw_group = None, bw_next = 3, bw_open = [], bw_calls = []\<rparr>"

definition ex_ranges :: ranges where
  "ex_ranges = \<lparr>rng_current = rev, rng_wanted = rev\<rparr>"

definition ex_specs :: "Spec list" where
  "ex_specs = map (\<lambda>s. case ParseSpec s of Inr sp \<Rightarrow> sp | Inl _ \<Rightarrow> new_spec [])
     [''10.0.0.0/8:443'', ''unix:///run/b.sock'']"

definition ex_manager :: Manager where
  "ex_manager = \<lparr>UnixGroup = ''web'', current =
     [(''unix|/run/b.sock|'', \<lparr>mg_specRaw = ''unix:///run/b.sock'', mg_https = False, mg_ln = 3\<rparr>),
      (''tcp4|10.1.2.3:443|'', \<lparr>mg_specRaw = ''10.0.0.0/8:443'', mg_https = True, mg_ln = 4\<rparr>)]\<rparr>"

definition ex_synced :: bind_world where
  "ex_synced = snd (snd (Sync ex_ranges ex_specs True False (NewManager ''web'') ex_bind_world))"

lemma ex_visits: "visits ex_ranges"
  by (simp add: visits_def ex_ranges_def)

lemma ex_Sync: "Sync ex_ranges ex_specs True False (NewManager ''web'') ex_bind_world = (None, ex_manager, ex_synced)"
proof -
  have "fst (Sync ex_ranges ex_specs True False (NewManager ''web'') ex_bind_world) = None" by code_simp
  moreover have "fst (snd (Sync ex_ranges ex_specs True False (NewManager ''web'') ex_bind_world)) = ex_manager"
    by code_simp
  ultimately show ?thesis by (metis ex_synced_def prod.collapse)
qed

lemma ex_start: "mgr_run (NewManager ''web'', ex_bind_world)"
  by (rule mgr_run.start) (simp add: ex_bind_world_def)

lemma ex_run: "mgr_run (ex_manager, ex_synced)"
  using ex_start ex_visits ex_Sync by (rule mgr_run.sync)

theorem listeners_are_sockets_witness:
  "mgr_run (ex_manager, ex_synced) \<and> length (current ex_manager) = 2 \<and> length (bw_open ex_synced) = 2"
proof -
  have "length (current ex_manager) = 2" by (simp add: ex_manager_def)
  with listeners_are_sockets [OF ex_run] ex_run show ?thesis by simp
qed

theorem Sync_exact_witness:
  "set (Names ex_manager) = {''tcp4|10.1.2.3:443|'', ''unix|/run/b.sock|''} \<and>
   set (Names ex_manager) = targetID ` requested ex_netif ex_specs"
proof -
  have "list_all (\<lambda>sp. \<not> isl (Resolve (bw_if ex_bind_world) sp)) ex_specs" by code_simp
  from Sync_exact [OF ex_start ex_visits _ this ex_Sync]
  have "set (Names ex_manager) = targetID ` requested ex_netif ex_specs" by (simp add: ex_bind_world_def)
  moreover have "set (Names ex_manager) = {''tcp4|10.1.2.3:443|'', ''unix|/run/b.sock|''}" by code_simp
  ultimately show ?thesis by simp
qed

text \<open>The address of the prefix is gone at the reload: its listener stays.\<close>

definition ex_changed :: bind_world where
  "ex_changed = ex_synced\<lparr>bw_if := ex_netif\<lparr>ni_addrs := Some []\<rparr>, bw_group := None, bw_calls := [False]\<rparr>"

theorem reload_keeps_listeners_witness:
  "\<exists>m' w' t. Sync ex_ranges ex_specs True True ex_manager ex_changed = (None, m', w') \<and>
     (4, t) \<in> set (bw_open w') \<and> targetID t = ''tcp4|10.1.2.3:443|''"
proof -
  obtain e m' w' where s: "Sync ex_ranges ex_specs True True ex_manager ex_changed = (e, m', w')"
    using prod_cases3 by blast
  define mg where "mg = \<lparr>mg_specRaw = ''10.0.0.0/8:443'', mg_https = True, mg_ln = 4\<rparr>"
  have run: "mgr_run (ex_manager, ex_changed)"
    unfolding ex_changed_def using ex_run by (rule mgr_run.environment)
  have i: "(''tcp4|10.1.2.3:443|'', mg) \<in> set (current ex_manager)" by (simp add: ex_manager_def mg_def)
  define ni where "ni = ex_netif\<lparr>ni_addrs := Some []\<rparr>"
  have b: "bw_if ex_changed = ni" by (simp add: ex_changed_def ni_def)
  obtain c u where cu: "ex_specs = [c, u]" "Raw c = ''10.0.0.0/8:443''" "sp_Kind c = KindCIDR" "sp_Kind u = KindUnix"
    "UnixPath u = ''/run/b.sock''"
  proof
    show "ex_specs = [ex_specs ! 0, ex_specs ! 1]" by code_simp
  qed code_simp+
  have c: "Resolve ni c = Inl (BindErr ''no local addresses'')"
  proof -
    have "Resolve (ex_netif\<lparr>ni_addrs := Some []\<rparr>) (ex_specs ! 0) = Inl (BindErr ''no local addresses'')" by code_simp
    then show ?thesis by (simp add: ni_def cu(1))
  qed
  have "requested ni ex_specs = {\<lparr>Network = ''unix'', Address = ''/run/b.sock'', Device = [], Unix = True\<rparr>}"
    unfolding cu(1) using c cu(4,5) by (auto simp: requested_def Resolve_def [of ni u])
  moreover have "mg_specRaw mg \<in> held ni True ex_specs" unfolding cu(1) using c cu(2,3) by (auto simp: held_def mg_def intro!: exI [of _ c])
  ultimately have "(\<forall>t \<in> requested (bw_if ex_changed) ex_specs. ''tcp4|10.1.2.3:443|'' \<noteq> targetID t) \<and>
      mg_specRaw mg \<in> held (bw_if ex_changed) True ex_specs" by (simp add: b targetID_def)
  from reload_keeps_listeners [OF run ex_visits i disjI2 [OF this] s] s show ?thesis by (auto simp: mg_def)
qed


end
