(* ===== verification/Web_State.thy ===== *)
theory Web_State
  imports Go_Prelude "HOL-Library.AList"
begin

text \<open>
  The in-memory state of the server in \<open>internal/web/server.go\<close>: pending OAuth transactions
  and OpenVPN capability tickets (two maps, each changed only under its mutex, so every
  function is one step), and the signed state parameter of the login redirect.

  Times are integers in nanoseconds; \<open>now\<close> is an argument. A Go map is an association list
  with distinct keys, so \<open>len\<close> is its length. The bytes of \<open>crypto/rand\<close> are an argument,
  \<open>None\<close> for a failed read; HMAC-SHA256 is the parameter \<open>mac\<close>.
\<close>

section \<open>Constants and maps\<close>

definition second :: int where "second = 1000000000"
definition sessionTTL :: int where "sessionTTL = 7 * 24 * 3600 * second"
definition oauthTTL :: int where "oauthTTL = 15 * 60 * second"
definition oauthMaxTx :: nat where "oauthMaxTx = 1024"
definition ovpnTicketTTL :: int where "ovpnTicketTTL = 60 * second"
definition ovpnMaxTickets :: nat where "ovpnMaxTickets = 1024"
definition ovpnTicketUses :: int where "ovpnTicketUses = 2"

type_synonym 'v gomap = "(string \<times> 'v) list"

definition map_purge :: "('v \<Rightarrow> int) \<Rightarrow> int \<Rightarrow> 'v gomap \<Rightarrow> 'v gomap" where
  "map_purge ex now m = filter (\<lambda>(k, v). \<not> now > ex v) m"

definition randomHex :: "string option \<Rightarrow> string option" where
  "randomHex rnd = map_option hex_encode rnd"

section \<open>OAuth transactions\<close>

record oauthTx =
  x_nonce :: string
  x_verifier :: string
  x_provider :: string
  x_exp :: int

datatype web_error = TicketsFull | TxFull | NoTx | TxExpired | RandFail | BadState | BadMac | StateExpired

definition putOauthTx ::
  "string \<Rightarrow> string \<Rightarrow> string \<Rightarrow> string \<Rightarrow> int \<Rightarrow> int \<Rightarrow> oauthTx gomap \<Rightarrow> (web_error + unit) \<times> oauthTx gomap" where
  "putOauthTx i provider nonce verifier ex now m =
     (let m1 = map_purge x_exp now m in
      if map_of m1 i = None \<and> length m1 \<ge> oauthMaxTx then (Inl TxFull, m1)
      else (Inr (), AList.update i \<lparr>x_nonce = nonce, x_verifier = verifier, x_provider = provider, x_exp = ex\<rparr> m1))"

definition takeOauthTx ::
  "string \<Rightarrow> int \<Rightarrow> oauthTx gomap \<Rightarrow> (web_error + string \<times> string \<times> string) \<times> oauthTx gomap" where
  "takeOauthTx i now m =
     (case map_of m i of
        None \<Rightarrow> (Inl NoTx, m)
      | Some tx \<Rightarrow>
          (let m1 = AList.delete i m in
           if now > x_exp tx then (Inl TxExpired, m1)
           else (Inr (x_nonce tx, x_provider tx, x_verifier tx), m1)))"

section \<open>OpenVPN tickets\<close>

record ovpnTicket =
  t_pam :: string
  t_homeID :: string
  t_iss :: string
  t_sub :: string
  t_rel :: string
  t_sid :: string
  t_exp :: int
  t_left :: int

definition mintOvpnTicket ::
  "ovpnTicket \<Rightarrow> string option \<Rightarrow> int \<Rightarrow> ovpnTicket gomap \<Rightarrow> (web_error + string) \<times> ovpnTicket gomap" where
  "mintOvpnTicket t rnd now m =
     (case randomHex rnd of
        None \<Rightarrow> (Inl RandFail, m)
      | Some i \<Rightarrow>
          (let m1 = map_purge t_exp now m in
           if map_of m1 i = None \<and> length m1 \<ge> ovpnMaxTickets then (Inl TicketsFull, m1)
           else (Inr i, AList.update i (t\<lparr>t_exp := now + ovpnTicketTTL, t_left := ovpnTicketUses\<rparr>) m1)))"

definition putOvpnTicket ::
  "string \<Rightarrow> string \<Rightarrow> string \<Rightarrow> string option \<Rightarrow> int \<Rightarrow> ovpnTicket gomap \<Rightarrow> (web_error + string) \<times> ovpnTicket gomap" where
  "putOvpnTicket pam rel sid =
     mintOvpnTicket \<lparr>t_pam = pam, t_homeID = [], t_iss = [], t_sub = [], t_rel = rel, t_sid = sid, t_exp = 0, t_left = 0\<rparr>"

definition dropOvpnTicket :: "string \<Rightarrow> ovpnTicket gomap \<Rightarrow> ovpnTicket gomap" where
  "dropOvpnTicket i m = AList.delete i m"

definition lookupOvpnTicket :: "string \<Rightarrow> bool \<Rightarrow> int \<Rightarrow> ovpnTicket gomap \<Rightarrow> ovpnTicket option \<times> ovpnTicket gomap" where
  "lookupOvpnTicket i consume now m =
     (case map_of m i of
        None \<Rightarrow> (None, m)
      | Some t \<Rightarrow>
          if now > t_exp t then (None, AList.delete i m)
          else if \<not> consume then (Some t, m)
          else (let t' = t\<lparr>t_left := t_left t - 1\<rparr> in
                (Some t', if t_left t' \<le> 0 then AList.delete i m else AList.update i t' m)))"

definition peekOvpnTicket :: "string \<Rightarrow> int \<Rightarrow> ovpnTicket gomap \<Rightarrow> ovpnTicket option \<times> ovpnTicket gomap" where
  "peekOvpnTicket i = lookupOvpnTicket i False"

definition takeOvpnTicket :: "string \<Rightarrow> int \<Rightarrow> ovpnTicket gomap \<Rightarrow> ovpnTicket option \<times> ovpnTicket gomap" where
  "takeOvpnTicket i = lookupOvpnTicket i True"

section \<open>The signed state\<close>

text \<open>\<open>base64.RawURLEncoding\<close>; decoding skips line breaks.\<close>

definition b64_char :: "nat \<Rightarrow> char" where
  "b64_char n = (if n < 26 then char_of (65 + n) else if n < 52 then char_of (71 + n)
     else if n < 62 then char_of (n - 4) else if n = 62 then CHR ''-'' else CHR ''_'')"

definition b64_val :: "char \<Rightarrow> nat option" where
  "b64_val c = (let n = byte_of c in
     if in_range 65 90 n then Some (n - 65) else if in_range 97 122 n then Some (n - 71)
     else if in_range 48 57 n then Some (n + 4) else if c = CHR ''-'' then Some 62
     else if c = CHR ''_'' then Some 63 else None)"

fun b64_sextets :: "nat list \<Rightarrow> nat list" where
  "b64_sextets [] = []"
| "b64_sextets [a] = [a div 4, a mod 4 * 16]"
| "b64_sextets [a, b] = [a div 4, a mod 4 * 16 + b div 16, b mod 16 * 4]"
| "b64_sextets (a # b # c # r) =
     a div 4 # (a mod 4 * 16 + b div 16) # (b mod 16 * 4 + c div 64) # c mod 64 # b64_sextets r"

fun b64_octets :: "nat list \<Rightarrow> nat list option" where
  "b64_octets [] = Some []"
| "b64_octets [w] = None"
| "b64_octets [w, x] = Some [w * 4 + x div 16]"
| "b64_octets [w, x, y] = Some [w * 4 + x div 16, x mod 16 * 16 + y div 4]"
| "b64_octets (w # x # y # z # r) =
     map_option (\<lambda>bs. (w * 4 + x div 16) # (x mod 16 * 16 + y div 4) # (y mod 4 * 64 + z) # bs) (b64_octets r)"

fun option_all :: "'a option list \<Rightarrow> 'a list option" where
  "option_all [] = Some []"
| "option_all (x # xs) = (case x of None \<Rightarrow> None | Some y \<Rightarrow> map_option ((#) y) (option_all xs))"

definition b64_encode :: "string \<Rightarrow> string" where
  "b64_encode s = map b64_char (b64_sextets (map byte_of s))"

definition b64_decode :: "string \<Rightarrow> string option" where
  "b64_decode s =
     (case option_all (map b64_val (filter (\<lambda>c. c \<noteq> CHR 0x0A \<and> c \<noteq> CHR 0x0D) s)) of
        None \<Rightarrow> None
      | Some ns \<Rightarrow> map_option (map char_of) (b64_octets ns))"

definition signState :: "(string \<Rightarrow> string \<Rightarrow> string) \<Rightarrow> string \<Rightarrow> string \<Rightarrow> int \<Rightarrow> string" where
  "signState mac key nonce now =
     (let payload = show_int (now div second) @ '':'' @ nonce
      in b64_encode (payload @ '':'' @ hex_encode (mac key payload)))"

definition verifyState :: "(string \<Rightarrow> string \<Rightarrow> string) \<Rightarrow> string \<Rightarrow> string \<Rightarrow> int \<Rightarrow> web_error + string" where
  "verifyState mac key state now =
     (case b64_decode state of
        None \<Rightarrow> Inl BadState
      | Some b \<Rightarrow>
          (case split_sep (CHR '':'') b of
             [ts, nonce, sig] \<Rightarrow>
               (let payload = ts @ '':'' @ nonce in
                case hex_decode sig of
                  None \<Rightarrow> Inl BadState
                | Some want \<Rightarrow>
                    if mac key payload \<noteq> want then Inl BadMac
                    else (case parse_int64 ts of
                            None \<Rightarrow> Inl BadState
                          | Some sec \<Rightarrow>
                              if now - sec * second > 15 * 60 * second then Inl StateExpired else Inr nonce))
           | _ \<Rightarrow> Inl BadState))"

section \<open>Lemmas on the maps\<close>

lemma map_purge_of: "distinct (map fst m) \<Longrightarrow>
  map_of (map_purge ex now m) i = (case map_of m i of None \<Rightarrow> None | Some v \<Rightarrow> if now > ex v then None else Some v)"
  by (induction m) (auto simp: map_purge_def map_of_eq_None_iff split: option.splits)

lemma map_purge_distinct: "distinct (map fst m) \<Longrightarrow> distinct (map fst (map_purge ex now m))"
  by (simp add: map_purge_def distinct_map_filter)

lemma map_purge_length: "length (map_purge ex now m) \<le> length m"
  by (simp add: map_purge_def)

lemma update_length: "length (AList.update k v m) = (if map_of m k = None then Suc (length m) else length m)"
  by (induction m) (auto simp: map_of_eq_None_iff)

lemma delete_length: "length (AList.delete k m) \<le> length m"
  by (simp add: AList.delete_eq)

section \<open>The invariant of the tables\<close>

definition tx_inv :: "oauthTx gomap \<Rightarrow> bool" where
  "tx_inv m \<longleftrightarrow> distinct (map fst m) \<and> length m \<le> oauthMaxTx"

definition ticket_inv :: "int \<Rightarrow> ovpnTicket gomap \<Rightarrow> bool" where
  "ticket_inv now m \<longleftrightarrow> distinct (map fst m) \<and> length m \<le> ovpnMaxTickets \<and>
     (\<forall>i t. map_of m i = Some t \<longrightarrow> 1 \<le> t_left t \<and> t_left t \<le> ovpnTicketUses \<and> t_exp t \<le> now + ovpnTicketTTL)"

lemma putOauthTx_inv: "tx_inv m \<Longrightarrow> tx_inv (snd (putOauthTx i p n v ex now m))"
  using map_purge_length [of x_exp now m]
  by (auto simp: tx_inv_def putOauthTx_def Let_def map_purge_distinct distinct_update update_length)

lemma takeOauthTx_inv: "tx_inv m \<Longrightarrow> tx_inv (snd (takeOauthTx i now m))"
  using delete_length [of i m]
  by (auto simp: tx_inv_def takeOauthTx_def Let_def distinct_delete split: option.splits)

lemma ticket_inv_mono: "ticket_inv now m \<Longrightarrow> now \<le> now' \<Longrightarrow> ticket_inv now' m"
  by (fastforce simp: ticket_inv_def)

lemma ticket_inv_update:
  assumes "ticket_inv now m" "map_of m i = None \<Longrightarrow> length m < ovpnMaxTickets"
    and "1 \<le> t_left t" "t_left t \<le> ovpnTicketUses" "t_exp t \<le> now + ovpnTicketTTL"
  shows "ticket_inv now (AList.update i t m)"
  using assms by (auto simp: ticket_inv_def distinct_update update_length update_conv' simp del: map_of_eq_Some_iff)

lemma ticket_inv_purge: "ticket_inv now m \<Longrightarrow> ticket_inv now (map_purge t_exp now m)"
  using map_purge_length [of t_exp now m]
  by (auto simp: ticket_inv_def map_purge_distinct map_purge_of simp del: map_of_eq_Some_iff
      split: option.splits if_splits)

lemma mint_inv: "ticket_inv now m \<Longrightarrow> ticket_inv now (snd (mintOvpnTicket t rnd now m))"
  using ticket_inv_purge [of now m]
  by (auto simp: mintOvpnTicket_def Let_def ovpnTicketUses_def intro!: ticket_inv_update split: option.splits)

lemma drop_inv: "ticket_inv now m \<Longrightarrow> ticket_inv now (dropOvpnTicket i m)"
  using delete_length [of i m]
  by (auto simp: ticket_inv_def dropOvpnTicket_def distinct_delete delete_conv' simp del: map_of_eq_Some_iff
      split: if_splits)

lemma lookup_inv:
  assumes "ticket_inv now m"
  shows "ticket_inv now (snd (lookupOvpnTicket i consume now m))"
proof (cases "map_of m i")
  case (Some t)
  with assms have t: "1 \<le> t_left t" "t_left t \<le> ovpnTicketUses" "t_exp t \<le> now + ovpnTicketTTL"
    by (auto simp: ticket_inv_def simp del: map_of_eq_Some_iff)
  with assms Some drop_inv [OF assms, of i] show ?thesis
    by (auto simp: lookupOvpnTicket_def dropOvpnTicket_def Let_def intro!: ticket_inv_update)
qed (use assms in \<open>simp add: lookupOvpnTicket_def\<close>)

section \<open>Runs of the ticket table\<close>

datatype ticket_op =
  Mint ovpnTicket "string option"
| Drop string
| Peek string
| Take string

text \<open>An operation at a time: the served ticket, if any, and the next table.\<close>

fun ticket_step :: "ticket_op \<Rightarrow> int \<Rightarrow> ovpnTicket gomap \<Rightarrow> ovpnTicket option \<times> ovpnTicket gomap" where
  "ticket_step (Mint t rnd) now m = (None, snd (mintOvpnTicket t rnd now m))"
| "ticket_step (Drop i) now m = (None, dropOvpnTicket i m)"
| "ticket_step (Peek i) now m = peekOvpnTicket i now m"
| "ticket_step (Take i) now m = takeOvpnTicket i now m"

inductive ticket_run :: "int \<Rightarrow> ovpnTicket gomap \<Rightarrow> bool" where
  Start: "ticket_run now []"
| Step: "ticket_run now m \<Longrightarrow> now \<le> now' \<Longrightarrow> ticket_run now' (snd (ticket_step op now' m))"

lemma ticket_step_inv: "ticket_inv now m \<Longrightarrow> ticket_inv now (snd (ticket_step op now m))"
  by (cases op) (auto simp: mint_inv drop_inv lookup_inv peekOvpnTicket_def takeOvpnTicket_def)

lemma ticket_run_inv: "ticket_run now m \<Longrightarrow> ticket_inv now m"
proof (induction rule: ticket_run.induct)
  case (Start now)
  then show ?case by (simp add: ticket_inv_def ovpnMaxTickets_def)
next
  case (Step now m now' op)
  then show ?case by (auto intro: ticket_step_inv ticket_inv_mono)
qed

text \<open>How many operations of a timed sequence that name the token take a ticket with it.\<close>

fun taken :: "string \<Rightarrow> (ticket_op \<times> int) list \<Rightarrow> ovpnTicket gomap \<Rightarrow> nat" where
  "taken i [] m = 0"
| "taken i ((op, now) # ops) m =
     (case ticket_step op now m of (r, m') \<Rightarrow>
       (if op = Take i \<and> r \<noteq> None then 1 else 0) + taken i ops m')"

definition mints :: "string \<Rightarrow> ticket_op \<Rightarrow> bool" where
  "mints i op \<longleftrightarrow> (\<exists>t b. op = Mint t (Some b) \<and> hex_encode b = i)"

definition uses_left :: "string \<Rightarrow> ovpnTicket gomap \<Rightarrow> nat" where
  "uses_left i m = (case map_of m i of None \<Rightarrow> 0 | Some t \<Rightarrow> nat (t_left t))"

lemma uses_left_update: "i \<noteq> j \<Longrightarrow> uses_left i (AList.update j t m) = uses_left i m"
  by (simp add: uses_left_def update_conv')

lemma step_uses:
  assumes "ticket_inv now0 m" "\<not> mints i op" "ticket_step op now m = (r, m')"
  shows "uses_left i m' + (if op = Take i \<and> r \<noteq> None then 1 else 0) \<le> uses_left i m"
proof (cases op)
  case (Mint t rnd)
  have "uses_left i (map_purge t_exp now m) \<le> uses_left i m"
    using assms(1) by (auto simp: uses_left_def ticket_inv_def map_purge_of simp del: map_of_eq_Some_iff split: option.splits)
  with Mint assms show ?thesis
    by (cases rnd)
       (auto simp: mints_def mintOvpnTicket_def randomHex_def Let_def uses_left_update split: if_splits)
next
  case (Drop j)
  with assms(3) show ?thesis by (auto simp: dropOvpnTicket_def uses_left_def delete_conv')
next
  case (Peek j)
  with assms(3) show ?thesis
    by (auto simp: peekOvpnTicket_def lookupOvpnTicket_def uses_left_def delete_conv' split: option.splits if_splits)
next
  case (Take j)
  have "1 \<le> t_left t" if "map_of m i = Some t" for t
    using assms(1) that by (auto simp: ticket_inv_def simp del: map_of_eq_Some_iff)
  with Take assms(3) show ?thesis
    by (auto simp: takeOvpnTicket_def lookupOvpnTicket_def Let_def uses_left_def delete_conv' update_conv'
        split: option.splits if_splits)
qed

lemma taken_le: "ticket_inv now0 m \<Longrightarrow> sorted (now0 # map snd ops) \<Longrightarrow> list_all (\<lambda>(op, _). \<not> mints i op) ops \<Longrightarrow>
   taken i ops m \<le> uses_left i m"
proof (induction ops arbitrary: m now0)
  case (Cons x ops)
  obtain op now where x: "x = (op, now)" by force
  obtain r m' where s: "ticket_step op now m = (r, m')" by force
  have inv: "ticket_inv now m" using Cons.prems x ticket_inv_mono by auto
  have inv': "ticket_inv now m'" using ticket_step_inv [OF inv, of op] s by simp
  have "taken i ops m' \<le> uses_left i m'" by (rule Cons.IH [OF inv']) (use Cons.prems x in auto)
  moreover have "uses_left i m' + (if op = Take i \<and> r \<noteq> None then 1 else 0) \<le> uses_left i m"
    by (rule step_uses [OF inv _ s]) (use Cons.prems x in auto)
  ultimately show ?case using x s by simp
qed simp

section \<open>Lemmas on the signed state\<close>

lemma b64_val_char: "n < 64 \<Longrightarrow> b64_val (b64_char n) = Some n"
proof -
  have "list_all (\<lambda>n. b64_val (b64_char n) = Some n) [0..<64]" by code_simp
  then show "n < 64 \<Longrightarrow> ?thesis" by (auto simp: list_all_iff)
qed

lemma b64_char_no_break: "n < 64 \<Longrightarrow> b64_char n \<noteq> CHR 0x0A \<and> b64_char n \<noteq> CHR 0x0D"
  using b64_val_char [of n] by (auto simp: b64_val_def byte_of_def in_range_def)

lemma byte_parts:
  assumes "(a :: nat) < 256"
  shows "a div 4 < 64" "a div 16 < 16" "a div 64 < 4" "a mod 4 < 4" "a mod 16 < 16" "a mod 64 < 64"
  using assms by (auto simp: less_mult_imp_div_less)

lemma sextet_parts:
  "y < 16 \<Longrightarrow> (x * 16 + y) div 16 = x \<and> (x * 16 + y) mod 16 = (y :: nat)"
  "y < 4 \<Longrightarrow> (x * 4 + y) div 4 = x \<and> (x * 4 + y) mod 4 = (y :: nat)"
  by simp_all

lemma b64_sextets_less: "list_all (\<lambda>n. n < 256) bs \<Longrightarrow> list_all (\<lambda>n. n < 64) (b64_sextets bs)"
proof (induction bs rule: b64_sextets.induct)
  case (4 a b c r)
  then have "a < 256" "b < 256" "c < 256" by auto
  note p = byte_parts [OF this(1)] byte_parts [OF this(2)] byte_parts [OF this(3)]
  have "a mod 4 * 16 + b div 16 < 64" "b mod 16 * 4 + c div 64 < 64" using p by linarith+
  with p 4 show ?case by simp
next
  case (2 a)
  then have "a < 256" by simp
  note p = byte_parts [OF this]
  have "a mod 4 * 16 < 64" using p by linarith
  with p show ?case by simp
next
  case (3 a b)
  then have "a < 256" "b < 256" by auto
  note p = byte_parts [OF this(1)] byte_parts [OF this(2)]
  have "a mod 4 * 16 + b div 16 < 64" "b mod 16 * 4 < 64" using p by linarith+
  with p show ?case by simp
qed simp

lemma b64_octets_sextets: "list_all (\<lambda>n. n < 256) bs \<Longrightarrow> b64_octets (b64_sextets bs) = Some bs"
proof (induction bs rule: b64_sextets.induct)
  case (3 a b)
  then have "b div 16 < 16" using byte_parts(2) [of b] by simp
  then show ?case using sextet_parts(1) [of "b div 16" "a mod 4"] by simp
next
  case (4 a b c r)
  then have "b div 16 < 16" "c div 64 < 4" using byte_parts by auto
  then show ?case
    using 4 sextet_parts(1) [of "b div 16" "a mod 4"] sextet_parts(2) [of "c div 64" "b mod 16"] by simp
qed simp_all

lemma option_all_map: "(\<And>x. x \<in> set xs \<Longrightarrow> f x = Some (g x)) \<Longrightarrow> option_all (map f xs) = Some (map g xs)"
  by (induction xs) auto

lemma b64_decode_encode: "b64_decode (b64_encode s) = Some s"
proof -
  have bs: "list_all (\<lambda>n. n < 256) (map byte_of s)" by (simp add: list_all_iff byte_of_less)
  note l = b64_sextets_less [OF bs]
  let ?ns = "b64_sextets (map byte_of s)"
  have "filter (\<lambda>c. c \<noteq> CHR 0x0A \<and> c \<noteq> CHR 0x0D) (map b64_char ?ns) = map b64_char ?ns"
    using l b64_char_no_break by (auto simp: filter_id_conv list_all_iff)
  moreover have "option_all (map b64_val (map b64_char ?ns)) = Some (map id ?ns)"
    unfolding map_map by (rule option_all_map) (use l b64_val_char in \<open>auto simp: list_all_iff\<close>)
  moreover have "map (char_of \<circ> byte_of) s = s" by (rule map_idI) (simp add: byte_of_def)
  ultimately show ?thesis
    by (simp add: b64_decode_def b64_encode_def b64_octets_sextets [OF bs])
qed

lemma show_int_no_colon: "CHR '':'' \<notin> set (show_int i)"
proof -
  have "CHR '':'' \<notin> set (show_nat n)" for n
    using show_nat_digits [of n] by (auto simp: list_all_iff is_digit_def byte_of_def)
  then show ?thesis by (simp add: show_int_def)
qed

lemma hex_no_colon: "CHR '':'' \<notin> set (hex_encode b)"
  using set_hex_encode [of "CHR '':''" b] by (auto simp: in_range_def byte_of_def)

lemma verify_sign:
  assumes "CHR '':'' \<notin> set nonce" "- (2 ^ 63) \<le> t div second" "t div second < 2 ^ 63"
  shows "verifyState mac key (signState mac key nonce t) now =
    (if now - (t div second) * second > 15 * 60 * second then Inl StateExpired else Inr nonce)"
proof -
  let ?ts = "show_int (t div second)"
  let ?sig = "hex_encode (mac key (?ts @ '':'' @ nonce))"
  have "split_sep (CHR '':'') (?ts @ CHR '':'' # nonce @ CHR '':'' # ?sig) = [?ts, nonce, ?sig]"
    using assms(1) show_int_no_colon hex_no_colon by (simp add: split_sep_append split_sep_simple)
  then show ?thesis
    using parse_show_int [OF assms(2,3)]
    by (simp add: verifyState_def signState_def Let_def b64_decode_encode hex_decode_encode)
qed

end
