(* ===== verification/Server_State_Properties.thy ===== *)
theory Server_State_Properties
  imports Web_State Osutil
begin

text \<open>
  The properties of the server's in-memory tables and of the signed login state, and of
  \<open>osutil.Confine\<close>.
\<close>

section \<open>Shared lemmas\<close>

fun ticket_after :: "(ticket_op \<times> int) list \<Rightarrow> ovpnTicket gomap \<Rightarrow> ovpnTicket gomap" where
  "ticket_after [] m = m"
| "ticket_after ((op, now) # ops) m = ticket_after ops (snd (ticket_step op now m))"

definition dies_by :: "string \<Rightarrow> int \<Rightarrow> ovpnTicket gomap \<Rightarrow> bool" where
  "dies_by i ex m \<longleftrightarrow> (case map_of m i of None \<Rightarrow> True | Some t \<Rightarrow> t_exp t \<le> ex)"

lemma dies_by_step:
  assumes "ticket_inv now0 m" "dies_by i ex m" "\<not> mints i op"
  shows "dies_by i ex (snd (ticket_step op now m))"
proof (cases op)
  case (Mint t rnd)
  have p: "dies_by i ex (map_purge t_exp now m)"
    using assms(1,2)
    by (auto simp: dies_by_def ticket_inv_def map_purge_of simp del: map_of_eq_Some_iff split: option.splits)
  have "dies_by i ex (AList.update j t' m') = dies_by i ex m'" if "i \<noteq> j" for j t' m'
    using that by (simp add: dies_by_def update_conv')
  with Mint assms p show ?thesis
    by (cases rnd) (auto simp: mints_def mintOvpnTicket_def randomHex_def Let_def)
next
  case (Drop j)
  with assms(2) show ?thesis by (auto simp: dropOvpnTicket_def dies_by_def delete_conv')
next
  case (Peek j)
  with assms(2) show ?thesis
    by (auto simp: peekOvpnTicket_def lookupOvpnTicket_def dies_by_def delete_conv' split: option.splits)
next
  case (Take j)
  with assms(2) show ?thesis
    by (auto simp: takeOvpnTicket_def lookupOvpnTicket_def Let_def dies_by_def delete_conv' update_conv'
        split: option.splits)
qed

lemma dies_by_after:
  "ticket_inv now0 m \<Longrightarrow> sorted (now0 # map snd ops) \<Longrightarrow> list_all (\<lambda>(op, _). \<not> mints i op) ops \<Longrightarrow>
   dies_by i ex m \<Longrightarrow> dies_by i ex (ticket_after ops m)"
proof (induction ops arbitrary: m now0)
  case (Cons x ops)
  obtain op now where x: "x = (op, now)" by force
  have inv: "ticket_inv now m" using Cons.prems x ticket_inv_mono by auto
  have inv': "ticket_inv now (snd (ticket_step op now m))" using ticket_step_inv [OF inv] by simp
  have "dies_by i ex (snd (ticket_step op now m))"
    using dies_by_step [OF inv Cons.prems(4)] Cons.prems x by simp
  then show ?case using Cons.IH [OF inv'] Cons.prems x by simp
qed simp

lemma mint_new:
  "mintOvpnTicket t (Some b) now m = (Inr i, m1) \<Longrightarrow>
   i = hex_encode b \<and> map_of m1 i = Some (t\<lparr>t_exp := now + ovpnTicketTTL, t_left := ovpnTicketUses\<rparr>)"
  by (auto simp: mintOvpnTicket_def randomHex_def Let_def update_conv' split: if_splits)

lemma mint_run:
  assumes "ticket_run now m" "mintOvpnTicket t rnd now m = (r, m1)"
  shows "ticket_inv now m1"
  using mint_inv [OF ticket_run_inv [OF assms(1)], of t rnd] assms(2) by simp

section \<open>OpenVPN tickets\<close>

text \<open>
  C19. A capability token is used at most twice: after a ticket is minted, every later sequence
  of operations on the table (mints of other tokens, drops, peeks and takes, at non-decreasing
  times) serves it to at most two takes.
\<close>

theorem ticket_two_uses:
  assumes "ticket_run now m" "mintOvpnTicket t (Some b) now m = (Inr i, m1)"
    and "sorted (now # map snd ops)" "list_all (\<lambda>(op, _). \<not> mints i op) ops"
  shows "taken i ops m1 \<le> 2"
proof -
  have "taken i ops m1 \<le> uses_left i m1"
    by (rule taken_le [OF mint_run [OF assms(1,2)] assms(3,4)])
  also have "uses_left i m1 = 2"
    using mint_new [OF assms(2)] by (auto simp: uses_left_def ovpnTicketUses_def)
  finally show ?thesis .
qed

text \<open>
  A token is dead sixty seconds after it was minted: whatever happened to the table in
  between, neither a peek nor a take finds it, and the lookup removes it.
\<close>

theorem ticket_expires:
  assumes "ticket_run now m" "mintOvpnTicket t (Some b) now m = (Inr i, m1)"
    and "sorted (now # map snd ops)" "list_all (\<lambda>(op, _). \<not> mints i op) ops"
    and "later > now + 60 * second"
  shows "fst (lookupOvpnTicket i consume later (ticket_after ops m1)) = None \<and>
    map_of (snd (lookupOvpnTicket i consume later (ticket_after ops m1))) i = None"
proof -
  have "dies_by i (now + ovpnTicketTTL) m1"
    using mint_new [OF assms(2)] by (auto simp: dies_by_def)
  from dies_by_after [OF mint_run [OF assms(1,2)] assms(3,4) this] assms(5)
  show ?thesis
    by (auto simp: dies_by_def lookupOvpnTicket_def ovpnTicketTTL_def delete_conv' split: option.splits)
qed

text \<open>
  C21. The ticket table stays bounded: after any sequence of operations it holds at most 1024
  tickets, each with one or two uses left and expiring within sixty seconds.
\<close>

theorem ticket_table_bounded:
  assumes "ticket_run now m"
  shows "distinct (map fst m) \<and> length m \<le> 1024 \<and>
    list_all (\<lambda>(i, t). t_left t \<in> {1, 2} \<and> t_exp t \<le> now + 60 * second) m"
proof -
  have inv: "ticket_inv now m" using assms by (rule ticket_run_inv)
  have "t_left t \<in> {1, 2} \<and> t_exp t \<le> now + 60 * second" if "(i, t) \<in> set m" for i t
  proof -
    have "map_of m i = Some t" using inv that by (simp add: ticket_inv_def)
    then have "1 \<le> t_left t \<and> t_left t \<le> ovpnTicketUses \<and> t_exp t \<le> now + ovpnTicketTTL"
      using inv unfolding ticket_inv_def by blast
    then show ?thesis by (auto simp: ovpnTicketUses_def ovpnTicketTTL_def)
  qed
  then show ?thesis using inv by (auto simp: ticket_inv_def ovpnMaxTickets_def list_all_iff)
qed

section \<open>OAuth transactions\<close>

text \<open>
  C22. A login transaction is one-shot: what \<open>putOauthTx\<close> stores, the first \<open>takeOauthTx\<close> before
  its expiry returns and a later one refuses; either way it is gone afterwards, so a second
  take finds nothing, and the transactions under other identifiers are not touched.
\<close>

theorem oauth_tx_once:
  assumes "putOauthTx i provider nonce verifier ex now m = (Inr (), m1)"
  shows "fst (takeOauthTx i later m1) =
      (if later > ex then Inl TxExpired else Inr (nonce, provider, verifier)) \<and>
    takeOauthTx i later2 (snd (takeOauthTx i later m1)) = (Inl NoTx, snd (takeOauthTx i later m1)) \<and>
    (j = i \<or> map_of (snd (takeOauthTx i later m1)) j = map_of m1 j)"
proof -
  have "map_of m1 i = Some \<lparr>x_nonce = nonce, x_verifier = verifier, x_provider = provider, x_exp = ex\<rparr>"
    using assms by (auto simp: putOauthTx_def Let_def update_conv' split: if_splits)
  then show ?thesis by (simp add: takeOauthTx_def Let_def delete_conv')
qed

section \<open>The signed state\<close>

text \<open>
  C23. The state parameter round-trips: a state signed at time \<open>t\<close> over a nonce of hexadecimal
  digits verifies with the same key to that nonce for fifteen minutes and is refused as expired
  afterwards.
\<close>

theorem state_roundtrip:
  assumes "nonce = hex_encode b" "0 \<le> t" "t div second < 2 ^ 63"
  shows "verifyState mac key (signState mac key nonce t) now =
    (if now - t div second * second > 15 * 60 * second then Inl StateExpired else Inr nonce)"
proof (rule verify_sign)
  show "CHR '':'' \<notin> set nonce" using hex_no_colon assms(1) by simp
  have "0 \<le> t div second" using assms(2) by (simp add: second_def pos_imp_zdiv_nonneg_iff)
  then show "- (2 ^ 63) \<le> t div second" by simp
qed (use assms in simp)

text \<open>
  A state is accepted only with a valid authenticator: if verification returns a nonce, the
  state decodes to three fields of which the second is that nonce, the third is the key's MAC
  of the first two, and the first is a time at most fifteen minutes ago.
\<close>

theorem state_authentic:
  assumes "verifyState mac key state now = Inr nonce"
  shows "\<exists>ts sig sec. b64_decode state = Some (ts @ '':'' @ nonce @ '':'' @ sig) \<and>
    hex_decode sig = Some (mac key (ts @ '':'' @ nonce)) \<and>
    parse_int64 ts = Some sec \<and> now - sec * second \<le> 15 * 60 * second"
proof -
  obtain b where b: "b64_decode state = Some b" using assms by (auto simp: verifyState_def split: option.splits)
  obtain ts sig where s: "split_sep (CHR '':'') b = [ts, nonce, sig]"
    "hex_decode sig = Some (mac key (ts @ '':'' @ nonce))"
    "\<exists>sec. parse_int64 ts = Some sec \<and> now - sec * second \<le> 15 * 60 * second"
    using assms b
    by (auto simp: verifyState_def Let_def split: list.splits option.splits if_splits)
  have "b = ts @ '':'' @ nonce @ '':'' @ sig"
    using join_split [of "CHR '':''" b] s(1) by simp
  with b s show ?thesis by blast
qed

section \<open>Confine\<close>

text \<open>
  C25. For an absolute root other than the file-system root, \<open>Confine\<close> accepts exactly the
  paths whose cleaned components start with the root's and go on with plain names, and returns
  the cleaned path: no sequence of \<open>..\<close>, \<open>.\<close> or doubled slashes leads out.
\<close>

theorem Confine_exact:
  assumes "path_norm root = (True, qs)" "qs \<noteq> []"
  shows "Confine root path = Some p \<longleftrightarrow>
    p = path_clean path \<and> (\<exists>ns. list_all plain_name ns \<and> path_norm path = (True, qs @ ns))"
  using assms by (rule Confine_rooted)

text \<open>The file-system root itself is not confined to: its own descendants are refused.\<close>

lemma Confine_slash: "Confine ''/'' ''/a'' = None \<and> Confine ''/'' ''/'' = Some ''/''"
  by code_simp

section \<open>Witnesses\<close>

definition ex_ticket :: ovpnTicket where
  "ex_ticket = \<lparr>t_pam = ''alice'', t_homeID = [], t_iss = [], t_sub = [], t_rel = ''a.ovpn'', t_sid = ''s'', t_exp = 0, t_left = 0\<rparr>"

definition ex_minted :: "ovpnTicket gomap" where
  "ex_minted = [(''41'', ex_ticket\<lparr>t_exp := 60 * second, t_left := 2\<rparr>)]"

lemma ex_mint: "mintOvpnTicket ex_ticket (Some ''A'') 0 [] = (Inr ''41'', ex_minted)"
  by code_simp

lemma ex_no_mint: "list_all (\<lambda>(op, _). \<not> mints ''41'' op) [(Take ''41'', 0), (Peek ''41'', 1), (Take ''41'', 2), (Take ''41'', 3)]"
  by (simp add: mints_def)

theorem ticket_two_uses_witness:
  "taken ''41'' [(Take ''41'', 0), (Peek ''41'', 1), (Take ''41'', 2), (Take ''41'', 3)] ex_minted \<le> 2 \<and>
   taken ''41'' [(Take ''41'', 0), (Take ''41'', 2)] ex_minted = 2"
proof
  show "taken ''41'' [(Take ''41'', 0), (Peek ''41'', 1), (Take ''41'', 2), (Take ''41'', 3)] ex_minted \<le> 2"
    by (rule ticket_two_uses [OF ticket_run.Start ex_mint _ ex_no_mint]) simp
  show "taken ''41'' [(Take ''41'', 0), (Take ''41'', 2)] ex_minted = 2" by code_simp
qed

theorem ticket_expires_witness:
  "fst (lookupOvpnTicket ''41'' False (60 * second + 1) (ticket_after [(Take ''41'', 0)] ex_minted)) = None \<and>
   fst (lookupOvpnTicket ''41'' False (60 * second) (ticket_after [(Take ''41'', 0)] ex_minted)) \<noteq> None"
proof
  have "list_all (\<lambda>(op, _). \<not> mints ''41'' op) [(Take ''41'', 0 :: int)]" by (simp add: mints_def)
  from ticket_expires [OF ticket_run.Start ex_mint _ this, of "60 * second + 1" False]
  show "fst (lookupOvpnTicket ''41'' False (60 * second + 1) (ticket_after [(Take ''41'', 0)] ex_minted)) = None" by simp
  show "fst (lookupOvpnTicket ''41'' False (60 * second) (ticket_after [(Take ''41'', 0)] ex_minted)) \<noteq> None"
    by code_simp
qed

theorem ticket_table_bounded_witness: "length ex_minted \<le> 1024 \<and> ticket_run 0 ex_minted"
proof -
  have "ticket_run 0 (snd (ticket_step (Mint ex_ticket (Some ''A'')) 0 []))"
    by (rule ticket_run.Step [OF ticket_run.Start [of 0]]) simp
  then have r: "ticket_run 0 ex_minted" by (simp add: ex_mint)
  with ticket_table_bounded [OF r] show ?thesis by simp
qed

definition ex_txs :: "oauthTx gomap" where
  "ex_txs = [(''tx'', \<lparr>x_nonce = ''n'', x_verifier = ''v'', x_provider = ''google'', x_exp = 10\<rparr>)]"

theorem oauth_tx_once_witness:
  "fst (takeOauthTx ''tx'' 9 ex_txs) = Inr (''n'', ''google'', ''v'') \<and>
   fst (takeOauthTx ''tx'' 9 (snd (takeOauthTx ''tx'' 9 ex_txs))) = Inl NoTx"
proof -
  have "putOauthTx ''tx'' ''google'' ''n'' ''v'' 10 0 [] = (Inr (), ex_txs)" by code_simp
  from oauth_tx_once [OF this, of 9 9 "''tx''"] show ?thesis by simp
qed

theorem state_roundtrip_witness:
  "verifyState (\<lambda>k s. s) ''k'' (signState (\<lambda>k s. s) ''k'' ''ab'' 5) 6 = Inr ''ab''"
proof -
  have h: "''ab'' = hex_encode [char_of (171 :: nat)]" by code_simp
  show ?thesis
    using state_roundtrip [OF h, of 5 "\<lambda>k s. s" "''k''" 6] by (simp add: second_def)
qed

theorem state_authentic_witness:
  "\<exists>ts sig. b64_decode (signState (\<lambda>k s. s) ''k'' ''ab'' 5) = Some (ts @ '':'' @ ''ab'' @ '':'' @ sig) \<and>
     hex_decode sig = Some (ts @ '':'' @ ''ab'')"
proof -
  have "verifyState (\<lambda>k s. s) ''k'' (signState (\<lambda>k s. s) ''k'' ''ab'' 5) 6 = Inr ''ab''" by code_simp
  from state_authentic [OF this] show ?thesis by blast
qed

theorem Confine_exact_witness:
  "Confine ''/srv/home'' ''/srv/./home/a/../b'' = Some ''/srv/home/b'' \<and> Confine ''/srv/home'' ''/srv/home/../x'' = None"
proof -
  have r: "path_norm ''/srv/home'' = (True, [''srv'', ''home''])" by code_simp
  have n: "path_norm ''/srv/./home/a/../b'' = (True, [''srv'', ''home''] @ [''b''])" by code_simp
  have x: "path_norm ''/srv/home/../x'' = (True, [''srv'', ''x''])" by code_simp
  have p: "list_all plain_name [''b'']" "path_clean ''/srv/./home/a/../b'' = ''/srv/home/b''" by code_simp+
  have "Confine ''/srv/home'' ''/srv/./home/a/../b'' = Some ''/srv/home/b''"
    using n p by (subst Confine_exact [OF r]) (simp, intro conjI exI [of _ "[''b'']"], simp_all)
  moreover have "Confine ''/srv/home'' ''/srv/home/../x'' \<noteq> Some q" for q
    using Confine_exact [OF r, of "''/srv/home/../x''" q] x by auto
  ultimately show ?thesis by (metis option.exhaust)
qed

end
