(* ===== verification/Config_Parse.thy ===== *)
theory Config_Parse
  imports Go_Prelude
begin

text \<open>
  \<open>internal/config/parse.go\<close>, \<open>email.go\<close> and \<open>secrets.go\<close>: the \<open>KEY=value\<close> file format, the
  parsers of single values, e-mail addresses and the Google client file. A parsed file is a
  \<open>cfgmap\<close>: for each key the list of its values in file order. A file is what reading it gives
  (missing, an error, or its bytes). The Unicode case tables, SHA-256 and \<open>encoding/json\<close> are
  parameters.
\<close>

section \<open>Types\<close>

type_synonym cfgmap = "string \<Rightarrow> string list option"

datatype cfgfile = FileMissing | FileError | FileBytes string

datatype config_error =
    CfgIO
  | CfgTooLong
  | CfgNoEq nat
  | CfgBadKey nat string
  | CfgBad string
  | CfgUnset string
  | CfgJSON
  | CfgDesktop
  | CfgNoClient

text \<open>\<open>tab\<close> gives the lower- and the upper-case rune of a rune from 128 on.\<close>

record casetab =
  lower :: "nat \<Rightarrow> nat"
  upper :: "nat \<Rightarrow> nat"

definition ToLower :: "casetab \<Rightarrow> string \<Rightarrow> string" where
  "ToLower ct s = to_lower (lower ct) s"

definition ToUpper :: "casetab \<Rightarrow> string \<Rightarrow> string" where
  "ToUpper ct s = to_upper (upper ct) s"

section \<open>Lines\<close>

text \<open>
  \<open>bufio.Scanner\<close> with \<open>ScanLines\<close>: lines end at LF, a final line without LF counts unless it is
  empty, one trailing CR is dropped; a line that does not fit the 64 KiB buffer is an error.
\<close>

definition scan_lines :: "string \<Rightarrow> string list" where
  "scan_lines s = (let ls = split_sep (CHR 10) s in if last ls = [] then butlast ls else ls)"

definition drop_cr :: "string \<Rightarrow> string" where
  "drop_cr l = (if l \<noteq> [] \<and> last l = CHR 13 then butlast l else l)"

definition validKey :: "string \<Rightarrow> bool" where
  "validKey k =
     (case k of [] \<Rightarrow> False
      | c # cs \<Rightarrow> is_upper c \<and> list_all (\<lambda>c. is_upper c \<or> is_digit c \<or> c = CHR ''_'') cs)"

definition dquote :: char where "dquote = CHR 34"
definition squote :: char where "squote = CHR 39"
definition backslash :: char where "backslash = CHR 92"

text \<open>\<open>strings.ReplaceAll\<close> of backslash-quote by quote: leftmost, not overlapping.\<close>

fun unescape :: "string \<Rightarrow> string" where
  "unescape [] = []"
| "unescape [c] = [c]"
| "unescape (c # d # cs) =
     (if c = backslash \<and> d = dquote then dquote # unescape cs else c # unescape (d # cs))"

definition unquote :: "string \<Rightarrow> string" where
  "unquote s =
     (if length s < 2 then s
      else if hd s = dquote \<and> last s = dquote then unescape (butlast (tl s))
      else if hd s = squote \<and> last s = squote then butlast (tl s)
      else s)"

definition add_value :: "string \<Rightarrow> string \<Rightarrow> cfgmap \<Rightarrow> cfgmap" where
  "add_value k v m = m(k \<mapsto> (case m k of None \<Rightarrow> [] | Some vs \<Rightarrow> vs) @ [v])"

text \<open>The loop of \<open>parseReader\<close>; \<open>n\<close> is the number of the line before.\<close>

fun parse_lines :: "nat \<Rightarrow> string list \<Rightarrow> cfgmap \<Rightarrow> (config_error, cfgmap) result" where
  "parse_lines n [] out = Inr out"
| "parse_lines n (l # ls) out =
     (if length l \<ge> 65536 then Inl CfgTooLong
      else let line = go_trim_space (drop_cr l) in
        if line = [] \<or> has_prefix line ''#'' then parse_lines (n + 1) ls out
        else (case go_cut (CHR ''='') line of (key0, val, ok) \<Rightarrow>
          if \<not> ok then Inl (CfgNoEq (n + 1))
          else let key = go_trim_space key0 in
            if \<not> validKey key then Inl (CfgBadKey (n + 1) key)
            else parse_lines (n + 1) ls (add_value key (unquote (go_trim_space val)) out)))"

definition parseReader :: "string \<Rightarrow> (config_error, cfgmap) result" where
  "parseReader bs = parse_lines 0 (scan_lines bs) (\<lambda>_. None)"

definition parseFile :: "cfgfile \<Rightarrow> (config_error, cfgmap) result" where
  "parseFile f =
     (case f of FileMissing \<Rightarrow> Inr (\<lambda>_. None) | FileError \<Rightarrow> Inl CfgIO | FileBytes bs \<Rightarrow> parseReader bs)"

definition first :: "cfgmap \<Rightarrow> string \<Rightarrow> string" where
  "first m k = (case m k of None \<Rightarrow> [] | Some v \<Rightarrow> if v = [] then [] else last v)"

section \<open>Values\<close>

definition badName :: "string \<Rightarrow> bool" where
  "badName s \<longleftrightarrow> s = ''.'' \<or> s = ''..'' \<or> contains_any s [CHR ''/'', backslash, CHR '':'', CHR 0x00]"

definition list_sep :: "nat \<Rightarrow> bool" where
  "list_sep r \<longleftrightarrow> r = 44 \<or> is_space r"

definition ProviderGoogle :: string where "ProviderGoogle = ''google''"

fun idp_loop :: "casetab \<Rightarrow> string list \<Rightarrow> string list \<Rightarrow> (config_error, string list) result" where
  "idp_loop ct [] out = Inr out"
| "idp_loop ct (p # ps) out =
     (let name = ToLower ct p in
      if name = [] then idp_loop ct ps out
      else if name \<noteq> ProviderGoogle then Inl (CfgBad ''IDP'')
      else if name \<in> set out then idp_loop ct ps out
      else idp_loop ct ps (out @ [name]))"

definition parseIDPNames :: "casetab \<Rightarrow> string list \<Rightarrow> (config_error, string list) result" where
  "parseIDPNames ct vals = idp_loop ct (concat (map (fields_func list_sep) vals)) []"

fun admin_loop :: "string list \<Rightarrow> string list \<Rightarrow> (config_error, string list) result" where
  "admin_loop [] out = Inr out"
| "admin_loop (p # ps) out =
     (if p = [] then admin_loop ps out
      else if badName p then Inl (CfgBad ''ADMIN_USERS'')
      else admin_loop ps (out @ [p]))"

definition parseAdminUsers :: "string \<Rightarrow> (config_error, string list) result" where
  "parseAdminUsers s = admin_loop (fields_func list_sep s) []"

definition parseBool :: "casetab \<Rightarrow> string \<Rightarrow> bool option" where
  "parseBool ct s =
     (let t = ToLower ct (go_trim_space s) in
      if t \<in> {''1'', ''true'', ''yes'', ''on''} then Some True
      else if t \<in> {''0'', ''false'', ''no'', ''off''} then Some False
      else None)"

text \<open>The result is \<open>disable\<close>.\<close>

definition parseAutoOff :: "casetab \<Rightarrow> string \<Rightarrow> bool option" where
  "parseAutoOff ct s =
     (if ToLower ct (go_trim_space s) \<in> {''auto'', ''maybe''} then Some False
      else (case parseBool ct s of None \<Rightarrow> None | Some on \<Rightarrow> Some (\<not> on)))"

definition sizeSuffix :: "(string \<times> int) list" where
  "sizeSuffix =
     [(''KIB'', 1024), (''MIB'', 1024 * 1024), (''GIB'', 1024 * 1024 * 1024),
      (''KB'', 1000), (''MB'', 1000 * 1000), (''GB'', 1000 * 1000 * 1000),
      (''K'', 1024), (''M'', 1024 * 1024), (''G'', 1024 * 1024 * 1024)]"

text \<open>Two's complement: the value of an \<open>int64\<close> operation whose mathematical result is \<open>x\<close>.\<close>

definition wrap64 :: "int \<Rightarrow> int" where
  "wrap64 x = (x + 2 ^ 63) mod 2 ^ 64 - 2 ^ 63"

definition parseSize :: "casetab \<Rightarrow> string \<Rightarrow> int option" where
  "parseSize ct s0 =
     (let s = go_trim_space s0; up = ToUpper ct s;
          (num, mult) = (case find (\<lambda>u. has_suffix up (fst u)) sizeSuffix of
             None \<Rightarrow> (s, 1)
           | Some (suf, k) \<Rightarrow> (take (length s - length suf) s, k))
      in case parse_int64 (go_trim_space num) of
           None \<Rightarrow> None
         | Some n \<Rightarrow> if n < 0 then None else Some (wrap64 (n * mult)))"

definition isHex :: "string \<Rightarrow> bool" where
  "isHex s \<longleftrightarrow> s \<noteq> [] \<and> list_all (\<lambda>c. hex_value c \<noteq> None) s"

definition parseCrypto :: "string \<Rightarrow> string option" where
  "parseCrypto s0 =
     (let s = go_trim_space s0 in
      if isHex s \<and> length s mod 2 = 0 then
        (case hex_decode s of None \<Rightarrow> None | Some b \<Rightarrow> if length b < 32 then None else Some b)
      else if length s < 32 then None else Some s)"

section \<open>Addresses\<close>

definition bad_email_rune :: "nat \<Rightarrow> bool" where
  "bad_email_rune r \<longleftrightarrow> r < 32 \<or> r = 127 \<or> is_space r"

definition email_ok :: "string \<Rightarrow> bool" where
  "email_ok s \<longleftrightarrow>
     s \<noteq> [] \<and> length s \<le> 254 \<and>
     (case go_cut (CHR ''@'') s of (loc, domain, ok) \<Rightarrow>
        ok \<and> loc \<noteq> [] \<and> domain \<noteq> [] \<and> CHR ''@'' \<notin> set domain) \<and>
     \<not> contains_any s [CHR 32, CHR ''/'', backslash] \<and>
     \<not> list_ex bad_email_rune (runes s)"

definition NormalizeEmail :: "casetab \<Rightarrow> string \<Rightarrow> string option" where
  "NormalizeEmail ct s0 =
     (let s = ToLower ct (go_trim_space s0) in if email_ok s then Some s else None)"

definition EmailCubbyID :: "casetab \<Rightarrow> (string \<Rightarrow> string) \<Rightarrow> string \<Rightarrow> string option" where
  "EmailCubbyID ct sha256 email =
     (case NormalizeEmail ct email of None \<Rightarrow> None | Some n \<Rightarrow> Some (hex_encode (sha256 n)))"

fun email_loop :: "casetab \<Rightarrow> string list \<Rightarrow> string list \<Rightarrow> (config_error, string list) result" where
  "email_loop ct [] out = Inr out"
| "email_loop ct (p # ps) out =
     (if p = [] then email_loop ct ps out
      else (case NormalizeEmail ct p of
              None \<Rightarrow> Inl (CfgBad ''ALLOWED_EMAILS'')
            | Some n \<Rightarrow> email_loop ct ps (if n \<in> set out then out else out @ [n])))"

definition parseAllowedEmails :: "casetab \<Rightarrow> string list \<Rightarrow> (config_error, string list) result" where
  "parseAllowedEmails ct lines = email_loop ct (concat (map (fields_func list_sep) lines)) []"

section \<open>The Google client file\<close>

record googleClientBlock =
  gb_id :: string
  gb_secret :: string

record googleClientJSON =
  gj_web :: "googleClientBlock option"
  gj_installed :: "googleClientBlock option"
  gj_id :: string
  gj_secret :: string

definition ParseGoogleClientJSON ::
  "(string \<Rightarrow> googleClientJSON option) \<Rightarrow> string \<Rightarrow> (config_error, string \<times> string) result" where
  "ParseGoogleClientJSON unmarshal b =
     (case unmarshal b of
        None \<Rightarrow> Inl CfgJSON
      | Some doc \<Rightarrow>
          (let pair = (case gj_web doc of
                 Some w \<Rightarrow> Some (gb_id w, gb_secret w)
               | None \<Rightarrow> (case gj_installed doc of Some _ \<Rightarrow> None | None \<Rightarrow> Some (gj_id doc, gj_secret doc)))
           in case pair of
                None \<Rightarrow> Inl CfgDesktop
              | Some (cid, secret) \<Rightarrow>
                  if go_trim_space cid = [] then Inl CfgNoClient
                  else Inr (go_trim_space cid, go_trim_space secret)))"

definition k_client_id :: string where "k_client_id = ''OIDC_GOOGLE_CLIENT_ID''"
definition k_client_secret :: string where "k_client_secret = ''OIDC_GOOGLE_CLIENT_SECRET''"

definition parseSecrets ::
  "(string \<Rightarrow> googleClientJSON option) \<Rightarrow> cfgfile \<Rightarrow> (config_error, cfgmap) result" where
  "parseSecrets unmarshal f =
     (case f of
        FileMissing \<Rightarrow> Inr (\<lambda>_. None)
      | FileError \<Rightarrow> Inl CfgIO
      | FileBytes b \<Rightarrow>
          (let t = go_trim_space b in
           if t = [] then Inr (\<lambda>_. None)
           else if hd t \<noteq> CHR ''{'' then parseReader b
           else (case ParseGoogleClientJSON unmarshal t of
                   Inl e \<Rightarrow> Inl e
                 | Inr (cid, secret) \<Rightarrow>
                     Inr (let m = [k_client_id \<mapsto> [cid]]
                          in if secret \<noteq> [] then m(k_client_secret \<mapsto> [secret]) else m))))"

end
