(* ===== verification/Config_Load.thy ===== *)
theory Config_Load
  imports Config_Parse Bind_Spec Go_Path
begin

text \<open>
  \<open>internal/config/config.go\<close> and \<open>origin.go\<close>, and \<open>internal/configcheck\<close>: merging the built-in
  defaults, the packaged defaults, the operator's file and the secrets file, checking the
  values, and deriving the certificate name, the TLS files and the public URL. The environment
  (record \<open>cfgenv\<close>) holds what the code asks of the machine and of the libraries: the output of
  \<open>hostname -f\<close>, the regular files, the directories under the certificate root, the host name in
  a URL, the case tables, the JSON decoder, and whether a key pair loads.
\<close>

section \<open>Types\<close>

record Config =
  PublicURL :: string
  Binds :: "string list"
  TLSCert :: string
  TLSKey :: string
  DisableTLS :: bool
  DisableOvpnToken :: bool
  CertName :: string
  Data :: string
  GoogleClientID :: string
  GoogleClientSecret :: string
  CryptoKey :: string
  PAMService :: string
  MaxUpload :: int
  cfg_UnixGroup :: string
  AdminUsers :: "string list"
  AllowedEmails :: "string list"
  PAM :: bool
  IDPs :: "string list"
  IDPSet :: bool

record cfgenv =
  ce_case :: casetab
  ce_json :: "string \<Rightarrow> googleClientJSON option"
  ce_hostname :: "string option"
  ce_regular :: "string \<Rightarrow> bool"
  ce_certdirs :: "(string \<times> bool) list option"
  ce_urlhost :: "string \<Rightarrow> string option"
  ce_keypair :: "string \<Rightarrow> string \<Rightarrow> bool"

definition zero_config :: Config where
  "zero_config = \<lparr>PublicURL = [], Binds = [], TLSCert = [], TLSKey = [], DisableTLS = False,
     DisableOvpnToken = False, CertName = [], Data = [], GoogleClientID = [], GoogleClientSecret = [],
     CryptoKey = [], PAMService = [], MaxUpload = 0, cfg_UnixGroup = [], AdminUsers = [],
     AllowedEmails = [], PAM = False, IDPs = [], IDPSet = False\<rparr>"

section \<open>Keys\<close>

definition k_listen :: string where "k_listen = ''LISTEN''"
definition k_emails :: string where "k_emails = ''ALLOWED_EMAILS''"
definition k_idp :: string where "k_idp = ''IDP''"
definition k_pam :: string where "k_pam = ''PAM''"

text \<open>The lines of the embedded \<open>default-dist\<close>.\<close>

definition default_dist :: "string list" where
  "default_dist = [
     ''# Dist defaults (not a conffile). Same KEY=value syntax as'',
     ''# /etc/default/bootstash. Packaged operator keys (also embedded).'',
     ''# Override in /etc/default/bootstash; do not edit this file.'',
     ''# OIDC client id/secret are /etc/bootstash/oidc-google.json, not here.'',
     ''# OIDC_CRYPTO is $DATA/state/crypto.key when unset; not here.'',
     ''# See bootstash(5). Empty means unset / derived at runtime.'',
     '''',
     ''DATA=/var/lib/bootstash'',
     ''LISTEN=127.0.0.1:8080'',
     ''PUBLIC_URL='',
     ''ADMIN_USERS='',
     ''ALLOWED_EMAILS='',
     ''PAM=yes'',
     '''',
     ''TLS=auto'',
     ''TLS_CERT='',
     ''TLS_KEY='',
     ''CERT_NAME='',
     ''OVPN_TOKEN=auto'',
     '''',
     ''PAM_SERVICE=bootstashd'',
     ''UNIX_GROUP=bootstash'',
     ''MAX_UPLOAD=32MiB'']"

text \<open>\<open>mustParseBuiltin\<close>; the text parses (\<open>builtin_parses\<close> below), so the panic is never reached.\<close>

definition mustParseBuiltin :: cfgmap where
  "mustParseBuiltin =
     (case parseReader (concat (map (\<lambda>l. l @ [CHR 10]) default_dist)) of Inr m \<Rightarrow> m | Inl _ \<Rightarrow> (\<lambda>_. None))"

section \<open>Merging\<close>

definition mergeScalars :: "cfgmap \<Rightarrow> cfgmap \<Rightarrow> cfgmap" where
  "mergeScalars dst src = (\<lambda>k.
     case src k of
       None \<Rightarrow> dst k
     | Some vals \<Rightarrow>
         if k = k_listen \<or> k = k_emails \<or> k = k_idp \<or> vals = [] then dst k else Some [last vals])"

definition replace_key :: "string \<Rightarrow> cfgmap \<Rightarrow> cfgmap \<Rightarrow> cfgmap" where
  "replace_key k src dst = (case src k of None \<Rightarrow> dst | Some vals \<Rightarrow> dst(k \<mapsto> vals))"

definition mergeInto :: "cfgmap \<Rightarrow> cfgmap \<Rightarrow> cfgmap" where
  "mergeInto dst src =
     mergeScalars (replace_key k_idp src (replace_key k_emails src (replace_key k_listen src dst))) src"

section \<open>Checking the values\<close>

definition usableOriginHost :: "casetab \<Rightarrow> string \<Rightarrow> bool" where
  "usableOriginHost ct host \<longleftrightarrow>
     ToLower ct host \<notin> {''localhost'', ''localhost.localdomain'', ''localhost.local'', ''ip6-localhost''} \<and>
     (case ParseIP host of Some i \<Rightarrow> \<not> IsLoopback i | None \<Rightarrow> True) \<and> host \<noteq> []"

type_synonym stage = "casetab \<Rightarrow> cfgmap \<Rightarrow> Config \<Rightarrow> (config_error, Config) result"

definition set_scalars :: "cfgmap \<Rightarrow> Config \<Rightarrow> Config" where
  "set_scalars m c = c\<lparr>PublicURL := trim_right (first m ''PUBLIC_URL'') ''/'',
     Binds := (case m k_listen of None \<Rightarrow> [] | Some vs \<Rightarrow> vs),
     TLSCert := first m ''TLS_CERT'', TLSKey := first m ''TLS_KEY'', Data := first m ''DATA'',
     GoogleClientID := first m k_client_id, GoogleClientSecret := first m k_client_secret,
     PAMService := first m ''PAM_SERVICE'', cfg_UnixGroup := first m ''UNIX_GROUP''\<rparr>"

definition apply_certname :: stage where
  "apply_certname ct m c =
     (let s = first m ''CERT_NAME'' in
      if s = [] then Inr c
      else if badName s \<or> \<not> usableOriginHost ct s then Inl (CfgBad ''CERT_NAME'')
      else Inr (c\<lparr>CertName := s\<rparr>))"

definition apply_tls :: stage where
  "apply_tls ct m c =
     (let s = first m ''TLS'' in
      if s = [] then Inr c
      else (case parseAutoOff ct s of None \<Rightarrow> Inl (CfgBad ''TLS'') | Some off \<Rightarrow> Inr (c\<lparr>DisableTLS := off\<rparr>)))"

definition apply_ovpn :: stage where
  "apply_ovpn ct m c =
     (let s = first m ''OVPN_TOKEN'' in
      if s = [] then Inr c
      else (case parseAutoOff ct s of
              None \<Rightarrow> Inl (CfgBad ''OVPN_TOKEN'') | Some off \<Rightarrow> Inr (c\<lparr>DisableOvpnToken := off\<rparr>)))"

definition apply_upload :: stage where
  "apply_upload ct m c =
     (let s = first m ''MAX_UPLOAD'' in
      if s = [] then Inr c
      else (case parseSize ct s of
              None \<Rightarrow> Inl (CfgBad ''MAX_UPLOAD'')
            | Some n \<Rightarrow> if n \<le> 0 then Inl (CfgBad ''MAX_UPLOAD'') else Inr (c\<lparr>MaxUpload := n\<rparr>)))"

definition apply_crypto :: stage where
  "apply_crypto ct m c =
     (let s = first m ''OIDC_CRYPTO'' in
      if s = [] then Inr c
      else (case parseCrypto s of None \<Rightarrow> Inl (CfgBad ''OIDC_CRYPTO'') | Some key \<Rightarrow> Inr (c\<lparr>CryptoKey := key\<rparr>)))"

definition apply_admins :: stage where
  "apply_admins ct m c =
     (let s = first m ''ADMIN_USERS'' in
      if s = [] then Inr c
      else (case parseAdminUsers s of Inl e \<Rightarrow> Inl e | Inr us \<Rightarrow> Inr (c\<lparr>AdminUsers := us\<rparr>)))"

definition apply_emails :: stage where
  "apply_emails ct m c =
     (case parseAllowedEmails ct (case m k_emails of None \<Rightarrow> [] | Some vs \<Rightarrow> vs) of
        Inl e \<Rightarrow> Inl e | Inr es \<Rightarrow> Inr (c\<lparr>AllowedEmails := es\<rparr>))"

definition apply_pam :: stage where
  "apply_pam ct m c =
     (let s = first m k_pam in
      if s = [] then Inr (c\<lparr>PAM := True\<rparr>)
      else (case parseBool ct s of None \<Rightarrow> Inl (CfgBad ''PAM'') | Some on \<Rightarrow> Inr (c\<lparr>PAM := on\<rparr>)))"

definition apply_idp :: stage where
  "apply_idp ct m c =
     (case m k_idp of
        None \<Rightarrow> Inr c
      | Some vals \<Rightarrow>
          (case parseIDPNames ct vals of Inl e \<Rightarrow> Inl e | Inr ns \<Rightarrow> Inr (c\<lparr>IDPSet := True, IDPs := ns\<rparr>)))"

definition apply_required :: stage where
  "apply_required ct m c =
     (if Data c = [] then Inl (CfgUnset ''DATA'')
      else if PAMService c = [] then Inl (CfgUnset ''PAM_SERVICE'')
      else if cfg_UnixGroup c = [] then Inl (CfgUnset ''UNIX_GROUP'')
      else if \<not> MaxUpload c > 0 then Inl (CfgUnset ''MAX_UPLOAD'')
      else Inr c)"

fun run_stages :: "stage list \<Rightarrow> casetab \<Rightarrow> cfgmap \<Rightarrow> Config \<Rightarrow> (config_error, Config) result" where
  "run_stages [] ct m c = Inr c"
| "run_stages (s # ss) ct m c = (case s ct m c of Inl e \<Rightarrow> Inl e | Inr c' \<Rightarrow> run_stages ss ct m c')"

text \<open>\<open>Config.apply\<close>: the checks in the order of the source.\<close>

definition apply_stages :: "stage list" where
  "apply_stages = [apply_certname, apply_tls, apply_ovpn, apply_upload, apply_crypto, apply_admins,
     apply_emails, apply_pam, apply_idp, apply_required]"

definition apply_cfg :: "casetab \<Rightarrow> cfgmap \<Rightarrow> Config \<Rightarrow> (config_error, Config) result" where
  "apply_cfg ct m c = run_stages apply_stages ct m (set_scalars m c)"

section \<open>Predicates on a configuration\<close>

definition Providers :: "Config \<Rightarrow> string list" where
  "Providers c =
     (if IDPSet c then IDPs c
      else if go_trim_space (GoogleClientID c) \<noteq> [] then [ProviderGoogle] else [])"

definition LinkPAM :: "Config \<Rightarrow> bool" where
  "LinkPAM c \<longleftrightarrow> PAM c \<and> length (Providers c) > 0"

definition PAMLogin :: "Config \<Rightarrow> bool" where
  "PAMLogin c \<longleftrightarrow> PAM c \<and> Providers c = []"

definition UseTLS :: "Config \<Rightarrow> bool" where
  "UseTLS c \<longleftrightarrow> \<not> DisableTLS c \<and> TLSCert c \<noteq> [] \<and> TLSKey c \<noteq> []"

definition IsAdmin :: "Config \<Rightarrow> string \<Rightarrow> bool" where
  "IsAdmin c pamUser \<longleftrightarrow> pamUser \<noteq> [] \<and> pamUser \<in> set (AdminUsers c)"

definition AllowsEmail :: "casetab \<Rightarrow> Config \<Rightarrow> string \<Rightarrow> bool" where
  "AllowsEmail ct c email \<longleftrightarrow>
     AllowedEmails c = [] \<or>
     (case NormalizeEmail ct email of None \<Rightarrow> False | Some n \<Rightarrow> n \<in> set (AllowedEmails c))"

fun providers_ready :: "Config \<Rightarrow> string list \<Rightarrow> config_error option" where
  "providers_ready c [] = None"
| "providers_ready c (name # ns) =
     (if name \<noteq> ProviderGoogle then Some (CfgBad ''IDP'')
      else if go_trim_space (GoogleClientID c) = [] then Some (CfgUnset ''OIDC_GOOGLE_CLIENT_ID'')
      else providers_ready c ns)"

definition Ready :: "Config \<Rightarrow> config_error option" where
  "Ready c =
     (if go_trim_space (PublicURL c) = [] then Some (CfgUnset ''PUBLIC_URL'')
      else (case providers_ready c (Providers c) of
              Some e \<Rightarrow> Some e
            | None \<Rightarrow>
                if \<not> PAM c \<and> Providers c = [] then Some (CfgBad ''PAM=no'')
                else if \<not> DisableTLS c \<and> (TLSCert c = []) \<noteq> (TLSKey c = []) then Some (CfgBad ''TLS_CERT'')
                else if Binds c = [] then Some (CfgUnset ''LISTEN'')
                else None))"

section \<open>Derived values\<close>

definition certRoot :: string where "certRoot = ''/etc/bootstash/certs''"

definition hostnameFQDN :: "cfgenv \<Rightarrow> string option" where
  "hostnameFQDN e =
     (case ce_hostname e of
        None \<Rightarrow> None
      | Some out \<Rightarrow>
          (let host = go_trim_space out in
           if host = [] \<or> contains_any host [CHR ''/'', CHR '':'', backslash, CHR 32, CHR 9, CHR 10] then None
           else Some host))"

definition fqdn :: "cfgenv \<Rightarrow> string" where
  "fqdn e = (case hostnameFQDN e of None \<Rightarrow> [] | Some h \<Rightarrow> h)"

definition originHost :: "string \<Rightarrow> string" where
  "originHost host =
     (case ParseIP host of Some i \<Rightarrow> if To4 i = None then ''['' @ host @ '']'' else host | None \<Rightarrow> host)"

fun firstTCPPort :: "string list \<Rightarrow> nat" where
  "firstTCPPort [] = 0"
| "firstTCPPort (raw # rs) =
     (case ParseSpec raw of
        Inl _ \<Rightarrow> firstTCPPort rs
      | Inr spec \<Rightarrow> if sp_Kind spec = KindUnix then firstTCPPort rs else sp_Port spec)"

definition originName :: "cfgenv \<Rightarrow> string \<Rightarrow> string" where
  "originName e raw = (case ce_urlhost e raw of None \<Rightarrow> [] | Some h \<Rightarrow> h)"

definition certPair :: "cfgenv \<Rightarrow> string \<Rightarrow> (string \<times> string) option" where
  "certPair e host =
     (if \<not> usableOriginHost (ce_case e) host then None
      else let cert = path_join [certRoot, host, ''fullchain.pem''];
               key = path_join [certRoot, host, ''privkey.pem''] in
        if \<not> ce_regular e cert \<or> \<not> ce_regular e key then None else Some (cert, key))"

fun only_cert :: "cfgenv \<Rightarrow> (string \<times> bool) list \<Rightarrow> string \<Rightarrow> string" where
  "only_cert e [] name = name"
| "only_cert e ((n, isdir) # es) name =
     (if \<not> isdir \<or> certPair e n = None then only_cert e es name
      else if name \<noteq> [] then []
      else only_cert e es n)"

definition onlyCertDir :: "cfgenv \<Rightarrow> string" where
  "onlyCertDir e = (case ce_certdirs e of None \<Rightarrow> [] | Some es \<Rightarrow> only_cert e es [])"

definition deriveCertName :: "cfgenv \<Rightarrow> Config \<Rightarrow> Config" where
  "deriveCertName e c =
     (if go_trim_space (CertName c) \<noteq> [] then c
      else if fqdn e \<noteq> [] \<and> certPair e (fqdn e) \<noteq> None then c\<lparr>CertName := fqdn e\<rparr>
      else c\<lparr>CertName := onlyCertDir e\<rparr>)"

fun first_pair :: "cfgenv \<Rightarrow> string list \<Rightarrow> (string \<times> string) option" where
  "first_pair e [] = None"
| "first_pair e (h # hs) = (case certPair e h of Some p \<Rightarrow> Some p | None \<Rightarrow> first_pair e hs)"

definition deriveTLSFiles :: "cfgenv \<Rightarrow> Config \<Rightarrow> Config" where
  "deriveTLSFiles e c =
     (if go_trim_space (TLSCert c) \<noteq> [] \<or> go_trim_space (TLSKey c) \<noteq> [] then c
      else (case first_pair e [CertName c, originName e (PublicURL c), fqdn e] of
              None \<Rightarrow> c | Some (cert, key) \<Rightarrow> c\<lparr>TLSCert := cert, TLSKey := key\<rparr>))"

definition derivePublicURL :: "cfgenv \<Rightarrow> Config \<Rightarrow> Config" where
  "derivePublicURL e c =
     (if go_trim_space (PublicURL c) \<noteq> [] then c
      else let host = (if CertName c = [] then fqdn e else CertName c); port = firstTCPPort (Binds c) in
        if \<not> usableOriginHost (ce_case e) host \<or> port = 0 then c
        else let scheme = (if UseTLS c then ''https'' else ''http''); h = originHost host in
          if (scheme = ''http'' \<and> port = 80) \<or> (scheme = ''https'' \<and> port = 443)
          then c\<lparr>PublicURL := scheme @ ''://'' @ h\<rparr>
          else c\<lparr>PublicURL := scheme @ ''://'' @ h @ '':'' @ show_nat port\<rparr>)"

section \<open>Loading\<close>

text \<open>The secrets file is absent for \<open>LoadOperator\<close>, which passes no path for it.\<close>

definition merge_files ::
  "cfgenv \<Rightarrow> cfgfile \<Rightarrow> cfgfile \<Rightarrow> cfgfile option \<Rightarrow> (config_error, cfgmap) result" where
  "merge_files e defaults operator secrets =
     (case parseFile defaults of
        Inl er \<Rightarrow> Inl er
      | Inr d \<Rightarrow>
          (case parseFile operator of
             Inl er \<Rightarrow> Inl er
           | Inr oper \<Rightarrow>
               (let merged = mergeInto (mergeInto mustParseBuiltin d) oper in
                case secrets of
                  None \<Rightarrow> Inr merged
                | Some f \<Rightarrow>
                    (case parseSecrets (ce_json e) f of
                       Inl er \<Rightarrow> Inl er
                     | Inr sec \<Rightarrow> Inr (mergeScalars merged (sec(k_pam := None, k_idp := None)))))))"

definition load_cfg :: "cfgenv \<Rightarrow> cfgfile \<Rightarrow> cfgfile \<Rightarrow> cfgfile option \<Rightarrow> (config_error, Config) result" where
  "load_cfg e defaults operator secrets =
     (case merge_files e defaults operator secrets of
        Inl er \<Rightarrow> Inl er
      | Inr m \<Rightarrow>
          (case apply_cfg (ce_case e) m zero_config of
             Inl er \<Rightarrow> Inl er
           | Inr c \<Rightarrow> Inr (derivePublicURL e (deriveTLSFiles e (deriveCertName e c)))))"

definition Load :: "cfgenv \<Rightarrow> cfgfile \<Rightarrow> cfgfile \<Rightarrow> cfgfile \<Rightarrow> (config_error, Config) result" where
  "Load e defaults operator secrets = load_cfg e defaults operator (Some secrets)"

definition LoadOperator :: "cfgenv \<Rightarrow> cfgfile \<Rightarrow> cfgfile \<Rightarrow> (config_error, Config) result" where
  "LoadOperator e defaults operator = load_cfg e defaults operator None"

section \<open>The configuration check\<close>

datatype check_error = ChkLoad config_error | ChkReady config_error | ChkListen string | ChkTLS

fun check_binds :: "string list \<Rightarrow> check_error option" where
  "check_binds [] = None"
| "check_binds (raw # rs) = (case ParseSpec raw of Inl _ \<Rightarrow> Some (ChkListen raw) | Inr _ \<Rightarrow> check_binds rs)"

definition Check :: "cfgenv \<Rightarrow> cfgfile \<Rightarrow> cfgfile \<Rightarrow> cfgfile \<Rightarrow> (check_error, Config) result" where
  "Check e defaults operator secrets =
     (case Load e defaults operator secrets of
        Inl er \<Rightarrow> Inl (ChkLoad er)
      | Inr c \<Rightarrow>
          (case Ready c of
             Some er \<Rightarrow> Inl (ChkReady er)
           | None \<Rightarrow>
               (case check_binds (Binds c) of
                  Some er \<Rightarrow> Inl er
                | None \<Rightarrow>
                    if UseTLS c \<and> \<not> ce_keypair e (TLSCert c) (TLSKey c) then Inl ChkTLS else Inr c)))"

definition Summary :: "Config \<Rightarrow> string" where
  "Summary c =
     ''url='' @ PublicURL c @ '' listen='' @ join_sep '','' (Binds c) @
     (if DisableTLS c then '' tls=no'' else []) @
     (if DisableOvpnToken c then '' ovpn-token=no'' else []) @
     (if AdminUsers c \<noteq> [] then '' admins='' @ join_sep '','' (AdminUsers c) else []) @
     (if \<not> PAM c then '' pam=no'' else []) @
     (if Providers c = [] then '' idp=none'' else '' idp='' @ join_sep '','' (Providers c)) @
     (if AllowedEmails c \<noteq> [] then '' emails='' @ show_nat (length (AllowedEmails c)) else [])"

datatype notice = NoticeNone | NoticeEmailsUnused | NoticeOpen

definition Notice :: "Config \<Rightarrow> notice" where
  "Notice c =
     (if AllowedEmails c \<noteq> [] \<and> Providers c = [] then NoticeEmailsUnused
      else if PAM c \<or> AllowedEmails c \<noteq> [] then NoticeNone
      else NoticeOpen)"

lemma builtin_parses:
  "map (first mustParseBuiltin) [''DATA'', ''LISTEN'', ''PAM'', ''TLS'', ''PAM_SERVICE'', ''UNIX_GROUP'', ''MAX_UPLOAD'']
     = [''/var/lib/bootstash'', ''127.0.0.1:8080'', ''yes'', ''auto'', ''bootstashd'', ''bootstash'', ''32MiB'']"
  by code_simp

end
