(* ===== verification/Go_Utf8.thy ===== *)
theory Go_Utf8
  imports Go_Prelude
begin

text \<open>
  UTF-8 beyond evaluation: encoding followed by decoding is the identity on runes, an ASCII
  byte is always a chunk of its own, and what follows for mapping and trimming strings.
\<close>

definition valid_rune :: "nat \<Rightarrow> bool" where
  "valid_rune r \<longleftrightarrow> r \<le> 1114111 \<and> \<not> in_range 55296 57343 r"

lemma byte_of_char_of: "n < 256 \<Longrightarrow> byte_of (char_of n) = n"
  by (simp add: byte_of_def)

lemma div_parts: "(r::nat) = 64 * (r div 64) + r mod 64" "r div 64 = 64 * (r div 4096) + r div 64 mod 64"
  "r div 4096 = 64 * (r div 262144) + r div 4096 mod 64" "r mod 64 < 64"
proof -
  show "r = 64 * (r div 64) + r mod 64" by simp
  have "r div 4096 = r div 64 div 64" "r div 262144 = r div 4096 div 64" by (simp_all add: div_mult2_eq [symmetric])
  then show "r div 64 = 64 * (r div 4096) + r div 64 mod 64" "r div 4096 = 64 * (r div 262144) + r div 4096 mod 64"
    by simp_all
qed simp

lemma utf8_first_1: "b < 128 \<Longrightarrow> utf8_first (b # bs) = (b, 1)"
  by (simp add: utf8_first_def)

lemma utf8_first_2:
  assumes "2 \<le> a" "a < 32" "b < 64"
  shows "utf8_first ((192 + a) # (128 + b) # bs) = (64 * a + b, 2)"
  using assms by (auto simp: utf8_first_def in_range_def)

lemma utf8_first_3:
  assumes "a < 16" "b < 64" "c < 64" "a = 0 \<Longrightarrow> 32 \<le> b" "a = 13 \<Longrightarrow> b < 32"
  shows "utf8_first ((224 + a) # (128 + b) # (128 + c) # bs) = (4096 * a + 64 * b + c, 3)"
  using assms by (auto simp: utf8_first_def in_range_def)

lemma utf8_first_4:
  assumes "a \<le> 4" "b < 64" "c < 64" "d < 64" "a = 0 \<Longrightarrow> 16 \<le> b" "a = 4 \<Longrightarrow> b < 16"
  shows "utf8_first ((240 + a) # (128 + b) # (128 + c) # (128 + d) # bs) = (262144 * a + 4096 * b + 64 * c + d, 4)"
  using assms by (auto simp: utf8_first_def in_range_def)

definition utf8_bytes :: "nat \<Rightarrow> nat list" where
  "utf8_bytes r =
     (if r < 128 then [r]
      else if r < 2048 then [192 + r div 64, 128 + r mod 64]
      else if r < 65536 then [224 + r div 4096, 128 + r div 64 mod 64, 128 + r mod 64]
      else [240 + r div 262144, 128 + r div 4096 mod 64, 128 + r div 64 mod 64, 128 + r mod 64])"

lemma utf8_encode_bytes: "valid_rune r \<Longrightarrow> utf8_encode r = map char_of (utf8_bytes r)"
  by (simp add: utf8_encode_def utf8_bytes_def valid_rune_def)

lemma utf8_first_bytes:
  assumes v: "valid_rune r"
  shows "utf8_first (utf8_bytes r @ bs) = (r, length (utf8_bytes r))"
proof -
  note d = div_parts [of r]
  have m: "r div 64 mod 64 < 64" "r div 4096 mod 64 < 64" by simp_all
  consider "r < 128" | "128 \<le> r" "r < 2048" | "2048 \<le> r" "r < 65536" | "65536 \<le> r" by linarith
  then show ?thesis
  proof cases
    case 1
    then show ?thesis by (simp add: utf8_bytes_def utf8_first_1)
  next
    case 2
    then have "2 \<le> r div 64" "r div 64 < 32" using d by linarith+
    then have "utf8_first ((192 + r div 64) # (128 + r mod 64) # bs) = (r, 2)"
      using utf8_first_2 [of "r div 64" "r mod 64" bs] d by simp
    moreover have "utf8_bytes r = [192 + r div 64, 128 + r mod 64]" using 2 by (simp add: utf8_bytes_def)
    ultimately show ?thesis by simp
  next
    case 3
    then have a: "r div 4096 < 16" using d m by linarith
    have "r div 4096 = 0 \<Longrightarrow> 32 \<le> r div 64 mod 64" using 3 d m by linarith
    moreover have "r div 4096 = 13 \<Longrightarrow> r div 64 mod 64 < 32"
      using v d m by (simp add: valid_rune_def in_range_def)
    ultimately have "utf8_first ((224 + r div 4096) # (128 + r div 64 mod 64) # (128 + r mod 64) # bs) =
        (4096 * (r div 4096) + 64 * (r div 64 mod 64) + r mod 64, 3)"
      by (intro utf8_first_3 a m(1) d(4))
    moreover have "4096 * (r div 4096) + 64 * (r div 64 mod 64) + r mod 64 = r" using d by linarith
    moreover have "utf8_bytes r = [224 + r div 4096, 128 + r div 64 mod 64, 128 + r mod 64]"
      using 3 by (simp add: utf8_bytes_def)
    ultimately show ?thesis by simp
  next
    case 4
    have r: "r \<le> 1114111" using v by (simp add: valid_rune_def)
    then have a: "r div 262144 \<le> 4" using d m by linarith
    have "r div 262144 = 0 \<Longrightarrow> 16 \<le> r div 4096 mod 64" using 4 d m by linarith
    moreover have "r div 262144 = 4 \<Longrightarrow> r div 4096 mod 64 < 16" using r d m by linarith
    ultimately have "utf8_first ((240 + r div 262144) # (128 + r div 4096 mod 64) # (128 + r div 64 mod 64) # (128 + r mod 64) # bs) =
        (262144 * (r div 262144) + 4096 * (r div 4096 mod 64) + 64 * (r div 64 mod 64) + r mod 64, 4)"
      by (intro utf8_first_4 a m d(4))
    moreover have "262144 * (r div 262144) + 4096 * (r div 4096 mod 64) + 64 * (r div 64 mod 64) + r mod 64 = r"
      using d by linarith
    moreover have "utf8_bytes r = [240 + r div 262144, 128 + r div 4096 mod 64, 128 + r div 64 mod 64, 128 + r mod 64]"
      using 4 by (simp add: utf8_bytes_def)
    ultimately show ?thesis by simp
  qed
qed

lemma utf8_bytes_less:
  assumes "valid_rune r"
  shows "list_all (\<lambda>b. b < 256) (utf8_bytes r)"
proof -
  note d = div_parts [of r]
  have m: "r div 64 mod 64 < 64" "r div 4096 mod 64 < 64" by simp_all
  have "r < 65536 \<Longrightarrow> r div 4096 < 16" "r < 2048 \<Longrightarrow> r div 64 < 32" using d m by linarith+
  moreover have "r div 262144 \<le> 4" using assms d m by (simp add: valid_rune_def) linarith
  moreover have "128 + r div 64 mod 64 < 256" "128 + r div 4096 mod 64 < 256" "128 + r mod 64 < 256" using m d(4) by linarith+
  ultimately show ?thesis by (auto simp: utf8_bytes_def)
qed

lemma utf8_encode_byte_of: "valid_rune r \<Longrightarrow> map byte_of (utf8_encode r) = utf8_bytes r"
  using utf8_bytes_less [of r]
  by (auto simp: utf8_encode_bytes list_all_iff byte_of_char_of intro!: map_idI)

lemma length_utf8_bytes: "1 \<le> length (utf8_bytes r) \<and> length (utf8_bytes r) \<le> 4"
  by (simp add: utf8_bytes_def)

lemma utf8_chunks_encode:
  assumes v: "valid_rune r"
  shows "utf8_chunks (utf8_encode r @ s) = (r, utf8_encode r) # utf8_chunks s"
proof -
  note l = length_utf8_bytes [of r]
  have le: "length (utf8_encode r) = length (utf8_bytes r)" using v by (simp add: utf8_encode_bytes)
  obtain c cs where c: "utf8_encode r = c # cs" using l le by (cases "utf8_encode r") auto
  have "map byte_of (take 4 (utf8_encode r @ s)) = utf8_bytes r @ map byte_of (take (4 - length (utf8_bytes r)) s)"
    using l le by (simp add: utf8_encode_byte_of [OF v] take_map)
  then have "utf8_first (map byte_of (take 4 (c # cs @ s))) = (r, length (utf8_bytes r))"
    using utf8_first_bytes [OF v] c by simp
  moreover have "length (utf8_bytes r) = Suc (length cs)" using c le by simp
  ultimately show ?thesis by (simp add: c)
qed

lemma runes_encode: "list_all valid_rune rs \<Longrightarrow> runes (concat (map utf8_encode rs)) = rs"
  by (induction rs) (auto simp: runes_def utf8_chunks_encode)

text \<open>Whatever is encoded is valid: runes that are none become the error rune.\<close>

lemma utf8_encode_error: "\<not> valid_rune r \<Longrightarrow> utf8_encode r = utf8_encode rune_error"
  by (auto simp: utf8_encode_def valid_rune_def in_range_def rune_error_def)

lemma length_encode_error: "length (utf8_encode rune_error) = 3"
  by (simp add: utf8_encode_def in_range_def rune_error_def)

lemma valid_utf8_encode: "valid_utf8 (concat (map utf8_encode rs))"
proof (induction rs)
  case (Cons r rs)
  define q where "q = (if valid_rune r then r else rune_error)"
  have q: "valid_rune q" "utf8_encode r = utf8_encode q"
    by (simp_all add: q_def utf8_encode_error) (simp add: valid_rune_def in_range_def rune_error_def)
  with Cons show ?case
    by (auto simp: valid_utf8_def utf8_chunks_encode length_encode_error)
qed (simp add: valid_utf8_def)

lemma unchunk_Cons: "unchunk (c # cs) = snd c @ unchunk cs"
  by (simp add: unchunk_def)

text \<open>Decoding yields runes that can be encoded.\<close>

lemma utf8_second_range: "in_range (fst (utf8_second b0)) (snd (utf8_second b0)) b1 \<Longrightarrow> 128 \<le> b1 \<and> b1 \<le> 191"
  by (auto simp: in_range_def split: if_splits)

lemma utf8_second_cases: "utf8_second 237 = (128, 159)" "utf8_second 240 = (144, 191)" "utf8_second 244 = (128, 143)"
  by simp_all

lemma rune3_arith:
  assumes "a = 13 \<Longrightarrow> b < 32" "b < 64" "(a::nat) < 16" "c < (64::nat)"
  shows "a * 4096 + b * 64 + c \<le> 65535 \<and> (a * 4096 + b * 64 + c < 55296 \<or> 57343 < a * 4096 + b * 64 + c)"
proof -
  consider "a < 13" | "a = 13" | "13 < a" by linarith
  then show ?thesis using assms by cases linarith+
qed

lemma rune3_valid:
  assumes "b0 < 240" "in_range 194 244 b0" "\<not> b0 < 224"
    "in_range (fst (utf8_second b0)) (snd (utf8_second b0)) b1" "in_range 128 191 b2"
  shows "valid_rune ((b0 - 224) * 4096 + (b1 - 128) * 64 + (b2 - 128))"
proof -
  obtain a where a: "b0 = 224 + a" using assms(3) by (metis le_Suc_ex not_less)
  note b1 = utf8_second_range [OF assms(4)]
  then obtain b where b: "b1 = 128 + b" by (metis le_Suc_ex)
  obtain c where c: "b2 = 128 + c" using assms(5) by (metis in_range_def le_Suc_ex)
  have "b < 32" if "a = 13" using assms(4) a b that utf8_second_cases(1) by (simp add: in_range_def del: utf8_second.simps)
  moreover have "b < 64" using b b1 by simp
  moreover have "a < 16" "c < 64" using assms(1,5) a c by (simp_all add: in_range_def)
  ultimately have "a * 4096 + b * 64 + c \<le> 65535 \<and> (a * 4096 + b * 64 + c < 55296 \<or> 57343 < a * 4096 + b * 64 + c)"
    by (rule rune3_arith)
  then show ?thesis using a b c by (auto simp: valid_rune_def in_range_def)
qed

lemma rune4_arith:
  assumes "a = 4 \<Longrightarrow> b < 16" "a = 0 \<Longrightarrow> 16 \<le> b" "b < 64" "(a::nat) \<le> 4" "c < 64" "d < (64::nat)"
  shows "a * 262144 + b * 4096 + c * 64 + d \<le> 1114111 \<and> 65536 \<le> a * 262144 + b * 4096 + c * 64 + d"
proof -
  consider "a = 0" | "0 < a" "a < 4" | "a = 4" using assms(4) by linarith
  then show ?thesis using assms by cases linarith+
qed

lemma rune4_valid:
  assumes "\<not> b0 < 240" "in_range 194 244 b0"
    "in_range (fst (utf8_second b0)) (snd (utf8_second b0)) b1" "in_range 128 191 b2" "in_range 128 191 b3"
  shows "valid_rune ((b0 - 240) * 262144 + (b1 - 128) * 4096 + (b2 - 128) * 64 + (b3 - 128))"
proof -
  obtain a where a: "b0 = 240 + a" using assms(1) by (metis le_Suc_ex not_less)
  note b1 = utf8_second_range [OF assms(3)]
  then obtain b where b: "b1 = 128 + b" by (metis le_Suc_ex)
  obtain c where c: "b2 = 128 + c" using assms(4) by (metis in_range_def le_Suc_ex)
  obtain d where d: "b3 = 128 + d" using assms(5) by (metis in_range_def le_Suc_ex)
  have "b < 16" if "a = 4" using assms(3) a b that utf8_second_cases(3) by (simp add: in_range_def del: utf8_second.simps)
  moreover have "16 \<le> b" if "a = 0" using assms(3) a b that utf8_second_cases(2) by (simp add: in_range_def del: utf8_second.simps)
  moreover have "b < 64" using b b1 by simp
  moreover have "a \<le> 4" "c < 64" "d < 64" using assms(2,4,5) a c d by (simp_all add: in_range_def)
  ultimately have "a * 262144 + b * 4096 + c * 64 + d \<le> 1114111 \<and> 65536 \<le> a * 262144 + b * 4096 + c * 64 + d"
    by (rule rune4_arith)
  then show ?thesis using a b c d by (simp add: valid_rune_def in_range_def)
qed

lemma utf8_first_valid: "valid_rune (fst (utf8_first bs))"
proof -
  have e: "valid_rune rune_error" by (simp add: valid_rune_def in_range_def rune_error_def)
  have two: "valid_rune ((b0 - 192) * 64 + (b1 - 128))" if "b0 < 224" "in_range (fst (utf8_second b0)) (snd (utf8_second b0)) b1" for b0 b1
  proof -
    have "b0 - 192 < 32" "b1 - 128 < 64" using that(1) utf8_second_range [OF that(2)] by linarith+
    then have "(b0 - 192) * 64 + (b1 - 128) < 2048" by linarith
    then show ?thesis by (simp add: valid_rune_def in_range_def)
  qed
  have one: "valid_rune b" if "b < 128" for b using that by (simp add: valid_rune_def in_range_def)
  show ?thesis
    using e one two rune3_valid rune4_valid
    by (simp add: utf8_first_def split: list.split del: utf8_second.simps)
qed

lemma runes_valid: "list_all valid_rune (runes s)"
proof (induction s rule: utf8_chunks.induct)
  case (2 c cs)
  obtain r n where rn: "utf8_first (map byte_of (take 4 (c # cs))) = (r, n)" by force
  then have "valid_rune r" using utf8_first_valid by (metis fst_conv)
  with 2 rn show ?case by (simp add: runes_def)
qed (simp add: runes_def)

section \<open>ASCII bytes\<close>

lemma utf8_first_snoc:
  assumes "bs \<noteq> []" "b < 128"
  shows "utf8_first (bs @ b # ds) = utf8_first bs"
proof -
  have n: "\<not> in_range (fst (utf8_second b0)) (snd (utf8_second b0)) b" "\<not> in_range 128 191 b" for b0
    using assms(2) by (auto simp: in_range_def)
  consider b0 where "bs = [b0]" | b0 b1 where "bs = [b0, b1]" | b0 b1 b2 where "bs = [b0, b1, b2]"
    | b0 b1 b2 b3 r where "bs = b0 # b1 # b2 # b3 # r"
    using assms(1) by (metis neq_Nil_conv)
  then show ?thesis
    by cases (simp_all add: utf8_first_def n del: utf8_second.simps)
qed

lemma utf8_chunks_Cons_ascii: "is_ascii c \<Longrightarrow> utf8_chunks (c # s) = (byte_of c, [c]) # utf8_chunks s"
  by (simp add: utf8_first_1 is_ascii_def)

lemma utf8_chunks_snoc: "is_ascii c \<Longrightarrow> utf8_chunks (s @ [c]) = utf8_chunks s @ [(byte_of c, [c])]"
proof (induction s rule: utf8_chunks.induct)
  case 1
  then show ?case using utf8_chunks_Cons_ascii [of c "[]"] by simp
next
  case (2 d ds)
  obtain r n where rn: "utf8_first (map byte_of (take 4 (d # ds))) = (r, n)" by force
  have w: "1 \<le> n" "n \<le> length (take 4 (d # ds))"
    using utf8_first_width [of "map byte_of (take 4 (d # ds))"] rn by auto
  have t: "take 4 (d # ds @ [c]) = take 4 (d # ds) @ take (3 - length ds) [c]" by simp
  have "utf8_first (map byte_of (take 4 (d # ds @ [c]))) = (r, n)"
  proof (cases "3 - length ds")
    case 0
    then show ?thesis using rn t by simp
  next
    case (Suc k)
    then have "map byte_of (take 4 (d # ds @ [c])) = map byte_of (take 4 (d # ds)) @ [byte_of c]" using t by simp
    then show ?thesis using utf8_first_snoc [of "map byte_of (take 4 (d # ds))" "byte_of c" "[]"] rn 2(2)
      by (simp add: is_ascii_def)
  qed
  then have *: "utf8_chunks ((d # ds) @ [c]) = (r, take n (d # ds @ [c])) # utf8_chunks (drop (n - 1) (ds @ [c]))"
    by simp
  have "n \<le> Suc (length ds)" using w by simp
  then have "take n (d # ds @ [c]) = take n (d # ds)" "drop (n - 1) (ds @ [c]) = drop (n - 1) ds @ [c]"
    using w(1) by (cases n; simp)+
  moreover have "utf8_chunks (drop (n - 1) ds @ [c]) = utf8_chunks (drop (n - 1) ds) @ [(byte_of c, [c])]"
    using 2 rn by simp
  ultimately show ?case using * rn by simp
qed

definition solid :: "char \<Rightarrow> bool" where
  "solid c \<longleftrightarrow> is_ascii c \<and> \<not> is_space (byte_of c)"

text \<open>Trimming leaves a string alone that starts and ends with an ASCII byte that is no space.\<close>

lemma go_trim_space_solid:
  assumes "solid (hd s)" "solid (last s)" "s \<noteq> []"
  shows "go_trim_space s = s"
proof -
  let ?sp = "\<lambda>c. is_space (fst c)"
  obtain c cs where c: "s = c # cs" using assms(3) by (cases s) auto
  obtain ds d where d: "s = ds @ [d]" using assms(3) by (metis rev_exhaust)
  have "dropWhile ?sp (utf8_chunks s) = utf8_chunks s"
    using assms(1) utf8_chunks_Cons_ascii [of c cs] unfolding c by (simp add: solid_def del: utf8_chunks.simps)
  moreover have "dropWhile ?sp (rev (utf8_chunks s)) = rev (utf8_chunks s)"
    using assms(2) utf8_chunks_snoc [of d ds] unfolding d by (simp add: solid_def)
  ultimately show ?thesis by (simp add: go_trim_space_def)
qed

lemma go_trim_space_Nil [simp]: "go_trim_space [] = []"
  by (simp add: go_trim_space_def unchunk_def)

lemma unchunk_append: "unchunk (xs @ ys) = unchunk xs @ unchunk ys"
  by (simp add: unchunk_def)

text \<open>What trimming returns is the string without runs of spaces at its ends.\<close>

lemma runes_trim_spaces:
  assumes "\<not> list_ex is_space (runes s)"
  shows "go_trim_space s = s"
proof -
  let ?sp = "\<lambda>c. is_space (fst c)"
  have n: "\<not> list_ex ?sp (utf8_chunks s)" using assms by (auto simp: runes_def list_ex_iff)
  then have "dropWhile ?sp xs = xs" if "set xs \<subseteq> set (utf8_chunks s)" for xs
    using that by (cases xs) (auto simp: list_ex_iff)
  then show ?thesis by (simp add: go_trim_space_def)
qed

section \<open>Lowering twice\<close>

text \<open>
  What the Unicode lower-case table satisfies: it gives runes that can be encoded, is its own
  fixpoint, and gives no upper-case ASCII letter.
\<close>

definition lower_table :: "(nat \<Rightarrow> nat) \<Rightarrow> bool" where
  "lower_table tab \<longleftrightarrow> (\<forall>r \<ge> 128. valid_rune r \<longrightarrow> valid_rune (tab r) \<and>
     (if tab r < 128 then \<not> in_range 65 90 (tab r) else tab (tab r) = tab r))"

lemma ascii_lower_idem [simp]: "ascii_lower (ascii_lower c) = ascii_lower c"
  by (auto simp: ascii_lower_def is_upper_def byte_of_char_of)

lemma ascii_lower_ascii: "is_ascii c \<Longrightarrow> is_ascii (ascii_lower c)"
  by (auto simp: ascii_lower_def is_upper_def byte_of_char_of is_ascii_def)

definition lower_rune :: "(nat \<Rightarrow> nat) \<Rightarrow> nat \<Rightarrow> nat" where
  "lower_rune tab r = (if r < 128 then byte_of (ascii_lower (char_of r)) else tab r)"

lemma ascii_lower_byte: "r < 128 \<Longrightarrow> byte_of (ascii_lower (char_of r)) = (if in_range 65 90 r then r + 32 else r)"
  by (auto simp: ascii_lower_def is_upper_def byte_of_char_of in_range_def)

lemma lower_rune_idem:
  assumes "lower_table tab" "valid_rune r"
  shows "valid_rune (lower_rune tab r) \<and> lower_rune tab (lower_rune tab r) = lower_rune tab r"
proof (cases "r < 128")
  case True
  then show ?thesis by (auto simp: lower_rune_def ascii_lower_byte valid_rune_def in_range_def)
next
  case False
  with assms have "valid_rune (tab r) \<and> (if tab r < 128 then \<not> in_range 65 90 (tab r) else tab (tab r) = tab r)"
    by (simp add: lower_table_def)
  with False show ?thesis by (auto simp: lower_rune_def ascii_lower_byte split: if_splits)
qed

lemma to_lower_runes: "\<not> list_all is_ascii s \<Longrightarrow> to_lower tab s = concat (map utf8_encode (map (lower_rune tab) (runes s)))"
  unfolding to_lower_def map_runes_def lower_rune_def [abs_def] map_map comp_def by simp

lemma valid_utf8_to_lower: "valid_utf8 (to_lower tab s)"
proof (cases "list_all is_ascii s")
  case True
  then have "list_all is_ascii (map ascii_lower s)" by (auto simp: list_all_iff ascii_lower_ascii)
  with True show ?thesis by (simp add: to_lower_def valid_utf8_ascii)
next
  case False
  show ?thesis unfolding to_lower_runes [OF False] by (rule valid_utf8_encode)
qed

lemma map_byte_of_inject: "map byte_of xs = map byte_of ys \<Longrightarrow> xs = ys"
  by (rule map_injective) (auto simp: inj_on_def inj_def)

lemma to_lower_idem:
  assumes t: "lower_table tab"
  shows "to_lower tab (to_lower tab s) = to_lower tab s"
proof (cases "list_all is_ascii s")
  case True
  then have "list_all is_ascii (map ascii_lower s)" by (auto simp: list_all_iff ascii_lower_ascii)
  with True show ?thesis by (simp add: to_lower_def)
next
  case False
  define rs where "rs = map (lower_rune tab) (runes s)"
  have v: "list_all valid_rune rs" "map (lower_rune tab) rs = rs"
    using runes_valid [of s] lower_rune_idem [OF t] by (auto simp: rs_def list_all_iff)
  have s': "to_lower tab s = concat (map utf8_encode rs)" unfolding rs_def by (rule to_lower_runes [OF False])
  have r': "runes (to_lower tab s) = rs" using runes_encode [OF v(1)] s' by simp
  show ?thesis
  proof (cases "list_all is_ascii (to_lower tab s)")
    case True
    let ?t = "to_lower tab s"
    have b: "map byte_of ?t = rs" using runes_ascii [OF True] r' by simp
    have "map byte_of (map ascii_lower ?t) = map (lower_rune tab) (map byte_of ?t)"
      using True by (auto simp: list_all_iff lower_rune_def is_ascii_def)
    also have "\<dots> = map byte_of ?t" using b v(2) by simp
    finally have "map ascii_lower ?t = ?t" by (rule map_byte_of_inject)
    with True show ?thesis by (simp add: to_lower_def [of tab ?t])
  next
    case False
    from to_lower_runes [OF False, of tab] have "to_lower tab (to_lower tab s) = concat (map utf8_encode rs)"
      unfolding r' v(2) .
    then show ?thesis unfolding s' .
  qed
qed

end
