(* ===== verification/Config_Lemmas.thy ===== *)
theory Config_Lemmas
  imports Config_Load Go_Utf8
begin

text \<open>
  Lemmas on the configuration: what each check of \<open>apply\<close> changes, what a loaded configuration
  satisfies, and the trimming and quoting facts behind the round trip of the file format.
\<close>

section \<open>The stages of apply\<close>

lemma stage_effects:
  "apply_certname ct m c = Inr c' \<Longrightarrow> \<exists>s. c' = c\<lparr>CertName := s\<rparr> \<and> (c' = c \<or> (\<not> badName s \<and> usableOriginHost ct s))"
  "apply_tls ct m c = Inr c' \<Longrightarrow> \<exists>b. c' = c\<lparr>DisableTLS := b\<rparr>"
  "apply_ovpn ct m c = Inr c' \<Longrightarrow> \<exists>b. c' = c\<lparr>DisableOvpnToken := b\<rparr>"
  "apply_upload ct m c = Inr c' \<Longrightarrow> \<exists>n. c' = c\<lparr>MaxUpload := n\<rparr> \<and> (c' = c \<or> parseSize ct (first m ''MAX_UPLOAD'') = Some n)"
  "apply_crypto ct m c = Inr c' \<Longrightarrow> \<exists>k. c' = c\<lparr>CryptoKey := k\<rparr> \<and> (c' = c \<or> parseCrypto (first m ''OIDC_CRYPTO'') = Some k)"
  "apply_admins ct m c = Inr c' \<Longrightarrow> \<exists>us. c' = c\<lparr>AdminUsers := us\<rparr> \<and> (c' = c \<or> parseAdminUsers (first m ''ADMIN_USERS'') = Inr us)"
  by (auto simp: apply_certname_def apply_tls_def apply_ovpn_def apply_upload_def apply_crypto_def apply_admins_def
      Let_def split: if_splits option.splits sum.splits intro: exI [of _ "CertName c"] exI [of _ "DisableTLS c"]
      exI [of _ "DisableOvpnToken c"] exI [of _ "MaxUpload c"] exI [of _ "CryptoKey c"] exI [of _ "AdminUsers c"])

definition vals_of :: "cfgmap \<Rightarrow> string \<Rightarrow> string list" where
  "vals_of m k = (case m k of None \<Rightarrow> [] | Some vs \<Rightarrow> vs)"

lemma stage_operator:
  "apply_emails ct m c = Inr c' \<Longrightarrow> \<exists>es. c' = c\<lparr>AllowedEmails := es\<rparr> \<and> parseAllowedEmails ct (vals_of m k_emails) = Inr es"
  "apply_pam ct m c = Inr c' \<Longrightarrow> \<exists>b. c' = c\<lparr>PAM := b\<rparr> \<and>
     b = (if first m k_pam = [] then True else the (parseBool ct (first m k_pam)))"
  "apply_idp ct m c = Inr c' \<Longrightarrow>
     (m k_idp = None \<and> c' = c) \<or>
     (\<exists>vs ns. m k_idp = Some vs \<and> parseIDPNames ct vs = Inr ns \<and> c' = c\<lparr>IDPSet := True, IDPs := ns\<rparr>)"
  "apply_required ct m c = Inr c' \<Longrightarrow> c' = c \<and> Data c \<noteq> [] \<and> PAMService c \<noteq> [] \<and> cfg_UnixGroup c \<noteq> [] \<and> MaxUpload c > 0"
  by (auto simp: apply_emails_def apply_pam_def apply_idp_def apply_required_def vals_of_def Let_def
      split: if_splits option.splits sum.splits)

text \<open>What a map that passes \<open>apply\<close> says of the resulting configuration.\<close>

record applied =
  ap_cert :: string
  ap_tls :: bool
  ap_ovpn :: bool
  ap_upload :: int
  ap_crypto :: string
  ap_admins :: "string list"
  ap_emails :: "string list"
  ap_pam :: bool
  ap_idp :: "string list option"

definition filled :: "cfgmap \<Rightarrow> applied \<Rightarrow> Config" where
  "filled m a = (set_scalars m zero_config)\<lparr>CertName := ap_cert a, DisableTLS := ap_tls a,
     DisableOvpnToken := ap_ovpn a, MaxUpload := ap_upload a, CryptoKey := ap_crypto a, AdminUsers := ap_admins a,
     AllowedEmails := ap_emails a, PAM := ap_pam a, IDPSet := (ap_idp a \<noteq> None),
     IDPs := (case ap_idp a of None \<Rightarrow> [] | Some ns \<Rightarrow> ns)\<rparr>"

lemma run_stages_Cons:
  "run_stages (s # ss) ct m c = Inr c' \<Longrightarrow> \<exists>c1. s ct m c = Inr c1 \<and> run_stages ss ct m c1 = Inr c'"
  by (auto split: sum.splits)

lemma apply_cfg_filled:
  assumes "apply_cfg ct m zero_config = Inr c"
  obtains a where "c = filled m a"
    "ap_cert a = [] \<or> \<not> badName (ap_cert a) \<and> usableOriginHost ct (ap_cert a)"
    "parseSize ct (first m ''MAX_UPLOAD'') = Some (ap_upload a)" "ap_upload a > 0"
    "ap_crypto a = [] \<or> parseCrypto (first m ''OIDC_CRYPTO'') = Some (ap_crypto a)"
    "ap_admins a = [] \<or> parseAdminUsers (first m ''ADMIN_USERS'') = Inr (ap_admins a)"
    "parseAllowedEmails ct (vals_of m k_emails) = Inr (ap_emails a)"
    "ap_pam a = (if first m k_pam = [] then True else the (parseBool ct (first m k_pam)))"
    "(m k_idp = None \<and> ap_idp a = None) \<or> (\<exists>vs ns. m k_idp = Some vs \<and> parseIDPNames ct vs = Inr ns \<and> ap_idp a = Some ns)"
    "first m ''DATA'' \<noteq> []" "first m ''PAM_SERVICE'' \<noteq> []" "first m ''UNIX_GROUP'' \<noteq> []"
proof -
  define c0 where "c0 = set_scalars m zero_config"
  from assms obtain c1 c2 c3 c4 c5 c6 c7 c8 c9 where s:
    "apply_certname ct m c0 = Inr c1" "apply_tls ct m c1 = Inr c2" "apply_ovpn ct m c2 = Inr c3"
    "apply_upload ct m c3 = Inr c4" "apply_crypto ct m c4 = Inr c5" "apply_admins ct m c5 = Inr c6"
    "apply_emails ct m c6 = Inr c7" "apply_pam ct m c7 = Inr c8" "apply_idp ct m c8 = Inr c9"
    "apply_required ct m c9 = Inr c"
    unfolding apply_cfg_def apply_stages_def c0_def by (auto dest!: run_stages_Cons simp del: run_stages.simps(2))
  have z: "CertName c0 = []" "MaxUpload c0 = 0" "CryptoKey c0 = []" "AdminUsers c0 = []" "IDPSet c0 = False" "IDPs c0 = []"
    "DisableTLS c0 = False" "DisableOvpnToken c0 = False"
    by (simp_all add: c0_def set_scalars_def zero_config_def)
  obtain cn where 1: "c1 = c0\<lparr>CertName := cn\<rparr>" "cn = [] \<or> \<not> badName cn \<and> usableOriginHost ct cn"
  proof -
    obtain cn where cn: "c1 = c0\<lparr>CertName := cn\<rparr>" "c1 = c0 \<or> \<not> badName cn \<and> usableOriginHost ct cn"
      using stage_effects(1) [OF s(1)] by blast
    moreover have "CertName c1 = cn" using cn(1) by simp
    ultimately show thesis using that z(1) by metis
  qed
  obtain b1 where 2: "c2 = c1\<lparr>DisableTLS := b1\<rparr>" using stage_effects(2) [OF s(2)] by blast
  obtain b2 where 3: "c3 = c2\<lparr>DisableOvpnToken := b2\<rparr>" using stage_effects(3) [OF s(3)] by blast
  obtain n where 4: "c4 = c3\<lparr>MaxUpload := n\<rparr>" "c4 = c3 \<or> parseSize ct (first m ''MAX_UPLOAD'') = Some n"
    using stage_effects(4) [OF s(4)] by blast
  obtain k where 5: "c5 = c4\<lparr>CryptoKey := k\<rparr>" "c5 = c4 \<or> parseCrypto (first m ''OIDC_CRYPTO'') = Some k"
    using stage_effects(5) [OF s(5)] by blast
  obtain us where 6: "c6 = c5\<lparr>AdminUsers := us\<rparr>" "c6 = c5 \<or> parseAdminUsers (first m ''ADMIN_USERS'') = Inr us"
    using stage_effects(6) [OF s(6)] by blast
  obtain es where 7: "c7 = c6\<lparr>AllowedEmails := es\<rparr>" "parseAllowedEmails ct (vals_of m k_emails) = Inr es"
    using stage_operator(1) [OF s(7)] by blast
  obtain b where 8: "c8 = c7\<lparr>PAM := b\<rparr>" "b = (if first m k_pam = [] then True else the (parseBool ct (first m k_pam)))"
    using stage_operator(2) [OF s(8)] by blast
  obtain i where 9: "c9 = c8\<lparr>IDPSet := (i \<noteq> None), IDPs := (case i of None \<Rightarrow> [] | Some ns \<Rightarrow> ns)\<rparr>"
    "(m k_idp = None \<and> i = None) \<or> (\<exists>vs ns. m k_idp = Some vs \<and> parseIDPNames ct vs = Inr ns \<and> i = Some ns)"
  proof -
    have z8: "IDPSet c8 = False" "IDPs c8 = []" using 1 2 3 4(1) 5(1) 6(1) 7(1) 8(1) z by simp_all
    then have e: "c8\<lparr>IDPSet := False, IDPs := []\<rparr> = c8" by (cases c8) simp
    from stage_operator(3) [OF s(9)] consider "m k_idp = None" "c9 = c8"
      | vs ns where "m k_idp = Some vs" "parseIDPNames ct vs = Inr ns" "c9 = c8\<lparr>IDPSet := True, IDPs := ns\<rparr>" by metis
    then show thesis
    proof cases
      case 1
      show thesis by (rule that [of None]) (use 1 e in simp_all)
    next
      case (2 vs ns)
      show thesis by (rule that [of "Some ns"]) (use 2 in simp_all)
    qed
  qed
  have 10: "c = c9" "Data c \<noteq> []" "PAMService c \<noteq> []" "cfg_UnixGroup c \<noteq> []" "MaxUpload c > 0"
    using stage_operator(4) [OF s(10)] by auto
  define a where "a = \<lparr>ap_cert = cn, ap_tls = b1, ap_ovpn = b2, ap_upload = n, ap_crypto = k, ap_admins = us,
    ap_emails = es, ap_pam = b, ap_idp = i\<rparr>"
  have c: "c = filled m a"
    using 1 2 3 4(1) 5(1) 6(1) 7(1) 8(1) 9(1) 10(1) by (simp add: filled_def a_def c0_def)
  have up: "n > 0" using 10(5) c by (simp add: filled_def a_def)
  have "MaxUpload c3 = 0" using 1 2 3 z by simp
  moreover have "MaxUpload c4 = n" using 4(1) by simp
  ultimately have sz: "parseSize ct (first m ''MAX_UPLOAD'') = Some n" using 4(2) up by auto
  have cr: "k = [] \<or> parseCrypto (first m ''OIDC_CRYPTO'') = Some k"
  proof -
    have "CryptoKey c4 = []" using 1 2 3 4(1) z by simp
    moreover have "CryptoKey c5 = k" using 5(1) by simp
    ultimately show ?thesis using 5(2) by auto
  qed
  have ad: "us = [] \<or> parseAdminUsers (first m ''ADMIN_USERS'') = Inr us"
  proof -
    have "AdminUsers c5 = []" using 1 2 3 4(1) 5(1) z by simp
    moreover have "AdminUsers c6 = us" using 6(1) by simp
    ultimately show ?thesis using 6(2) by auto
  qed
  show thesis
    by (rule that [OF c])
       (use 1(2) up sz cr ad 7(2) 8(2) 9(2) 10 c in \<open>auto simp: a_def filled_def set_scalars_def\<close>)
qed

section \<open>The file format\<close>

fun escape :: "string \<Rightarrow> string" where
  "escape [] = []"
| "escape (c # cs) = (if c = dquote then backslash # dquote # escape cs else c # escape cs)"

lemma escape_hd: "escape v = d # ds \<Longrightarrow> d \<noteq> dquote"
  by (cases v) (auto simp: dquote_def backslash_def split: if_splits)

lemma unescape_escape [simp]: "unescape (escape v) = v"
proof (induction v)
  case (Cons c cs)
  show ?case
  proof (cases "escape cs")
    case Nil
    then have "cs = []" by (cases cs) (auto split: if_splits)
    then show ?thesis by (auto simp: dquote_def backslash_def)
  next
    case (Cons d ds)
    with escape_hd [OF Cons] Cons.IH show ?thesis by (auto simp: dquote_def backslash_def)
  qed
qed simp

lemma set_escape: "set (escape v) \<subseteq> insert backslash (set v)"
  by (induction v) auto

definition config_line :: "string \<Rightarrow> string \<Rightarrow> string" where
  "config_line k v = k @ CHR ''='' # dquote # escape v @ [dquote]"

definition config_text :: "(string \<times> string) list \<Rightarrow> string" where
  "config_text kvs = concat (map (\<lambda>(k, v). config_line k v @ [CHR 10]) kvs)"

definition writable :: "string \<times> string \<Rightarrow> bool" where
  "writable kv \<longleftrightarrow> (case kv of (k, v) \<Rightarrow> validKey k \<and> CHR 10 \<notin> set v \<and> length (config_line k v) < 65536)"

lemma solid_quote [simp]: "solid dquote"
  by code_simp

lemma solid_key_char: "is_upper c \<or> is_digit c \<or> c = CHR ''_'' \<Longrightarrow> solid c"
  by (auto simp: solid_def is_upper_def is_digit_def is_ascii_def is_space_def in_range_def byte_of_def)

lemma validKey_solid:
  assumes "validKey k"
  shows "k \<noteq> []" "\<forall>c \<in> set k. solid c \<and> c \<noteq> CHR ''='' \<and> c \<noteq> CHR ''#'' \<and> c \<noteq> CHR 10"
proof -
  show ne: "k \<noteq> []" using assms by (auto simp: validKey_def)
  have c: "\<forall>c \<in> set k. is_upper c \<or> is_digit c \<or> c = CHR ''_''"
    using assms by (auto simp: validKey_def list_all_iff split: list.splits)
  then show "\<forall>c \<in> set k. solid c \<and> c \<noteq> CHR ''='' \<and> c \<noteq> CHR ''#'' \<and> c \<noteq> CHR 10"
    using solid_key_char by (fastforce simp: is_upper_def is_digit_def byte_of_def)
qed

lemma go_cut_append: "c \<notin> set p \<Longrightarrow> go_cut c (p @ c # s) = (p, s, True)"
proof -
  assume "c \<notin> set p"
  then have "dropWhile (\<lambda>x. x \<noteq> c) (p @ c # s) = c # s" "takeWhile (\<lambda>x. x \<noteq> c) (p @ c # s) = p"
    by (induction p) auto
  then show ?thesis by (simp add: go_cut_def)
qed

lemma config_line_parses:
  assumes w: "writable (k, v)"
  shows "parse_lines n (config_line k v # ls) m = parse_lines (n + 1) ls (add_value k v m)"
proof -
  have k: "validKey k" "length (config_line k v) < 65536" using w by (auto simp: writable_def)
  note ks = validKey_solid [OF k(1)]
  define q where "q = dquote # escape v @ [dquote]"
  have l: "config_line k v = k @ CHR ''='' # q" by (simp add: config_line_def q_def)
  have "last (config_line k v) = dquote" by (simp add: config_line_def)
  then have cr: "drop_cr (config_line k v) = config_line k v" by (simp add: drop_cr_def dquote_def)
  have hd: "hd (config_line k v) = hd k" "hd k \<in> set k" "last k \<in> set k" using ks(1) by (simp_all add: l)
  have s: "solid (hd k)" "solid (last k)" "hd k \<noteq> CHR ''#''" using ks(2) hd by blast+
  have t: "go_trim_space (config_line k v) = config_line k v"
    by (rule go_trim_space_solid) (use s hd \<open>last _ = _\<close> in \<open>simp_all add: l\<close>)
  have tk: "go_trim_space k = k" using s(1,2) ks(1) by (rule go_trim_space_solid)
  have tq: "go_trim_space q = q" using go_trim_space_solid [of q] by (simp add: q_def)
  have u: "unquote q = v" by (simp add: q_def unquote_def)
  have "\<not> has_prefix (config_line k v) ''#''" using s(3) ks(1) by (cases k) (auto simp: has_prefix_def config_line_def)
  moreover have "go_cut (CHR ''='') (config_line k v) = (k, q, True)"
    unfolding l by (rule go_cut_append) (use ks(2) in blast)
  moreover have "config_line k v \<noteq> []" by (simp add: l)
  ultimately show ?thesis using k by (simp add: cr t tk tq u)
qed

definition add_all :: "(string \<times> string) list \<Rightarrow> cfgmap \<Rightarrow> cfgmap" where
  "add_all kvs m = fold (\<lambda>(k, v). add_value k v) kvs m"

lemma parse_lines_all:
  "list_all writable kvs \<Longrightarrow> parse_lines n (map (\<lambda>(k, v). config_line k v) kvs) m = Inr (add_all kvs m)"
proof (induction kvs arbitrary: n m)
  case (Cons kv kvs)
  then show ?case using config_line_parses [of "fst kv" "snd kv" n] by (auto simp: add_all_def split_def)
qed (simp add: add_all_def)

text \<open>The pairs of a file, so that a concrete text is evaluated once.\<close>

fun parse_pairs :: "nat \<Rightarrow> string list \<Rightarrow> (config_error, (string \<times> string) list) result" where
  "parse_pairs n [] = Inr []"
| "parse_pairs n (l # ls) =
     (if length l \<ge> 65536 then Inl CfgTooLong
      else let line = go_trim_space (drop_cr l) in
        if line = [] \<or> has_prefix line ''#'' then parse_pairs (n + 1) ls
        else (case go_cut (CHR ''='') line of (key0, val, ok) \<Rightarrow>
          if \<not> ok then Inl (CfgNoEq (n + 1))
          else let key = go_trim_space key0 in
            if \<not> validKey key then Inl (CfgBadKey (n + 1) key)
            else (case parse_pairs (n + 1) ls of
                    Inl e \<Rightarrow> Inl e | Inr kvs \<Rightarrow> Inr ((key, unquote (go_trim_space val)) # kvs))))"

lemma parse_lines_pairs:
  "parse_lines n ls m = (case parse_pairs n ls of Inl e \<Rightarrow> Inl e | Inr kvs \<Rightarrow> Inr (add_all kvs m))"
  by (induction n ls m rule: parse_lines.induct)
    (auto simp: add_all_def Let_def split: prod.split sum.split)

definition builtin_pairs :: "(string \<times> string) list" where
  "builtin_pairs = [(''DATA'', ''/var/lib/bootstash''), (''LISTEN'', ''127.0.0.1:8080''), (''PUBLIC_URL'', []),
     (''ADMIN_USERS'', []), (''ALLOWED_EMAILS'', []), (''PAM'', ''yes''), (''TLS'', ''auto''), (''TLS_CERT'', []),
     (''TLS_KEY'', []), (''CERT_NAME'', []), (''OVPN_TOKEN'', ''auto''), (''PAM_SERVICE'', ''bootstashd''),
     (''UNIX_GROUP'', ''bootstash''), (''MAX_UPLOAD'', ''32MiB'')]"

lemma mustParseBuiltin_eq: "mustParseBuiltin = add_all builtin_pairs (\<lambda>_. None)"
proof -
  have "parse_pairs 0 (scan_lines (concat (map (\<lambda>l. l @ [CHR 10]) default_dist))) = Inr builtin_pairs"
    by code_simp
  then show ?thesis by (simp add: mustParseBuiltin_def parseReader_def parse_lines_pairs)
qed

declare mustParseBuiltin_eq [code]

lemma split_sep_lines: "\<forall>l \<in> set ls. c \<notin> set l \<Longrightarrow> split_sep c (concat (map (\<lambda>l. l @ [c]) ls)) = ls @ [[]]"
  by (induction ls) (auto simp: split_sep_append)

lemma config_text_parse:
  assumes "list_all writable kvs"
  shows "parseReader (config_text kvs) = Inr (add_all kvs (\<lambda>_. None))"
proof -
  have nl: "\<forall>l \<in> set (map (\<lambda>(k, v). config_line k v) kvs). CHR 10 \<notin> set l"
  proof -
    have "CHR 10 \<notin> set (config_line k v)" if "writable (k, v)" for k v
    proof -
      have "validKey k" "CHR 10 \<notin> set v" using that by (auto simp: writable_def)
      then show ?thesis using set_escape [of v] validKey_solid(2) [of k]
        by (auto simp: config_line_def dquote_def backslash_def)
    qed
    then show ?thesis using assms by (auto simp: list_all_iff)
  qed
  have "config_text kvs = concat (map (\<lambda>l. l @ [CHR 10]) (map (\<lambda>(k, v). config_line k v) kvs))"
    by (simp add: config_text_def comp_def split_def)
  then have "scan_lines (config_text kvs) = map (\<lambda>(k, v). config_line k v) kvs"
    using split_sep_lines [OF nl] by (simp add: scan_lines_def)
  then show ?thesis
    using parse_lines_all [OF assms, of 0 "\<lambda>_. None"] by (simp add: parseReader_def)
qed

lemma vals_of_add_all: "vals_of (add_all kvs m) k = vals_of m k @ map snd (filter (\<lambda>x. fst x = k) kvs)"
proof (induction kvs arbitrary: m)
  case (Cons kv kvs)
  have "vals_of (add_value j v m) k = vals_of m k @ (if k = j then [v] else [])" for j v
    by (auto simp: vals_of_def add_value_def split: option.splits)
  with Cons show ?case by (cases kv) (auto simp: add_all_def)
qed (simp add: add_all_def)

section \<open>Lists of names and addresses\<close>

lemma email_loop_ok:
  "email_loop ct ps out = Inr es \<Longrightarrow> distinct out \<Longrightarrow>
   distinct es \<and> set es = set out \<union> {n. \<exists>p \<in> set ps. p \<noteq> [] \<and> NormalizeEmail ct p = Some n}"
  by (induction ct ps out rule: email_loop.induct) (auto split: if_splits option.splits)

lemma parseAllowedEmails_ok:
  "parseAllowedEmails ct ls = Inr es \<Longrightarrow>
   distinct es \<and> set es = {n. \<exists>l \<in> set ls. \<exists>p \<in> set (fields_func list_sep l). p \<noteq> [] \<and> NormalizeEmail ct p = Some n}"
  using email_loop_ok [of ct "concat (map (fields_func list_sep) ls)" "[]" es]
  by (auto simp: parseAllowedEmails_def)

lemma idp_loop_ok: "idp_loop ct ps out = Inr ns \<Longrightarrow> distinct out \<Longrightarrow> set out \<subseteq> {ProviderGoogle} \<Longrightarrow>
  distinct ns \<and> set ns \<subseteq> {ProviderGoogle}"
  by (induction ct ps out rule: idp_loop.induct) (auto simp: Let_def split: if_splits)

lemma parseIDPNames_ok: "parseIDPNames ct vs = Inr ns \<Longrightarrow> ns = [] \<or> ns = [ProviderGoogle]"
  using idp_loop_ok [of ct "concat (map (fields_func list_sep) vs)" "[]" ns]
  by (cases ns; cases "tl ns") (auto simp: parseIDPNames_def)

lemma admin_loop_ok: "admin_loop ps out = Inr us \<Longrightarrow> list_all (\<lambda>u. u \<noteq> [] \<and> \<not> badName u) out \<Longrightarrow>
  list_all (\<lambda>u. u \<noteq> [] \<and> \<not> badName u) us"
  by (induction ps out rule: admin_loop.induct) (auto split: if_splits)

lemma parseAdminUsers_ok: "parseAdminUsers s = Inr us \<Longrightarrow> list_all (\<lambda>u. u \<noteq> [] \<and> \<not> badName u) us"
  by (simp add: parseAdminUsers_def admin_loop_ok)

lemma parseCrypto_ok: "parseCrypto s = Some k \<Longrightarrow> 32 \<le> length k"
  by (auto simp: parseCrypto_def Let_def split: if_splits option.splits)

lemma wrap64_range: "- (2 ^ 63) \<le> wrap64 x \<and> wrap64 x < 2 ^ 63"
  by (simp add: wrap64_def)

lemma wrap64_id: "- (2 ^ 63) \<le> x \<Longrightarrow> x < 2 ^ 63 \<Longrightarrow> wrap64 x = x"
  by (simp add: wrap64_def)

lemma parseSize_range: "parseSize ct s = Some n \<Longrightarrow> n < 2 ^ 63"
proof -
  assume "parseSize ct s = Some n"
  then have "\<exists>x. n = wrap64 x" unfolding parseSize_def Let_def
    by (auto split: prod.splits option.splits if_splits)
  then show ?thesis using wrap64_range by blast
qed

lemma NormalizeEmail_ok: "NormalizeEmail ct s = Some n \<Longrightarrow> email_ok n \<and> n = ToLower ct (go_trim_space s)"
  by (auto simp: NormalizeEmail_def Let_def split: if_splits)

lemma email_ok_trim: "email_ok n \<Longrightarrow> go_trim_space n = n"
  by (rule runes_trim_spaces) (auto simp: email_ok_def bad_email_rune_def list_ex_iff)

lemma NormalizeEmail_idem:
  assumes "lower_table (lower ct)" "NormalizeEmail ct s = Some n"
  shows "NormalizeEmail ct n = Some n"
proof -
  have n: "email_ok n" "n = ToLower ct (go_trim_space s)" using NormalizeEmail_ok [OF assms(2)] by auto
  have "ToLower ct n = n" unfolding n(2) ToLower_def by (rule to_lower_idem [OF assms(1)])
  then show ?thesis using n(1) by (simp add: NormalizeEmail_def email_ok_trim)
qed

end
