(* ===== verification/Config_Properties.thy ===== *)
theory Config_Properties
  imports Config_Lemmas
begin

text \<open>
  The properties of the configuration: which file can change what, what every loaded
  configuration satisfies, the round trip of the file format, addresses and the allowlist, and
  what a passed check guarantees.
\<close>

section \<open>Shared lemmas\<close>

lemma derive_keeps:
  "Binds (derivePublicURL e c) = Binds c" "AllowedEmails (derivePublicURL e c) = AllowedEmails c"
  "PAM (derivePublicURL e c) = PAM c" "IDPSet (derivePublicURL e c) = IDPSet c" "IDPs (derivePublicURL e c) = IDPs c"
  "Binds (deriveTLSFiles e c) = Binds c" "AllowedEmails (deriveTLSFiles e c) = AllowedEmails c"
  "PAM (deriveTLSFiles e c) = PAM c" "IDPSet (deriveTLSFiles e c) = IDPSet c" "IDPs (deriveTLSFiles e c) = IDPs c"
  "Binds (deriveCertName e c) = Binds c" "AllowedEmails (deriveCertName e c) = AllowedEmails c"
  "PAM (deriveCertName e c) = PAM c" "IDPSet (deriveCertName e c) = IDPSet c" "IDPs (deriveCertName e c) = IDPs c"
  by (simp_all add: derivePublicURL_def deriveTLSFiles_def deriveCertName_def Let_def split: option.split prod.split)

lemma derive_keeps_more:
  "Data (derivePublicURL e c) = Data c" "MaxUpload (derivePublicURL e c) = MaxUpload c"
  "AdminUsers (derivePublicURL e c) = AdminUsers c" "CryptoKey (derivePublicURL e c) = CryptoKey c"
  "Data (deriveTLSFiles e c) = Data c" "MaxUpload (deriveTLSFiles e c) = MaxUpload c"
  "AdminUsers (deriveTLSFiles e c) = AdminUsers c" "CryptoKey (deriveTLSFiles e c) = CryptoKey c"
  "Data (deriveCertName e c) = Data c" "MaxUpload (deriveCertName e c) = MaxUpload c"
  "AdminUsers (deriveCertName e c) = AdminUsers c" "CryptoKey (deriveCertName e c) = CryptoKey c"
  by (simp_all add: derivePublicURL_def deriveTLSFiles_def deriveCertName_def Let_def split: option.split prod.split)

lemma load_cfg_cases:
  assumes "load_cfg e d oper sec = Inr c"
  obtains m c1 where "merge_files e d oper sec = Inr m" "apply_cfg (ce_case e) m zero_config = Inr c1"
    "c = derivePublicURL e (deriveTLSFiles e (deriveCertName e c1))"
  using assms by (auto simp: load_cfg_def split: sum.splits)

definition operator_part :: "Config \<Rightarrow> string list \<times> string list \<times> bool \<times> bool \<times> string list" where
  "operator_part c = (Binds c, AllowedEmails c, PAM c, IDPSet c, IDPs c)"

lemma operator_part_filled:
  assumes "apply_cfg ct m zero_config = Inr c" "apply_cfg ct m' zero_config = Inr c'"
    and "m k_listen = m' k_listen" "m k_emails = m' k_emails" "m k_idp = m' k_idp" "m k_pam = m' k_pam"
  shows "operator_part c = operator_part c'"
proof -
  obtain a where a: "c = filled m a" "parseAllowedEmails ct (vals_of m k_emails) = Inr (ap_emails a)"
    "ap_pam a = (if first m k_pam = [] then True else the (parseBool ct (first m k_pam)))"
    "(m k_idp = None \<and> ap_idp a = None) \<or> (\<exists>vs ns. m k_idp = Some vs \<and> parseIDPNames ct vs = Inr ns \<and> ap_idp a = Some ns)"
    using apply_cfg_filled [OF assms(1)] by metis
  obtain b where b: "c' = filled m' b" "parseAllowedEmails ct (vals_of m' k_emails) = Inr (ap_emails b)"
    "ap_pam b = (if first m' k_pam = [] then True else the (parseBool ct (first m' k_pam)))"
    "(m' k_idp = None \<and> ap_idp b = None) \<or> (\<exists>vs ns. m' k_idp = Some vs \<and> parseIDPNames ct vs = Inr ns \<and> ap_idp b = Some ns)"
    using apply_cfg_filled [OF assms(2)] by metis
  have "vals_of m k_emails = vals_of m' k_emails" "first m k_pam = first m' k_pam"
    using assms by (simp_all add: vals_of_def first_def)
  then have "ap_emails a = ap_emails b" "ap_pam a = ap_pam b" using a b by simp_all
  moreover have "ap_idp a = ap_idp b" using a(4) b(4) assms(5) by auto
  ultimately show ?thesis using a(1) b(1) assms(3) by (simp add: operator_part_def filled_def set_scalars_def)
qed

lemma operator_keys_distinct: "k_pam \<noteq> k_listen" "k_pam \<noteq> k_emails" "k_pam \<noteq> k_idp" "k_idp \<noteq> k_listen" "k_idp \<noteq> k_emails"
  by code_simp+

section \<open>Properties\<close>

text \<open>
  C26. The secrets file cannot change what is the operator's to decide: whatever it holds, if
  loading with it and loading without it both succeed, the listen specifications, the address
  allowlist, the PAM switch and the identity providers are the same.
\<close>

theorem secrets_cannot_flip:
  assumes "Load e d oper sec = Inr c" "LoadOperator e d oper = Inr c0"
  shows "Binds c = Binds c0 \<and> AllowedEmails c = AllowedEmails c0 \<and> PAM c = PAM c0 \<and>
    IDPSet c = IDPSet c0 \<and> IDPs c = IDPs c0"
proof -
  obtain m c1 where c: "merge_files e d oper (Some sec) = Inr m" "apply_cfg (ce_case e) m zero_config = Inr c1"
    "c = derivePublicURL e (deriveTLSFiles e (deriveCertName e c1))"
    using assms(1) load_cfg_cases unfolding Load_def by metis
  obtain m0 c2 where c0: "merge_files e d oper None = Inr m0" "apply_cfg (ce_case e) m0 zero_config = Inr c2"
    "c0 = derivePublicURL e (deriveTLSFiles e (deriveCertName e c2))"
    using assms(2) load_cfg_cases unfolding LoadOperator_def by metis
  obtain s where m: "m = mergeScalars m0 (s(k_pam := None, k_idp := None))"
    using c(1) c0(1) by (auto simp: merge_files_def Let_def split: sum.splits)
  have "m k = m0 k" if "k \<in> {k_listen, k_emails, k_idp, k_pam}" for k
    using that operator_keys_distinct by (auto simp: m mergeScalars_def split: option.splits)
  then have "operator_part c1 = operator_part c2" using operator_part_filled [OF c(2) c0(2)] by simp
  then show ?thesis unfolding c(3) c0(3) by (simp add: derive_keeps operator_part_def)
qed


text \<open>
  C28. Every assignment can be written in the file format and is read back: a text of lines
  \<open>KEY="value"\<close>, with quotes in the value escaped, parses to exactly the values of each key in
  their order, whatever bytes the values hold apart from line feeds, for lines below the
  scanner's 64 KiB.
\<close>

theorem config_roundtrip:
  assumes "list_all writable kvs"
  shows "\<exists>m. parseReader (config_text kvs) = Inr m \<and> (\<forall>k. vals_of m k = map snd (filter (\<lambda>x. fst x = k) kvs))"
  using config_text_parse [OF assms] by (simp add: vals_of_add_all) (simp add: vals_of_def)

text \<open>
  C29. An address has one identity: normalizing a normalized address changes nothing, so an
  address and its normal form have the same cubby, and the cubby's name is a plain file name of
  64 characters, for any lower-case table with the properties of Unicode's and any hash of 32
  bytes.
\<close>

theorem email_identity:
  assumes t: "lower_table (lower ct)" and h: "\<forall>x. length (sha256 x) = 32" and n: "NormalizeEmail ct s = Some n"
  shows "NormalizeEmail ct n = Some n \<and> EmailCubbyID ct sha256 s = EmailCubbyID ct sha256 n \<and>
    (\<exists>i. EmailCubbyID ct sha256 s = Some i \<and> length i = 64 \<and> plain_name i)"
proof -
  have i: "NormalizeEmail ct n = Some n" using NormalizeEmail_idem [OF t n] .
  let ?i = "hex_encode (sha256 n)"
  have l: "length ?i = 64" using h by simp
  have "slash \<notin> set ?i" "CHR ''.'' \<notin> set ?i"
    using set_hex_encode [of slash "sha256 n"] set_hex_encode [of "CHR ''.''" "sha256 n"]
    by (auto simp: in_range_def byte_of_def)
  moreover have "?i \<noteq> []" using l by (metis list.size(3) zero_neq_numeral)
  ultimately have "plain_name ?i" by (auto simp: plain_name_def)
  with i n l show ?thesis by (auto simp: EmailCubbyID_def)
qed

text \<open>
  C30. The allowlist admits exactly the addresses listed: for a configuration with a non-empty
  list an address is allowed if and only if its normal form is the normal form of an entry of
  the \<open>ALLOWED_EMAILS\<close> lines in force.
\<close>

theorem allowlist_exact:
  assumes "apply_cfg ct m zero_config = Inr c" "AllowedEmails c \<noteq> []"
  shows "AllowsEmail ct c email \<longleftrightarrow>
    (\<exists>n. NormalizeEmail ct email = Some n \<and>
      (\<exists>l \<in> set (vals_of m k_emails). \<exists>p \<in> set (fields_func list_sep l). p \<noteq> [] \<and> NormalizeEmail ct p = Some n))"
proof -
  obtain a where "c = filled m a" "parseAllowedEmails ct (vals_of m k_emails) = Inr (ap_emails a)"
    using apply_cfg_filled [OF assms(1)] by metis
  then have "set (AllowedEmails c) = {n. \<exists>l \<in> set (vals_of m k_emails). \<exists>p \<in> set (fields_func list_sep l).
      p \<noteq> [] \<and> NormalizeEmail ct p = Some n}"
    using parseAllowedEmails_ok by (simp add: filled_def)
  with assms(2) show ?thesis by (auto simp: AllowsEmail_def split: option.splits)
qed

lemma check_binds_ok: "check_binds bs = None \<Longrightarrow> b \<in> set bs \<Longrightarrow> \<exists>sp. ParseSpec b = Inr sp"
  by (induction bs) (auto split: sum.splits)

text \<open>
  C31. A configuration that passes the check can serve: it has a public URL, at least one listen
  specification and all of them parse to a port in range or a socket path, the TLS key pair
  loads whenever TLS is used, there is a way to sign in (a provider with a client id, or PAM),
  and exactly one of linking, password login and provider-only mode is on.
\<close>

theorem check_serves:
  assumes "Check e d oper sec = Inr c"
  shows "PublicURL c \<noteq> [] \<and> Binds c \<noteq> [] \<and>
    list_all (\<lambda>b. \<exists>sp. ParseSpec b = Inr sp \<and> spec_ok sp) (Binds c) \<and>
    (UseTLS c = False \<or> ce_keypair e (TLSCert c) (TLSKey c)) \<and>
    (Providers c = [] \<or> GoogleClientID c \<noteq> []) \<and> (PAM c \<or> Providers c \<noteq> []) \<and>
    (LinkPAM c = (PAM c \<and> \<not> PAMLogin c)) \<and> (PAMLogin c = (PAM c \<and> Providers c = []))"
proof -
  have r: "Ready c = None" and b: "check_binds (Binds c) = None"
    and t: "UseTLS c = False \<or> ce_keypair e (TLSCert c) (TLSKey c)" and l: "Load e d oper sec = Inr c"
    using assms by (auto simp: Check_def split: sum.splits option.splits if_splits)
  have "\<exists>sp. ParseSpec b = Inr sp \<and> spec_ok sp" if "b \<in> set (Binds c)" for b
    using check_binds_ok [OF \<open>check_binds (Binds c) = None\<close> that] ParseSpec_spec_ok by blast
  moreover have "providers_ready c (Providers c) = None" "PublicURL c \<noteq> []" "PAM c \<or> Providers c \<noteq> []" "Binds c \<noteq> []"
    using r by (auto simp: Ready_def split: if_splits option.splits)
  moreover from this(1) have "Providers c = [] \<or> GoogleClientID c \<noteq> []"
    by (cases "Providers c") (auto split: if_splits)
  ultimately show ?thesis using t by (auto simp: list_all_iff LinkPAM_def PAMLogin_def)
qed

section \<open>Sizes\<close>

text \<open>
  Sizes are read exactly while the product fits 63 bits. Beyond that the multiplication wraps:
  17179869185G is read as one gibibyte, and the check for a positive limit does not notice.
\<close>

lemma parseSize_overflow:
  "parseSize \<lparr>lower = \<lambda>r. r, upper = \<lambda>r. r\<rparr> ''17179869185G'' = Some (1024 * 1024 * 1024)"
  by code_simp

lemma parseSize_plain:
  "parseSize \<lparr>lower = \<lambda>r. r, upper = \<lambda>r. r\<rparr> '' 32 MiB '' = Some (32 * 1024 * 1024)"
  by code_simp

section \<open>Witnesses\<close>

definition ascii_table :: casetab where
  "ascii_table = \<lparr>lower = \<lambda>r. r, upper = \<lambda>r. r\<rparr>"

definition ex_cfgenv :: cfgenv where
  "ex_cfgenv = \<lparr>ce_case = ascii_table,
     ce_json = (\<lambda>_. Some \<lparr>gj_web = Some \<lparr>gb_id = ''cid'', gb_secret = ''s''\<rparr>, gj_installed = None, gj_id = [], gj_secret = []\<rparr>),
     ce_hostname = Some ''files.example.org'', ce_regular = (\<lambda>_. True), ce_certdirs = None,
     ce_urlhost = (\<lambda>_. None), ce_keypair = (\<lambda>_ _. True)\<rparr>"

definition ex_operator_pairs :: "(string \<times> string) list" where
  "ex_operator_pairs = [(''LISTEN'', ''*:443''), (''ALLOWED_EMAILS'', ''A@b.c x@y.z'')]"

definition ex_secrets_pairs :: "(string \<times> string) list" where
  "ex_secrets_pairs = [(''LISTEN'', ''*:80''), (''PAM'', ''no''), (''OIDC_GOOGLE_CLIENT_ID'', ''cid'')]"

definition ex_operator :: cfgfile where
  "ex_operator = FileBytes (config_text ex_operator_pairs)"

definition ex_secrets :: cfgfile where
  "ex_secrets = FileBytes (config_text ex_secrets_pairs)"

definition ex_map0 :: cfgmap where
  "ex_map0 = mergeInto (mergeInto mustParseBuiltin (\<lambda>_. None)) (add_all ex_operator_pairs (\<lambda>_. None))"

definition ex_map :: cfgmap where
  "ex_map = mergeScalars ex_map0 ((add_all ex_secrets_pairs (\<lambda>_. None))(k_pam := None, k_idp := None))"

lemma ex_parse:
  "parseReader (config_text ex_operator_pairs) = Inr (add_all ex_operator_pairs (\<lambda>_. None))"
  "parseReader (config_text ex_secrets_pairs) = Inr (add_all ex_secrets_pairs (\<lambda>_. None))"
proof -
  have "list_all writable ex_operator_pairs" "list_all writable ex_secrets_pairs" by code_simp+
  then show "parseReader (config_text ex_operator_pairs) = Inr (add_all ex_operator_pairs (\<lambda>_. None))"
    "parseReader (config_text ex_secrets_pairs) = Inr (add_all ex_secrets_pairs (\<lambda>_. None))"
    by (simp_all add: config_text_parse)
qed

lemma ex_merge:
  "merge_files ex_cfgenv FileMissing ex_operator None = Inr ex_map0"
  "merge_files ex_cfgenv FileMissing ex_operator (Some ex_secrets) = Inr ex_map"
proof -
  show m0: "merge_files ex_cfgenv FileMissing ex_operator None = Inr ex_map0"
    by (simp add: merge_files_def parseFile_def ex_operator_def ex_parse ex_map0_def)
  have "go_trim_space (config_text ex_secrets_pairs) \<noteq> [] \<and> hd (go_trim_space (config_text ex_secrets_pairs)) \<noteq> CHR ''{''"
    by code_simp
  then show "merge_files ex_cfgenv FileMissing ex_operator (Some ex_secrets) = Inr ex_map"
    by (simp add: merge_files_def parseFile_def ex_operator_def parseSecrets_def ex_secrets_def ex_parse
        ex_map_def ex_map0_def)
qed

definition ex_config :: Config where
  "ex_config = (case apply_cfg ascii_table ex_map zero_config of Inr c \<Rightarrow> c | Inl _ \<Rightarrow> zero_config)"

definition ex_config0 :: Config where
  "ex_config0 = (case apply_cfg ascii_table ex_map0 zero_config of Inr c \<Rightarrow> c | Inl _ \<Rightarrow> zero_config)"

definition derived :: "Config \<Rightarrow> Config" where
  "derived c = derivePublicURL ex_cfgenv (deriveTLSFiles ex_cfgenv (deriveCertName ex_cfgenv c))"

lemma ex_apply:
  "apply_cfg ascii_table ex_map zero_config = Inr ex_config" "apply_cfg ascii_table ex_map0 zero_config = Inr ex_config0"
proof -
  have "\<not> isl (apply_cfg ascii_table ex_map zero_config)" "\<not> isl (apply_cfg ascii_table ex_map0 zero_config)"
    by code_simp+
  then show "apply_cfg ascii_table ex_map zero_config = Inr ex_config" "apply_cfg ascii_table ex_map0 zero_config = Inr ex_config0"
    by (auto simp: ex_config_def ex_config0_def split: sum.split)
qed

lemma ex_case: "ce_case ex_cfgenv = ascii_table"
  by (simp add: ex_cfgenv_def)

lemma ex_Load: "Load ex_cfgenv FileMissing ex_operator ex_secrets = Inr (derived ex_config)"
  by (simp add: Load_def load_cfg_def ex_merge ex_case ex_apply derived_def)

lemma ex_LoadOperator: "LoadOperator ex_cfgenv FileMissing ex_operator = Inr (derived ex_config0)"
  by (simp add: LoadOperator_def load_cfg_def ex_merge ex_case ex_apply derived_def)

theorem secrets_cannot_flip_witness:
  "Load ex_cfgenv FileMissing ex_operator ex_secrets = Inr (derived ex_config) \<and>
   Binds (derived ex_config) = [''*:443''] \<and> PAM (derived ex_config)"
proof -
  have "Binds (derived ex_config0) = [''*:443''] \<and> PAM (derived ex_config0)" by code_simp
  then show ?thesis using secrets_cannot_flip [OF ex_Load ex_LoadOperator] ex_Load by simp
qed


theorem config_roundtrip_witness:
  "\<exists>m. parseReader (config_text [(''A'', '' say \"hi\" ''), (''B'', ''2''), (''A'', ''#3'')]) = Inr m \<and>
     vals_of m ''A'' = ['' say \"hi\" '', ''#3'']"
proof -
  have "list_all writable [(''A'', '' say \"hi\" ''), (''B'', ''2''), (''A'', ''#3'')]" by code_simp
  from config_roundtrip [OF this] show ?thesis by auto
qed

lemma ascii_lower_table: "lower_table (lower ascii_table)"
  by (simp add: lower_table_def ascii_table_def)

theorem email_identity_witness:
  "NormalizeEmail ascii_table '' Bob@Example.ORG '' = Some ''bob@example.org'' \<and>
   EmailCubbyID ascii_table (\<lambda>x. replicate 32 (CHR ''a'')) '' Bob@Example.ORG '' =
   EmailCubbyID ascii_table (\<lambda>x. replicate 32 (CHR ''a'')) ''bob@example.org''"
proof -
  have n: "NormalizeEmail ascii_table '' Bob@Example.ORG '' = Some ''bob@example.org''" by code_simp
  have h: "\<forall>x :: string. length (replicate 32 (CHR ''a'')) = 32" by simp
  show ?thesis using email_identity [OF ascii_lower_table h n] n by blast
qed

theorem allowlist_exact_witness:
  "AllowsEmail ascii_table ex_config '' a@B.c'' \<and> \<not> AllowsEmail ascii_table ex_config ''q@b.c''"
proof -
  have n: "AllowedEmails ex_config \<noteq> []" by code_simp
  note ax = allowlist_exact [OF ex_apply(1) n]
  have v: "vals_of ex_map k_emails = [''A@b.c x@y.z'']" by code_simp
  have f: "fields_func list_sep ''A@b.c x@y.z'' = [''A@b.c'', ''x@y.z'']" by code_simp
  have e: "NormalizeEmail ascii_table ''A@b.c'' = Some ''a@b.c''" "NormalizeEmail ascii_table '' a@B.c'' = Some ''a@b.c''"
    "NormalizeEmail ascii_table ''x@y.z'' = Some ''x@y.z''" "NormalizeEmail ascii_table ''q@b.c'' = Some ''q@b.c''" by code_simp+
  have "AllowsEmail ascii_table ex_config '' a@B.c''" unfolding ax by (simp add: v f e)
  moreover have "\<not> AllowsEmail ascii_table ex_config ''q@b.c''" unfolding ax by (simp add: v f e)
  ultimately show ?thesis by blast
qed

theorem check_serves_witness:
  "Check ex_cfgenv FileMissing ex_operator ex_secrets = Inr (derived ex_config) \<and>
   PublicURL (derived ex_config) = ''https://files.example.org'' \<and> LinkPAM (derived ex_config)"
proof -
  have d: "PublicURL (derived ex_config) = ''https://files.example.org''" "PAM (derived ex_config)"
    "Providers (derived ex_config) = [ProviderGoogle]" "Ready (derived ex_config) = None"
    "check_binds (Binds (derived ex_config)) = None" by code_simp+
  have c: "Check ex_cfgenv FileMissing ex_operator ex_secrets = Inr (derived ex_config)"
    using d by (simp add: Check_def ex_Load) (simp add: ex_cfgenv_def)
  with check_serves [OF c] d show ?thesis by (simp add: PAMLogin_def)
qed

end
