(* ===== verification/Go_Url.thy ===== *)
theory Go_Url
  imports Go_Prelude
begin

text \<open>
  The functions of \<open>net/url\<close> the server uses on query components: \<open>QueryEscape\<close>,
  \<open>QueryUnescape\<close> and \<open>Values.Encode\<close> of a map with one value per key.
\<close>

definition unreserved :: "char \<Rightarrow> bool" where
  "unreserved c \<longleftrightarrow> is_upper c \<or> is_lower c \<or> is_digit c \<or> c \<in> {CHR ''-'', CHR ''_'', CHR ''.'', CHR ''~''}"

definition upper_hex :: "nat \<Rightarrow> char" where
  "upper_hex n = (if n < 10 then char_of (48 + n) else char_of (55 + n))"

definition escape_byte :: "char \<Rightarrow> string" where
  "escape_byte c =
     (if unreserved c then [c]
      else if c = CHR '' '' then ''+''
      else [CHR ''%'', upper_hex (byte_of c div 16), upper_hex (byte_of c mod 16)])"

definition QueryEscape :: "string \<Rightarrow> string" where
  "QueryEscape s = concat (map escape_byte s)"

fun QueryUnescape :: "string \<Rightarrow> string option" where
  "QueryUnescape [] = Some []"
| "QueryUnescape (c # r) =
     (if c = CHR ''%'' then
        (case r of
           a # b # r' \<Rightarrow>
             (case (hex_value a, hex_value b) of
                (Some x, Some y) \<Rightarrow> map_option ((#) (char_of (16 * x + y))) (QueryUnescape r')
              | _ \<Rightarrow> None)
         | _ \<Rightarrow> None)
      else map_option ((#) (if c = CHR ''+'' then CHR '' '' else c)) (QueryUnescape r))"

text \<open>
  \<open>url.Values\<close> as the list of its pairs, the values of one key in their order. \<open>Encode\<close> puts
  the keys in order.
\<close>

type_synonym query_values = "(string \<times> string) list"

definition values_get :: "query_values \<Rightarrow> string \<Rightarrow> string" where
  "values_get q k = (case map_of q k of None \<Rightarrow> [] | Some v \<Rightarrow> v)"

definition values_del :: "string \<Rightarrow> query_values \<Rightarrow> query_values" where
  "values_del k q = filter (\<lambda>x. fst x \<noteq> k) q"

definition values_set :: "string \<Rightarrow> string \<Rightarrow> query_values \<Rightarrow> query_values" where
  "values_set k v q = (k, v) # values_del k q"

definition values_encode :: "query_values \<Rightarrow> string" where
  "values_encode q = join_sep ''&'' (map (\<lambda>(k, v). QueryEscape k @ ''='' @ QueryEscape v) (sort_key fst q))"

section \<open>Escaping can be undone\<close>

lemma upper_hex_value: "n < 16 \<Longrightarrow> hex_value (upper_hex n) = Some n"
  by (auto simp: hex_value_def upper_hex_def byte_of_def in_range_def)

lemma unreserved_safe: "unreserved c \<Longrightarrow> c \<noteq> CHR ''%'' \<and> c \<noteq> CHR ''+''"
  by (auto simp: unreserved_def is_upper_def is_lower_def is_digit_def byte_of_def)

lemma byte_nibbles: "byte_of c div 16 < 16" "byte_of c mod 16 < 16" "16 * (byte_of c div 16) + byte_of c mod 16 = byte_of c"
proof -
  have "byte_of c < 256" by (simp add: byte_of_def)
  then show "byte_of c div 16 < 16" by (simp add: div_less_iff_less_mult)
qed simp_all

lemma unescape_byte: "QueryUnescape (escape_byte c @ s) = map_option ((#) c) (QueryUnescape s)"
proof (cases "unreserved c")
  case True
  with unreserved_safe [OF True] show ?thesis by (simp add: escape_byte_def)
next
  case False
  have "char_of (16 * (byte_of c div 16) + byte_of c mod 16) = c"
    unfolding byte_nibbles(3) by (simp add: byte_of_def)
  with False show ?thesis
    by (auto simp: escape_byte_def upper_hex_value byte_nibbles)
qed

lemma QueryUnescape_escape: "QueryUnescape (QueryEscape s) = Some s"
  by (induction s) (simp_all add: QueryEscape_def unescape_byte)

lemma escape_byte_chars: "x \<in> set (escape_byte c) \<Longrightarrow> unreserved x \<or> x = CHR ''%'' \<or> x = CHR ''+''"
proof -
  have "unreserved (upper_hex n)" if "n < 16" for n
    using that by (auto simp: unreserved_def is_upper_def is_digit_def upper_hex_def byte_of_def)
  then have "unreserved (upper_hex (byte_of c div 16))" "unreserved (upper_hex (byte_of c mod 16))"
    using byte_nibbles [of c] by blast+
  then show "x \<in> set (escape_byte c) \<Longrightarrow> ?thesis" by (auto simp: escape_byte_def split: if_splits)
qed

end
