(* ===== verification/Web_Mime.thy ===== *)
theory Web_Mime
  imports Config_Parse Go_Path
begin

text \<open>
  \<open>internal/web/mimetype.go\<close>: the table from file extensions to media types and how a file of
  a type is shown, with what they use of package \<open>mime\<close> (\<open>ParseMediaType\<close> and
  \<open>FormatMediaType\<close> of one parameter \<open>filename\<close>). The two embedded files are arguments.
\<close>

section \<open>Package mime\<close>

definition isTSpecial :: "char \<Rightarrow> bool" where
  "isTSpecial c \<longleftrightarrow> c \<in> set (''()<>@,;:/[]?='' @ [CHR 34, CHR 92])"

definition isTokenChar :: "char \<Rightarrow> bool" where
  "isTokenChar c \<longleftrightarrow> 32 < byte_of c \<and> byte_of c < 127 \<and> \<not> isTSpecial c"

definition isToken :: "string \<Rightarrow> bool" where
  "isToken s \<longleftrightarrow> s \<noteq> [] \<and> list_all isTokenChar s"

definition consumeToken :: "string \<Rightarrow> string \<times> string" where
  "consumeToken v = (takeWhile isTokenChar v, dropWhile isTokenChar v)"

definition trim_left_space :: "string \<Rightarrow> string" where
  "trim_left_space s = unchunk (dropWhile (\<lambda>c. is_space (fst c)) (utf8_chunks s))"

text \<open>The rest of a quoted string after its opening quote.\<close>

fun quoted_rest :: "string \<Rightarrow> string \<Rightarrow> (string \<times> string) option" where
  "quoted_rest buf [] = None"
| "quoted_rest buf (c # r) =
     (if c = CHR 34 then Some (buf, r)
      else if c = CHR 92 \<and> r \<noteq> [] \<and> isTSpecial (hd r) then quoted_rest (buf @ [hd r]) (tl r)
      else if c = CHR 13 \<or> c = CHR 10 then None
      else quoted_rest (buf @ [c]) r)"

definition consumeValue :: "string \<Rightarrow> string \<times> string" where
  "consumeValue v =
     (if v = [] then ([], [])
      else if hd v \<noteq> CHR 34 then consumeToken v
      else (case quoted_rest [] (tl v) of None \<Rightarrow> ([], v) | Some x \<Rightarrow> x))"

text \<open>The key, the value and what is left, or \<open>None\<close>.\<close>

definition consumeMediaParam :: "casetab \<Rightarrow> string \<Rightarrow> (string \<times> string \<times> string) option" where
  "consumeMediaParam ct v =
     (let rest = trim_left_space v in
      if \<not> has_prefix rest '';'' then None
      else (case consumeToken (trim_left_space (tl rest)) of (param, rest1) \<Rightarrow>
        let rest2 = trim_left_space rest1 in
        if param = [] \<or> \<not> has_prefix rest2 ''='' then None
        else (let rest3 = trim_left_space (tl rest2) in
          case consumeValue rest3 of (val, rest4) \<Rightarrow>
          if val = [] \<and> rest4 = rest3 then None else Some (ToLower ct param, val, rest4))))"

text \<open>Each parameter consumes input, so the length of the input is enough fuel.\<close>

fun media_params :: "nat \<Rightarrow> casetab \<Rightarrow> (string \<times> string) list \<Rightarrow> string \<Rightarrow> bool" where
  "media_params 0 ct ps v = (trim_left_space v = [])"
| "media_params (Suc n) ct ps v =
     (let v1 = trim_left_space v in
      if v1 = [] then True
      else (case consumeMediaParam ct v1 of
              None \<Rightarrow> go_trim_space v1 = '';''
            | Some (key, val, rest) \<Rightarrow>
                if (case map_of ps key of None \<Rightarrow> False | Some old \<Rightarrow> old \<noteq> val) then False
                else media_params n ct ((key, val) # ps) rest))"

definition checkMediaType :: "string \<Rightarrow> bool" where
  "checkMediaType s =
     (case consumeToken s of (typ, rest) \<Rightarrow>
      typ \<noteq> [] \<and>
      (rest = [] \<or>
       (has_prefix rest ''/'' \<and>
        (case consumeToken (tl rest) of (sub, rest1) \<Rightarrow> sub \<noteq> [] \<and> rest1 = []))))"

definition ParseMediaType :: "casetab \<Rightarrow> string \<Rightarrow> string option" where
  "ParseMediaType ct v =
     (case go_cut (CHR '';'') v of (base, _, _) \<Rightarrow>
      let media = go_trim_space (ToLower ct base) in
      if checkMediaType media \<and> media_params (length v) ct [] (drop (length base) v) then Some media else None)"

definition needsEncoding :: "string \<Rightarrow> bool" where
  "needsEncoding s \<longleftrightarrow> list_ex (\<lambda>c. (byte_of c < 32 \<or> byte_of c > 126) \<and> c \<noteq> CHR 9) s"

definition hex_upper :: "nat \<Rightarrow> char" where
  "hex_upper n = (if n < 10 then char_of (48 + n) else char_of (55 + n))"

definition encode_byte :: "char \<Rightarrow> string" where
  "encode_byte c =
     (if byte_of c \<le> 32 \<or> byte_of c \<ge> 127 \<or> c = CHR ''*'' \<or> c = CHR 39 \<or> c = CHR ''%'' \<or> isTSpecial c
      then [CHR ''%'', hex_upper (byte_of c div 16), hex_upper (byte_of c mod 16)] else [c])"

definition quote_byte :: "char \<Rightarrow> string" where
  "quote_byte c = (if c = CHR 34 \<or> c = CHR 92 then [CHR 92, c] else [c])"

text \<open>\<open>FormatMediaType\<close> of a disposition (a token) and the parameter \<open>filename\<close>.\<close>

definition FormatFilename :: "string \<Rightarrow> string \<Rightarrow> string" where
  "FormatFilename disp name =
     disp @ ''; filename'' @
     (if needsEncoding name then ''*=utf-8'' @ [CHR 39, CHR 39] @ concat (map encode_byte name)
      else if isToken name then ''='' @ name
      else ''='' @ [CHR 34] @ concat (map quote_byte name) @ [CHR 34])"

section \<open>The table\<close>

type_synonym mimetab = "(string \<times> string) list"

definition ovpnProfileType :: string where
  "ovpnProfileType = ''application/x-openvpn-profile''"

fun add_exts :: "casetab \<Rightarrow> string \<Rightarrow> string list \<Rightarrow> mimetab \<Rightarrow> mimetab" where
  "add_exts ct typ [] out = out"
| "add_exts ct typ (x # xs) out =
     (let ext = ToLower ct x in
      if ext = [] \<or> contains_any ext ''./'' then add_exts ct typ xs out
      else if map_of out (CHR ''.'' # ext) \<noteq> None then add_exts ct typ xs out
      else add_exts ct typ xs (out @ [(CHR ''.'' # ext, typ)]))"

fun mime_lines :: "casetab \<Rightarrow> string list \<Rightarrow> mimetab \<Rightarrow> mimetab option" where
  "mime_lines ct [] out = Some out"
| "mime_lines ct (l # ls) out =
     (if length l \<ge> 65536 then None
      else let line = go_trim_space (drop_cr l); fs = fields_func is_space line in
        if line = [] \<or> has_prefix line ''#'' then mime_lines ct ls out
        else if length fs < 2 then mime_lines ct ls out
        else if \<not> contains (hd fs) ''/'' then mime_lines ct ls out
        else mime_lines ct ls (add_exts ct (hd fs) (tl fs) out))"

definition parseMimeTypes :: "casetab \<Rightarrow> string \<Rightarrow> mimetab option" where
  "parseMimeTypes ct s = mime_lines ct (scan_lines s) []"

definition loadMimeTypes :: "casetab \<Rightarrow> string \<Rightarrow> string \<Rightarrow> mimetab option" where
  "loadMimeTypes ct types local_types =
     (case parseMimeTypes ct types of
        None \<Rightarrow> None
      | Some m \<Rightarrow> (case parseMimeTypes ct local_types of
          None \<Rightarrow> None
        | Some extra \<Rightarrow> Some (extra @ m)))"

definition fileContentType :: "casetab \<Rightarrow> mimetab \<Rightarrow> string \<Rightarrow> string" where
  "fileContentType ct tab name =
     (let ctype = (case map_of tab (ToLower ct (path_ext name)) of None \<Rightarrow> [] | Some t \<Rightarrow> t) in
      if ctype = [] then ''application/octet-stream''
      else if has_prefix ctype ''text/'' \<and> \<not> contains ctype ''charset='' then ctype @ ''; charset=utf-8''
      else ctype)"

definition contentDisposition :: "casetab \<Rightarrow> string \<Rightarrow> string" where
  "contentDisposition ct ctype =
     (let media = (case ParseMediaType ct ctype of None \<Rightarrow> ctype | Some m \<Rightarrow> m) in
      if has_prefix media ''video/'' \<or> has_prefix media ''audio/'' \<or> has_prefix media ''image/'' \<or>
         media = ''application/pdf'' \<or> media = ovpnProfileType
      then ''inline'' else ''attachment'')"

section \<open>File names do not break the header\<close>

text \<open>Every byte of the header value is printable ASCII or a tab.\<close>

definition header_safe :: "string \<Rightarrow> bool" where
  "header_safe s \<longleftrightarrow> list_all (\<lambda>c. (32 \<le> byte_of c \<and> byte_of c \<le> 126) \<or> c = CHR 9) s"

lemma header_safe_simps [simp]:
  "header_safe []"
  "header_safe (c # s) \<longleftrightarrow> ((32 \<le> byte_of c \<and> byte_of c \<le> 126) \<or> c = CHR 9) \<and> header_safe s"
  by (simp_all add: header_safe_def)

lemma header_safe_append [simp]: "header_safe (s @ t) \<longleftrightarrow> header_safe s \<and> header_safe t"
  by (simp add: header_safe_def)

lemma hex_upper_safe: "n < 16 \<Longrightarrow> 32 \<le> byte_of (hex_upper n) \<and> byte_of (hex_upper n) \<le> 126"
  by (auto simp: hex_upper_def byte_of_def)

lemma FormatFilename_safe:
  assumes "header_safe disp"
  shows "header_safe (FormatFilename disp name)"
proof -
  have byte: "byte_of c div 16 < 16" for c :: char by (simp add: byte_of_def div_less_iff_less_mult)
  have enc: "header_safe (encode_byte c)" for c
    using hex_upper_safe [OF byte, of c] hex_upper_safe [of "byte_of c mod 16"]
    by (auto simp: encode_byte_def byte_of_def not_le)
  then have encs: "header_safe (concat (map encode_byte name))"
    by (induction name) simp_all
  have quo: "header_safe (concat (map quote_byte name))" if "\<not> needsEncoding name"
    using that
    by (induction name) (auto simp: needsEncoding_def quote_byte_def byte_of_def not_less)
  have tok: "header_safe name" if "\<not> needsEncoding name"
    using that by (auto simp: needsEncoding_def header_safe_def list_all_iff list_ex_iff not_less)
  show ?thesis
    unfolding FormatFilename_def using assms encs quo tok by (auto simp: byte_of_def)
qed

end
