(* ===== verification/Web_Server.thy ===== *)
theory Web_Server
  imports Pamauth Web_State Config_Load Bind_Manager Go_Url Web_Mime "HOL-Library.State_Monad"
begin

text \<open>
  The parts of \<open>internal/web\<close> that every handler uses: the \<open>Server\<close>, its configuration,
  certificate and listeners, cookies and the session of a request, the cross-site check of
  \<open>csrf.go\<close>, and the pages of \<open>html.go\<close>.

  A handler is a program of the state monad over \<open>srv\<close>, so the definitions read like the Go
  functions, early returns as branches. What it does to its \<open>http.ResponseWriter\<close> is a list of
  actions. \<open>env\<close> holds what is not this code: the kernel and the path-based calls of \<open>os\<close>, the
  clock, \<open>crypto/rand\<close>, the user and group databases, PAM, the JSON encoders, the case tables,
  SHA-256, HMAC and the identity providers, each an arbitrary function of the world \<open>'w\<close>.
  Requests are handled one at a time; log lines are not modelled.
\<close>

section \<open>Requests and responses\<close>

text \<open>
  A request after \<open>net/http\<close> has parsed it: \<open>rq_Form\<close> is \<open>FormValue\<close>, \<open>rq_Multipart\<close> the
  outcome of \<open>ParseMultipartForm\<close> for a given limit on the body, and a body is the chunks that
  are read and how reading ends.
\<close>

type_synonym reader = "string list \<times> body_error option"

record multipart =
  mp_Form :: "string \<Rightarrow> string"
  mp_File :: "(string \<times> reader) option"

record request =
  rq_Method :: string
  rq_Path :: string
  rq_Query :: query_values
  rq_Header :: "string \<Rightarrow> string"
  rq_Cookies :: "(string \<times> string) list"
  rq_Form :: "string \<Rightarrow> string"
  rq_Body :: reader
  rq_Multipart :: "int \<Rightarrow> multipart option"

definition m_get :: string where "m_get = ''GET''"
definition m_head :: string where "m_head = ''HEAD''"
definition m_post :: string where "m_post = ''POST''"
definition m_put :: string where "m_put = ''PUT''"
definition m_delete :: string where "m_delete = ''DELETE''"

definition reads :: "request \<Rightarrow> bool" where
  "reads r \<longleftrightarrow> rq_Method r = m_get \<or> rq_Method r = m_head"

definition query :: "request \<Rightarrow> string \<Rightarrow> string" where
  "query r k = values_get (rq_Query r) k"

definition Cookie :: "request \<Rightarrow> string \<Rightarrow> string option" where
  "Cookie r n = map_of (rq_Cookies r) n"

record http_cookie =
  ck_Name :: string
  ck_Value :: string
  ck_Path :: string
  ck_Secure :: bool
  ck_HttpOnly :: bool
  ck_SameSiteLax :: bool
  ck_MaxAge :: int
  ck_Expires :: "int option"

record loginChoice =
  lc_Label :: string
  lc_Href :: string

record ovpnChoice =
  oc_Name :: string
  oc_Import :: string
  oc_Download :: string

record crumb =
  cr_Name :: string
  cr_Href :: string

text \<open>A listing entry, without its date and the two fields \<open>Row\<close> adds.\<close>

record listEntry =
  le_Name :: string
  le_Href :: string
  le_Size :: string
  le_Dir :: bool
  le_Link :: bool
  le_Mark :: bool

record pageData =
  pd_Title :: string
  pd_Error :: string
  pd_Hint :: string
  pd_Crumbs :: "crumb list"
  pd_Action :: string
  pd_CanWrite :: bool
  pd_SignedIn :: bool
  pd_PAMUser :: string
  pd_OIDCUser :: string
  pd_PAMLogin :: bool
  pd_Providers :: "loginChoice list"
  pd_File :: string
  pd_Download :: string
  pd_Import :: string
  pd_Choices :: "ovpnChoice list"
  pd_OvpnToken :: bool
  pd_Entries :: "listEntry list"

definition no_page :: pageData where
  "no_page = \<lparr>pd_Title = [], pd_Error = [], pd_Hint = [], pd_Crumbs = [], pd_Action = [], pd_CanWrite = False,
     pd_SignedIn = False, pd_PAMUser = [], pd_OIDCUser = [], pd_PAMLogin = False, pd_Providers = [], pd_File = [],
     pd_Download = [], pd_Import = [], pd_Choices = [], pd_OvpnToken = False, pd_Entries = []\<rparr>"

datatype action =
  SetHeader string string
| SetCookie http_cookie
| WriteHeader nat
| WriteBody string
| Redirect string nat
| HttpError string nat
| Template string pageData
| ServeContent string int
| Panic

section \<open>The server\<close>

record oidc_identity =
  id_Issuer :: string
  id_Subject :: string
  id_Email :: string
  id_EmailVerified :: bool
  id_FullName :: string

text \<open>
  \<open>Exchange\<close> fails (\<open>None\<close>) or gives a pointer to an identity, which may be nil.
\<close>

record 'w idp =
  i_AuthCodeURL :: "string \<Rightarrow> string \<Rightarrow> string \<Rightarrow> 'w \<Rightarrow> (string \<times> string) option \<times> 'w"
  i_Exchange :: "string \<Rightarrow> string \<Rightarrow> string \<Rightarrow> string \<Rightarrow> 'w \<Rightarrow> oidc_identity option option \<times> 'w"
  i_SetClient :: "(string \<Rightarrow> string \<Rightarrow> 'w \<Rightarrow> unit \<times> 'w) option"

record 'w Identity =
  id_Name :: string
  id_Label :: string
  id_IDP :: "'w idp option"

record 'w env =
  v_kernel :: "'w kernel"
  v_lstat :: "string \<Rightarrow> ('w, kstat) call"
  v_readdir :: "string \<Rightarrow> ('w, (string \<times> kstat) list) call"
  v_mkdirall :: "string \<Rightarrow> 32 word \<Rightarrow> ('w, unit) call"
  v_chmod :: "string \<Rightarrow> 32 word \<Rightarrow> ('w, unit) call"
  v_read :: "int \<Rightarrow> nat \<Rightarrow> ('w, string) call"
  v_now :: "'w \<Rightarrow> int \<times> 'w"
  v_rand :: "nat \<Rightarrow> 'w \<Rightarrow> string option \<times> 'w"
  v_keypair :: "string \<Rightarrow> string \<Rightarrow> 'w \<Rightarrow> nat option \<times> 'w"
  v_users :: user_db
  v_groups :: group_db
  v_auth :: "(string \<Rightarrow> string \<Rightarrow> 'w \<Rightarrow> auth_error option \<times> 'w) option"
  v_codec :: codec
  v_case :: casetab
  v_sha256 :: "string \<Rightarrow> string"
  v_mac :: "string \<Rightarrow> string \<Rightarrow> string"
  v_key :: string
  v_ids :: "'w Identity list"
  v_mime :: mimetab
  v_rng :: ranges
  v_depth :: nat
  v_order :: "string list \<Rightarrow> string list"

record 'w srv =
  sv_cfg :: Config
  sv_store :: osdir
  sv_cert :: "nat option"
  sv_manager :: Manager
  sv_sockets :: bind_world
  sv_oauth :: "oauthTx gomap"
  sv_tickets :: "ovpnTicket gomap"
  sv_world :: 'w
  sv_out :: "action list"

type_synonym ('w, 'a) web = "('w srv, 'a) state"

abbreviation ret :: "'a \<Rightarrow> ('s, 'a) state" where "ret \<equiv> State_Monad.return"

definition gets :: "('s \<Rightarrow> 'a) \<Rightarrow> ('s, 'a) state" where
  "gets f = State (\<lambda>s. (f s, s))"

definition modify :: "('s \<Rightarrow> 's) \<Rightarrow> ('s, unit) state" where
  "modify f = State (\<lambda>s. ((), f s))"

text \<open>Calls on one part of the state, and an action on the response.\<close>

definition sys :: "('w \<Rightarrow> 'a \<times> 'w) \<Rightarrow> ('w, 'a) web" where
  "sys f = State (\<lambda>s. case f (sv_world s) of (a, w) \<Rightarrow> (a, s\<lparr>sv_world := w\<rparr>))"

definition on_store :: "(osdir \<Rightarrow> 'a \<times> osdir) \<Rightarrow> ('w, 'a) web" where
  "on_store f = State (\<lambda>s. case f (sv_store s) of (a, d) \<Rightarrow> (a, s\<lparr>sv_store := d\<rparr>))"

definition on_oauth :: "(oauthTx gomap \<Rightarrow> 'a \<times> oauthTx gomap) \<Rightarrow> ('w, 'a) web" where
  "on_oauth f = State (\<lambda>s. case f (sv_oauth s) of (a, m) \<Rightarrow> (a, s\<lparr>sv_oauth := m\<rparr>))"

definition on_tickets :: "(ovpnTicket gomap \<Rightarrow> 'a \<times> ovpnTicket gomap) \<Rightarrow> ('w, 'a) web" where
  "on_tickets f = State (\<lambda>s. case f (sv_tickets s) of (a, m) \<Rightarrow> (a, s\<lparr>sv_tickets := m\<rparr>))"

definition emit :: "action \<Rightarrow> ('w, unit) web" where
  "emit a = modify (\<lambda>s. s\<lparr>sv_out := sv_out s @ [a]\<rparr>)"

abbreviation config :: "('w, Config) web" where "config \<equiv> gets sv_cfg"

fun for_each :: "'a list \<Rightarrow> ('a \<Rightarrow> ('s, unit) state) \<Rightarrow> ('s, unit) state" where
  "for_each [] f = ret ()"
| "for_each (x # xs) f = do { _ \<leftarrow> f x; for_each xs f }"

section \<open>Certificates and listeners\<close>

definition certificate :: "('w, nat option) web" where
  "certificate = gets sv_cert"

definition LoadCertificate :: "'w env \<Rightarrow> string \<Rightarrow> string \<Rightarrow> ('w, bool) web" where
  "LoadCertificate e certFile keyFile = do {
     c \<leftarrow> sys (v_keypair e certFile keyFile);
     case c of
       None \<Rightarrow> ret False
     | Some p \<Rightarrow> do { _ \<leftarrow> modify (\<lambda>s. s\<lparr>sv_cert := Some p\<rparr>); ret True }
   }"

datatype sync_error = BadListen string bind_error | SyncErr bind_error

fun parse_binds :: "string list \<Rightarrow> sync_error + Spec list" where
  "parse_binds [] = Inr []"
| "parse_binds (raw # raws) =
     (case ParseSpec raw of
        Inl e \<Rightarrow> Inl (BadListen raw e)
      | Inr sp \<Rightarrow> (case parse_binds raws of Inl e \<Rightarrow> Inl e | Inr sps \<Rightarrow> Inr (sp # sps)))"

definition SyncBinds :: "'w env \<Rightarrow> bool \<Rightarrow> ('w, sync_error option) web" where
  "SyncBinds e reload = do {
     cfg \<leftarrow> config;
     case parse_binds (Binds cfg) of
       Inl err \<Rightarrow> ret (Some err)
     | Inr specs \<Rightarrow> State (\<lambda>s.
         case Sync (v_rng e) specs (UseTLS cfg) reload (sv_manager s) (sv_sockets s) of (err, m, w) \<Rightarrow>
           (map_option SyncErr err, s\<lparr>sv_manager := m, sv_sockets := w\<rparr>))
   }"

definition ServerClose :: "'w env \<Rightarrow> ('w, bind_error option) web" where
  "ServerClose e = State (\<lambda>s.
     case Bind_Manager.Close (v_rng e) (sv_manager s) (sv_sockets s) of (err, m, w) \<Rightarrow>
       (err, s\<lparr>sv_manager := m, sv_sockets := w\<rparr>))"

section \<open>Cookies\<close>

definition https :: "Config \<Rightarrow> bool" where
  "https cfg \<longleftrightarrow> has_prefix (PublicURL cfg) ''https://''"

definition hostCookie :: "Config \<Rightarrow> string \<Rightarrow> string \<Rightarrow> string" where
  "hostCookie cfg httpsName httpName = (if has_prefix (PublicURL cfg) ''https://'' then httpsName else httpName)"

definition cookieName :: "Config \<Rightarrow> string" where
  "cookieName cfg = hostCookie cfg ''__Host-bootstash'' ''bootstash''"

definition ovpnImportCookieName :: "Config \<Rightarrow> string" where
  "ovpnImportCookieName cfg = hostCookie cfg ''__Host-bootstash-ovpn'' ''bootstash_ovpn''"

definition noticeCookieName :: "Config \<Rightarrow> string" where
  "noticeCookieName cfg = hostCookie cfg ''__Host-bootstash-notice'' ''bootstash_notice''"

definition downloadCookieName :: "Config \<Rightarrow> string" where
  "downloadCookieName cfg = hostCookie cfg ''__Host-bootstash-dl'' ''bootstash_dl''"

definition oauthCookieName :: "Config \<Rightarrow> string" where
  "oauthCookieName cfg = hostCookie cfg ''__Host-bootstash-oauth'' ''bootstash_oauth''"

definition setCookie :: "string \<Rightarrow> string \<Rightarrow> int \<Rightarrow> ('w, unit) web" where
  "setCookie name val maxAge = do {
     cfg \<leftarrow> config;
     emit (SetCookie \<lparr>ck_Name = name, ck_Value = val, ck_Path = ''/'', ck_Secure = https cfg,
       ck_HttpOnly = True, ck_SameSiteLax = True, ck_MaxAge = maxAge, ck_Expires = None\<rparr>)
   }"

definition setSessionCookie :: "session \<Rightarrow> ('w, unit) web" where
  "setSessionCookie sess = do {
     cfg \<leftarrow> config;
     emit (SetCookie \<lparr>ck_Name = cookieName cfg, ck_Value = s_ID sess, ck_Path = ''/'', ck_Secure = https cfg,
       ck_HttpOnly = True, ck_SameSiteLax = True, ck_MaxAge = 0, ck_Expires = Some (s_Expires sess)\<rparr>)
   }"

definition clearSessionCookie :: "('w, unit) web" where
  "clearSessionCookie = do { cfg \<leftarrow> config; setCookie (cookieName cfg) [] (- 1) }"

definition setOvpnImport :: "('w, unit) web" where
  "setOvpnImport = do { cfg \<leftarrow> config; setCookie (ovpnImportCookieName cfg) ''1'' (15 * 60) }"

definition clearOvpnImport :: "('w, unit) web" where
  "clearOvpnImport = do { cfg \<leftarrow> config; setCookie (ovpnImportCookieName cfg) [] (- 1) }"

definition afterLogin :: "request \<Rightarrow> bool \<Rightarrow> ('w, string) web" where
  "afterLogin r linked = do {
     cfg \<leftarrow> config;
     ret (if \<not> linked then ''/login''
          else if Cookie r (ovpnImportCookieName cfg) = Some ''1'' then ''/openvpn-api/profile''
          else ''/home/'')
   }"

text \<open>Messages shown on the next page.\<close>

definition listingErrMessage :: "string \<Rightarrow> string" where
  "listingErrMessage key =
     (if key = ''not-empty'' then ''That folder still has files in it.''
      else if key = ''not-allowed'' then ''That path is not allowed.''
      else if key = ''denied'' then ''Not authorized to open that.''
      else if key = ''missing'' then ''That file is gone.''
      else if key = ''not-a-folder'' then ''That is not a folder.''
      else if key = ''failed'' then ''Could not open that.''
      else if key = ''too-large'' then ''That file is too large.''
      else if key = ''need-file'' then ''Choose a file to upload.''
      else if key = ''bad-name'' then ''That name is not allowed.''
      else if key = ''need-name'' then ''Name required.''
      else [])"

definition setNotice :: "string \<Rightarrow> ('w, unit) web" where
  "setNotice key =
     (if listingErrMessage key = [] then ret ()
      else do { cfg \<leftarrow> config; setCookie (noticeCookieName cfg) key 60 })"

definition takeNotice :: "request \<Rightarrow> ('w, string) web" where
  "takeNotice r = do {
     cfg \<leftarrow> config;
     case Cookie r (noticeCookieName cfg) of
       None \<Rightarrow> ret []
     | Some v \<Rightarrow> if v = [] then ret []
         else do { _ \<leftarrow> setCookie (noticeCookieName cfg) [] (- 1); ret (listingErrMessage v) }
   }"

end
