(* ===== verification/Web_Pages.thy ===== *)
theory Web_Pages
  imports Web_Server
begin

text \<open>
  Who a request speaks for, and the pages every handler answers with: \<open>session\<close>,
  \<open>entryPath\<close> and the OpenVPN Connect headers of \<open>server.go\<close>, \<open>sessionHasCubby\<close> and
  \<open>emailHomeID\<close> of \<open>home.go\<close>, \<open>csrf.go\<close>, \<open>passwordLogin\<close> and \<open>loginPage\<close> of \<open>auth.go\<close>, and
  \<open>html.go\<close>. The embedded templates are not modelled: executing one is the action
  \<open>Template\<close>, and the failures of looking up an embedded template are left out.
\<close>

section \<open>Sessions\<close>

definition request_session :: "'w env \<Rightarrow> request \<Rightarrow> ('w, session option) web" where
  "request_session e r = do {
     cfg \<leftarrow> config;
     case Cookie r (cookieName cfg) of
       None \<Rightarrow> ret None
     | Some v \<Rightarrow>
         if v = [] then ret None
         else do {
           now \<leftarrow> sys (v_now e);
           g \<leftarrow> on_store (GetSession (v_codec e) v now);
           case g of Inl _ \<Rightarrow> ret None | Inr sess \<Rightarrow> ret (Some sess)
         }
   }"

definition emailHomeID :: "'w env \<Rightarrow> Config \<Rightarrow> session option \<Rightarrow> string option" where
  "emailHomeID e cfg sess =
     (case sess of
        None \<Rightarrow> None
      | Some s \<Rightarrow>
          if s_PAMUser s \<noteq> [] \<or> PAM cfg then None
          else (case EmailCubbyID (v_case e) (v_sha256 e) (s_Email s) of
                  None \<Rightarrow> None
                | Some i \<Rightarrow>
                    if length (AllowedEmails cfg) > 0 \<and> \<not> AllowsEmail (v_case e) cfg (s_Email s) then None
                    else Some i))"

definition sessionHasCubby :: "'w env \<Rightarrow> Config \<Rightarrow> session option \<Rightarrow> bool" where
  "sessionHasCubby e cfg sess =
     (case sess of
        None \<Rightarrow> False
      | Some s \<Rightarrow> if s_PAMUser s \<noteq> [] then True else emailHomeID e cfg sess \<noteq> None)"

definition isAdmin :: "Config \<Rightarrow> session option \<Rightarrow> bool" where
  "isAdmin cfg sess =
     (case sess of None \<Rightarrow> False | Some s \<Rightarrow> if s_PAMUser s = [] then False else IsAdmin cfg (s_PAMUser s))"

definition entryPath :: "'w env \<Rightarrow> request \<Rightarrow> ('w, string) web" where
  "entryPath e r = do {
     sess \<leftarrow> request_session e r;
     cfg \<leftarrow> config;
     ret (if sessionHasCubby e cfg sess then ''/home/'' else ''/login'')
   }"

text \<open>The Unix password form.\<close>

definition passwordLogin :: "'w env \<Rightarrow> Config \<Rightarrow> session option \<Rightarrow> bool" where
  "passwordLogin e cfg sess =
     (if sess \<noteq> None \<and> sessionHasCubby e cfg sess then False
      else if PAMLogin cfg then True
      else sess \<noteq> None \<and> LinkPAM cfg)"

section \<open>Identity providers\<close>

definition registered :: "'w env \<Rightarrow> string \<Rightarrow> 'w Identity option" where
  "registered e name = find (\<lambda>i. id_Name i = name \<and> \<not> Option.is_none (id_IDP i)) (v_ids e)"

definition activeIDP :: "'w env \<Rightarrow> Config \<Rightarrow> string \<Rightarrow> 'w idp option" where
  "activeIDP e cfg name =
     (case registered e name of
        None \<Rightarrow> None
      | Some i \<Rightarrow> if name \<in> set (Providers cfg) then id_IDP i else None)"

definition redirectURI :: "Config \<Rightarrow> string" where
  "redirectURI cfg = PublicURL cfg @ ''/oidc/callback''"

section \<open>Pages\<close>

definition sessionPage :: "session option \<Rightarrow> pageData \<Rightarrow> pageData" where
  "sessionPage sess data =
     (case sess of
        None \<Rightarrow> data\<lparr>pd_SignedIn := True\<rparr>
      | Some s \<Rightarrow> data\<lparr>pd_SignedIn := True, pd_PAMUser := s_PAMUser s,
          pd_OIDCUser := (if s_Email s = [] then s_Sub s else s_Email s)\<rparr>)"

definition hintUsername :: "string \<Rightarrow> string" where
  "hintUsername email =
     (case index_byte (CHR ''@'') email of None \<Rightarrow> [] | Some i \<Rightarrow> if i > 0 then take i email else [])"

fun login_choices :: "'w env \<Rightarrow> string list \<Rightarrow> loginChoice list" where
  "login_choices e [] = []"
| "login_choices e (name # ns) =
     (case registered e name of
        None \<Rightarrow> login_choices e ns
      | Some i \<Rightarrow>
          \<lparr>lc_Label = (if id_Label i = [] then name else id_Label i),
           lc_Href = ''/login?provider='' @ QueryEscape name\<rparr> # login_choices e ns)"

definition loginPage :: "'w env \<Rightarrow> Config \<Rightarrow> session option \<Rightarrow> pageData" where
  "loginPage e cfg sess =
     (let data = no_page\<lparr>pd_Title := ''Sign in''\<rparr>;
          data = (if sess \<noteq> None then sessionPage sess data else data)
      in if passwordLogin e cfg sess then
           data\<lparr>pd_PAMLogin := True, pd_Title := ''Log in'',
             pd_Hint := (case sess of
                 Some s \<Rightarrow> if pd_Hint data = [] then hintUsername (s_Email s) else pd_Hint data
               | None \<Rightarrow> pd_Hint data)\<rparr>
         else data\<lparr>pd_Providers := login_choices e (Providers cfg)\<rparr>)"

definition renderAt :: "string \<Rightarrow> pageData \<Rightarrow> nat \<Rightarrow> ('w, unit) web" where
  "renderAt name data status = do {
     _ \<leftarrow> emit (SetHeader ''Content-Type'' ''text/html; charset=utf-8'');
     _ \<leftarrow> (if status \<noteq> 0 \<and> status \<noteq> 200 then emit (WriteHeader status) else ret ());
     emit (Template name (if pd_Title data = [] then data\<lparr>pd_Title := ''bootstash''\<rparr> else data))
   }"

definition render :: "string \<Rightarrow> pageData \<Rightarrow> ('w, unit) web" where
  "render name data = renderAt name data 0"

definition wantsHTML :: "request \<Rightarrow> bool" where
  "wantsHTML r \<longleftrightarrow> contains (rq_Header r ''Accept'') ''text/html''"

text \<open>\<open>http.StatusText\<close> of the codes in use.\<close>

definition StatusText :: "nat \<Rightarrow> string" where
  "StatusText code =
     (if code = 400 then ''Bad Request'' else if code = 403 then ''Forbidden''
      else if code = 404 then ''Not Found'' else if code = 500 then ''Internal Server Error'' else [])"

definition replyError :: "'w env \<Rightarrow> request \<Rightarrow> nat \<Rightarrow> string \<Rightarrow> ('w, unit) web" where
  "replyError e r status msg =
     (if \<not> reads r \<and> \<not> wantsHTML r then emit (HttpError msg status)
      else if rq_Method r = m_head then do {
        _ \<leftarrow> emit (SetHeader ''Content-Type'' ''text/html; charset=utf-8'');
        emit (WriteHeader status)
      } else do {
        sess \<leftarrow> request_session e r;
        (let data = no_page\<lparr>pd_Title := StatusText status, pd_Error := msg\<rparr> in
         renderAt ''error'' (if sess \<noteq> None then sessionPage sess data else data) status)
      })"

definition loginFail :: "'w env \<Rightarrow> nat \<Rightarrow> string \<Rightarrow> ('w, unit) web" where
  "loginFail e status msg = do {
     cfg \<leftarrow> config;
     renderAt ''login'' ((loginPage e cfg None)\<lparr>pd_Error := msg\<rparr>) status
   }"

definition not_allowed :: "('w, unit) web" where
  "not_allowed = emit (HttpError ''method not allowed'' 405)"

definition handleStatic :: "'w env \<Rightarrow> string \<Rightarrow> request \<Rightarrow> ('w, unit) web" where
  "handleStatic e style r =
     (if \<not> reads r then not_allowed
      else if path_base (rq_Path r) \<noteq> ''style.css'' then replyError e r 404 ''That page is not here.''
      else do {
        _ \<leftarrow> emit (SetHeader ''Content-Type'' ''text/css; charset=utf-8'');
        emit (WriteBody style)
      })"

text \<open>
  \<open>formatSize\<close>: \<open>float64\<close> keeps 53 bits (ties to even), dividing by powers of two is exact, and
  \<open>FormatFloat\<close> with one decimal rounds the exact value, ties to even.
\<close>

definition round_even :: "nat \<Rightarrow> nat \<Rightarrow> nat" where
  "round_even a b =
     (let q = a div b; m = 2 * (a mod b)
      in if m < b \<or> (m = b \<and> even q) then q else q + 1)"

fun bits_over :: "nat \<Rightarrow> nat" where
  "bits_over n = (if n < 2 ^ 53 then 0 else Suc (bits_over (n div 2)))"

declare bits_over.simps [simp del]

definition float64 :: "nat \<Rightarrow> nat" where
  "float64 n = (let k = bits_over n in round_even n (2 ^ k) * 2 ^ k)"

fun size_unit :: "nat \<Rightarrow> nat \<Rightarrow> string list \<Rightarrow> string option" where
  "size_unit f d [] = None"
| "size_unit f d (u # us) =
     (if f < 1024 * (1024 * d) \<or> u = ''TiB'' then
        (let t = round_even (10 * f) (1024 * d);
             s = show_nat (t div 10) @ ''.'' @ show_nat (t mod 10)
         in Some (trim_suffix s ''.0'' @ '' '' @ u))
      else size_unit f (1024 * d) us)"

definition formatSize :: "nat \<Rightarrow> string" where
  "formatSize n =
     (if n < 1024 then show_nat n @ '' B''
      else (case size_unit (float64 n) 1 [''KiB'', ''MiB'', ''GiB'', ''TiB''] of
              Some s \<Rightarrow> s
            | None \<Rightarrow> show_nat n @ '' B''))"

section \<open>The cross-site check\<close>

definition checkCSRF :: "Config \<Rightarrow> request \<Rightarrow> bool" where
  "checkCSRF cfg r =
     (let want = PublicURL cfg;
          origin = trim_right (rq_Header r ''Origin'') ''/'';
          site = rq_Header r ''Sec-Fetch-Site''
      in if origin \<noteq> [] \<and> origin \<noteq> ''null'' then origin = want
         else if site = ''same-origin'' then True
         else if site = ''cross-site'' \<or> site = ''same-site'' then False
         else (let ref = rq_Header r ''Referer'' in has_prefix ref (want @ ''/'') \<or> ref = want))"

definition requireCSRF :: "'w env \<Rightarrow> request \<Rightarrow> ('w, bool) web" where
  "requireCSRF e r = do {
     cfg \<leftarrow> config;
     if checkCSRF cfg r then ret True
     else do { _ \<leftarrow> replyError e r 403 ''This request was rejected.''; ret False }
   }"

section \<open>The entry page and the answers to OpenVPN Connect\<close>

definition handleRoot :: "'w env \<Rightarrow> request \<Rightarrow> ('w, unit) web" where
  "handleRoot e r =
     (if \<not> reads r then not_allowed
      else do { path \<leftarrow> entryPath e r; emit (Redirect path 302) })"

definition ovpnWebAuth :: string where
  "ovpnWebAuth = ''bootstash,external''"

definition newline :: string where "newline = [CHR 0x0A]"

definition ovpnRestXML :: "string \<Rightarrow> string" where
  "ovpnRestXML msg =
     ''<?xml version=\"1.0\" encoding=\"UTF-8\"?>'' @ newline @
     ''<Error>'' @ newline @
     ''  <Type>Authorization Required</Type>'' @ newline @
     ''  <Synopsis>REST method failed</Synopsis>'' @ newline @
     ''  <Message>'' @ msg @ ''</Message>'' @ newline @
     ''</Error>'' @ newline"

definition maybeOvpnWebAuth :: "('w, unit) web" where
  "maybeOvpnWebAuth = do {
     cfg \<leftarrow> config;
     if DisableOvpnToken cfg then ret () else emit (SetHeader ''Ovpn-WebAuth'' ovpnWebAuth)
   }"

definition handleOpenVPNRest :: "request \<Rightarrow> ('w, unit) web" where
  "handleOpenVPNRest r =
     (if \<not> reads r then not_allowed
      else do {
        cfg \<leftarrow> config;
        _ \<leftarrow> maybeOvpnWebAuth;
        _ \<leftarrow> emit (SetHeader ''Content-Type'' ''text/xml; charset=utf-8'');
        _ \<leftarrow> emit (WriteHeader 401);
        if rq_Method r = m_head then ret ()
        else emit (WriteBody (ovpnRestXML
          (if DisableOvpnToken cfg then ''Authorization Required'' else ''Ovpn-WebAuth: '' @ ovpnWebAuth)))
      })"

definition setSecurityHeaders :: "('w, unit) web" where
  "setSecurityHeaders = do {
     _ \<leftarrow> emit (SetHeader ''X-Content-Type-Options'' ''nosniff'');
     _ \<leftarrow> emit (SetHeader ''Referrer-Policy'' ''same-origin'');
     emit (SetHeader ''Content-Security-Policy'' (''frame-ancestors '' @ [CHR 0x27] @ ''none'' @ [CHR 0x27]))
   }"

end
