(* ===== verification/Web_Cubby.thy ===== *)
theory Web_Cubby
  imports Web_Pages
begin

text \<open>
  The directories of users: \<open>home.go\<close> and the parts of \<open>auth.go\<close>, \<open>files.go\<close> and \<open>server.go\<close> that
  create them, repair their modes and groups, and find the one a session may open
  (\<open>jailPath\<close>).

  \<open>fixCubbyDirChildren\<close> descends a directory tree. Its fuel \<open>v_depth\<close> bounds the depth; the
  result \<open>False\<close> says that the bound was reached, and \<open>children_more\<close> shows that a run that
  does not reach it is the run for every larger bound.
\<close>

section \<open>Paths\<close>

definition homeDir :: "Config \<Rightarrow> string" where
  "homeDir cfg = path_join [path_clean (Data cfg), ''home'']"

definition usersDir :: "Config \<Rightarrow> string" where
  "usersDir cfg = path_join [path_clean (Data cfg), ''users'']"

definition validCubbyID :: "string \<Rightarrow> bool" where
  "validCubbyID i \<longleftrightarrow> length i = 64 \<and> list_all (\<lambda>c. in_range 48 57 c \<or> in_range 97 102 c) (runes i)"

definition unixGid :: "'w env \<Rightarrow> Config \<Rightarrow> int" where
  "unixGid e cfg = (case LookupGroupGID (v_groups e) (cfg_UnixGroup cfg) of None \<Rightarrow> - 1 | Some g \<Rightarrow> g)"

section \<open>Creating the directory of a user\<close>

datatype dir_error = DirNotExist | DirDenied | DirMkdir mkdir_error

definition ensureUserDir :: "'w env \<Rightarrow> Config \<Rightarrow> string \<Rightarrow> 'w \<Rightarrow> (dir_error + unit) \<times> 'w" where
  "ensureUserDir e cfg pamUser w =
     (let users = usersDir cfg; acct = Lookup (v_users e) pamUser in
      if \<not> ValidUsername pamUser then (Inl DirNotExist, w)
      else if Confine users (path_join [users, pamUser]) = None then (Inl DirNotExist, w)
      else if (case acct of Inl _ \<Rightarrow> False | Inr a \<Rightarrow> \<not> Linkable (Some a)) then (Inl DirDenied, w)
      else (let (uid, gid) = (case acct of
                  Inl _ \<Rightarrow> (- 1, - 1)
                | Inr a \<Rightarrow> (a_UID a, if unixGid e cfg \<ge> 0 then unixGid e cfg else a_GID a))
            in case MkdirOwner (v_kernel e) users pamUser uid gid w of (r, w1) \<Rightarrow>
               case r of
                 Inr _ \<Rightarrow> (Inr (), w1)
               | Inl (ChownErr _ _) \<Rightarrow> (Inr (), w1)
               | Inl err \<Rightarrow> (Inl (DirMkdir err), w1)))"

section \<open>Repairing modes and groups\<close>

definition cubbyModeFD :: "'w kernel \<Rightarrow> int \<Rightarrow> ('w, unit) call" where
  "cubbyModeFD k fd = Osutil.Fchmod k fd (or ModeSetgid 0x1F8)"

text \<open>The permission bits of a file in a cubby: group read, no access for others, group execute as the owner's.\<close>

definition file_mode :: "32 word \<Rightarrow> 32 word" where
  "file_mode bits =
     (let perm = and bits 0x1FF;
          want = and (or perm 0x20) (not 0x07)
      in if and perm 0x40 \<noteq> 0 then or want 0x08 else want)"

definition fixCubbyFD :: "'w kernel \<Rightarrow> int \<Rightarrow> string \<Rightarrow> string \<Rightarrow> int \<Rightarrow> 'w \<Rightarrow> unit \<times> 'w" where
  "fixCubbyFD k fd path confine gid w =
     (if Confine confine (path_clean path) = None then ((), w)
      else (case k_fstat k fd w of (sr, w1) \<Rightarrow>
        case sr of
          Inl _ \<Rightarrow> ((), w1)
        | Inr st \<Rightarrow>
            (case st_type st of
               FDir \<Rightarrow> (case cubbyModeFD k fd w1 of (_, w2) \<Rightarrow> ((), w2))
             | FReg \<Rightarrow>
                 (case (if gid \<ge> 0 then Osutil.Fchown k fd (- 1) gid w1 else (Inr (), w1)) of (_, w2) \<Rightarrow>
                  case Osutil.Fchmod k fd (file_mode (st_bits st)) w2 of (_, w3) \<Rightarrow> ((), w3))
             | _ \<Rightarrow> ((), w1))))"

definition o_child :: "bool \<Rightarrow> oflags" where
  "o_child isdir = o_rdonly\<lparr>of_directory := isdir, of_nofollow := True, of_cloexec := True\<rparr>"

text \<open>\<open>down\<close> is the recursive call on a child directory.\<close>

fun fix_entries ::
  "'w kernel \<Rightarrow> (int \<Rightarrow> string \<Rightarrow> 'w \<Rightarrow> bool \<times> 'w) \<Rightarrow> int \<Rightarrow> string \<Rightarrow> string \<Rightarrow> int \<Rightarrow> (string \<times> kstat) list \<Rightarrow> 'w \<Rightarrow> bool \<times> 'w" where
  "fix_entries k down dirfd path users gid [] w = (True, w)"
| "fix_entries k down dirfd path users gid ((name, st) # es) w =
     (let child = path_join [path, name]; isdir = st_type st = FDir in
      if \<not> is_local name \<or> Confine users child = None \<or> st_type st = FLnk
      then fix_entries k down dirfd path users gid es w
      else (case k_openat k dirfd name (o_child isdir) 0 w of (r, w1) \<Rightarrow>
        case r of
          Inl _ \<Rightarrow> fix_entries k down dirfd path users gid es w1
        | Inr fd \<Rightarrow>
            (case fixCubbyFD k fd child users gid w1 of (_, w2) \<Rightarrow>
             case (if isdir then down fd child w2 else (True, w2)) of (b1, w3) \<Rightarrow>
             case k_close k fd w3 of (_, w4) \<Rightarrow>
             case fix_entries k down dirfd path users gid es w4 of (b2, w5) \<Rightarrow> (b1 \<and> b2, w5))))"

fun fixCubbyDirChildren ::
  "nat \<Rightarrow> 'w kernel \<Rightarrow> string \<Rightarrow> int \<Rightarrow> int \<Rightarrow> string \<Rightarrow> 'w \<Rightarrow> bool \<times> 'w" where
  "fixCubbyDirChildren 0 k users gid dirfd path w = (False, w)"
| "fixCubbyDirChildren (Suc n) k users gid dirfd path w =
     (case k_dup k dirfd w of (dr, w1) \<Rightarrow>
      case dr of
        Inl _ \<Rightarrow> (True, w1)
      | Inr d \<Rightarrow>
          (case k_readdir k d w1 of (er, w2) \<Rightarrow>
           case k_close k d w2 of (_, w3) \<Rightarrow>
           case er of
             Inl _ \<Rightarrow> (True, w3)
           | Inr ents \<Rightarrow> fix_entries k (fixCubbyDirChildren n k users gid) dirfd path users gid ents w3))"

text \<open>A larger bound on the depth changes nothing once the bound is not reached.\<close>

lemma fix_entries_more:
  assumes "\<And>fd p w w'. down fd p w = (True, w') \<Longrightarrow> down' fd p w = (True, w')"
    and "fix_entries k down dirfd path users gid es w = (True, w')"
  shows "fix_entries k down' dirfd path users gid es w = (True, w')"
  using assms(2)
proof (induction es arbitrary: w)
  case (Cons x es)
  then show ?case
    using assms(1) by (cases x) (auto simp: Let_def split: prod.splits sum.splits if_splits; fastforce)
qed simp

lemma children_more:
  assumes "fixCubbyDirChildren n k users gid dirfd path w = (True, w')" "n \<le> m"
  shows "fixCubbyDirChildren m k users gid dirfd path w = (True, w')"
  using assms
proof (induction n arbitrary: m dirfd path w w')
  case (Suc n)
  obtain j where m: "m = Suc j" "n \<le> j" using Suc.prems(2) by (cases m) auto
  have step: "fixCubbyDirChildren n k users gid fd p v = (True, v') \<Longrightarrow> fixCubbyDirChildren j k users gid fd p v = (True, v')"
    for fd p v v' using Suc.IH m(2) by blast
  then show ?case
    using Suc.prems(1) m(1) by (auto split: prod.splits sum.splits intro: fix_entries_more [OF step])
qed simp

section \<open>The path about to be read\<close>

definition openDir :: "'w kernel \<Rightarrow> string \<Rightarrow> ('w, int) call" where
  "openDir k path = k_open k path (o_rdonly\<lparr>of_directory := True, of_cloexec := True\<rparr>)"

text \<open>
  The loop over the elements of \<open>rel\<close>: \<open>None\<close> when it gave up, with the descriptor closed,
  else the last descriptor and its path.
\<close>

definition give_up :: "'w kernel \<Rightarrow> int \<Rightarrow> 'w \<Rightarrow> (int \<times> string) option \<times> 'w" where
  "give_up k fd w = (case k_close k fd w of (_, w1) \<Rightarrow> (None, w1))"

fun cubby_walk ::
  "'w kernel \<Rightarrow> string \<Rightarrow> int \<Rightarrow> string list \<Rightarrow> int \<Rightarrow> string \<Rightarrow> 'w \<Rightarrow> (int \<times> string) option \<times> 'w" where
  "cubby_walk k parent gid [] fd acc w = (Some (fd, acc), w)"
| "cubby_walk k parent gid (p # ps) fd acc w =
     (if p = [] \<or> p = dot then cubby_walk k parent gid ps fd acc w
      else if \<not> is_local p then give_up k fd w
      else (let nxt = path_join [acc, p] in
        if Confine parent nxt = None then give_up k fd w
        else (case k_openat k fd p (o_child False) 0 w of (r, w1) \<Rightarrow>
          case k_close k fd w1 of (_, w2) \<Rightarrow>
          case r of
            Inl _ \<Rightarrow> (None, w2)
          | Inr nfd \<Rightarrow>
              (case fixCubbyFD k nfd nxt parent gid w2 of (_, w3) \<Rightarrow>
               cubby_walk k parent gid ps nfd nxt w3))))"

definition cubby_start ::
  "'w kernel \<Rightarrow> string \<Rightarrow> int \<Rightarrow> string \<Rightarrow> int \<Rightarrow> string \<Rightarrow> 'w \<Rightarrow> (int \<times> string) option \<times> 'w" where
  "cubby_start k parent gid rel fd cubby w =
     (if rel \<noteq> [] \<and> rel \<noteq> dot then
        (if \<not> is_local rel then give_up k fd w
         else cubby_walk k parent gid (split_sep slash rel) fd cubby w)
      else (case fixCubbyFD k fd cubby parent gid w of (_, w1) \<Rightarrow> (Some (fd, cubby), w1)))"

definition cubby_opened ::
  "'w env \<Rightarrow> string \<Rightarrow> int \<Rightarrow> string \<Rightarrow> int \<Rightarrow> string \<Rightarrow> 'w \<Rightarrow> bool \<times> 'w" where
  "cubby_opened e parent gid rel fd cubby w =
     (let k = v_kernel e in
      case cubby_start k parent gid rel fd cubby w of (r, w1) \<Rightarrow>
      case r of
        None \<Rightarrow> (True, w1)
      | Some (fd1, acc) \<Rightarrow>
          (case k_fstat k fd1 w1 of (sr, w2) \<Rightarrow>
           case (if (case sr of Inl _ \<Rightarrow> False | Inr st \<Rightarrow> st_type st = FDir)
                 then fixCubbyDirChildren (v_depth e) k parent gid fd1 acc w2
                 else (True, w2)) of (b, w3) \<Rightarrow>
           case k_close k fd1 w3 of (_, w4) \<Rightarrow> (b, w4)))"

definition prepareExistingCubby ::
  "'w env \<Rightarrow> Config \<Rightarrow> string \<Rightarrow> string \<Rightarrow> string \<Rightarrow> 'w \<Rightarrow> bool \<times> 'w" where
  "prepareExistingCubby e cfg parent name rel w =
     (let cubby = path_join [parent, name]; k = v_kernel e; gid = unixGid e cfg in
      if Confine parent cubby = None then (True, w)
      else (case v_lstat e cubby w of (sr, w1) \<Rightarrow>
        if (case sr of Inl _ \<Rightarrow> True | Inr st \<Rightarrow> st_type st \<noteq> FDir) then (True, w1)
        else (case openDir k parent w1 of (pr, w2) \<Rightarrow>
          case pr of
            Inl _ \<Rightarrow> (True, w2)
          | Inr parentfd \<Rightarrow>
              (case k_openat k parentfd name (o_child True) 0 w2 of (cr, w3) \<Rightarrow>
               case (case cr of
                       Inl _ \<Rightarrow> (True, w3)
                     | Inr fd \<Rightarrow> cubby_opened e parent gid rel fd cubby w3) of (b, w4) \<Rightarrow>
               case k_close k parentfd w4 of (_, w5) \<Rightarrow> (b, w5)))))"

definition prepareEmailCubby :: "'w env \<Rightarrow> Config \<Rightarrow> string \<Rightarrow> string \<Rightarrow> 'w \<Rightarrow> bool \<times> 'w" where
  "prepareEmailCubby e cfg i rel w =
     (if \<not> validCubbyID i then (True, w) else prepareExistingCubby e cfg (homeDir cfg) i rel w)"

definition emailCubbyOK :: "'w env \<Rightarrow> Config \<Rightarrow> string \<Rightarrow> 'w \<Rightarrow> bool \<times> 'w" where
  "emailCubbyOK e cfg i w =
     (if \<not> validCubbyID i then (False, w)
      else (case v_lstat e (path_join [homeDir cfg, i]) w of (r, w1) \<Rightarrow>
            (case r of Inl _ \<Rightarrow> False | Inr st \<Rightarrow> st_type st = FDir, w1)))"

definition prepareCubbyRead :: "'w env \<Rightarrow> Config \<Rightarrow> string \<Rightarrow> string \<Rightarrow> 'w \<Rightarrow> bool \<times> 'w" where
  "prepareCubbyRead e cfg pamUser rel w =
     (case ensureUserDir e cfg pamUser w of (r, w1) \<Rightarrow>
      case r of
        Inl _ \<Rightarrow> (True, w1)
      | Inr _ \<Rightarrow> prepareExistingCubby e cfg (usersDir cfg) pamUser rel w1)"

definition prepareSessionCubby ::
  "'w env \<Rightarrow> Config \<Rightarrow> session option \<Rightarrow> string \<Rightarrow> 'w \<Rightarrow> bool \<times> 'w" where
  "prepareSessionCubby e cfg sess rel w =
     (case sess of
        None \<Rightarrow> (True, w)
      | Some s \<Rightarrow>
          if s_PAMUser s \<noteq> [] then prepareCubbyRead e cfg (s_PAMUser s) rel w
          else (case emailHomeID e cfg sess of
                  None \<Rightarrow> (True, w)
                | Some i \<Rightarrow> prepareEmailCubby e cfg i rel w))"

section \<open>The directory a session may open\<close>

definition jailPath :: "'w env \<Rightarrow> Config \<Rightarrow> session option \<Rightarrow> 'w \<Rightarrow> string option \<times> 'w" where
  "jailPath e cfg sess w =
     (case sess of
        None \<Rightarrow> (None, w)
      | Some s \<Rightarrow>
          if s_PAMUser s \<noteq> [] then
            (if \<not> ValidUsername (s_PAMUser s) \<or> \<not> is_local (s_PAMUser s) then (None, w)
             else (Some (path_join [Data cfg, ''users'', s_PAMUser s]), w))
          else (case emailHomeID e cfg sess of
                  None \<Rightarrow> (None, w)
                | Some i \<Rightarrow>
                    (case emailCubbyOK e cfg i w of (ok, w1) \<Rightarrow>
                     if ok then (Some (path_join [Data cfg, ''home'', i]), w1) else (None, w1))))"

section \<open>Repairing every cubby\<close>

fun fix_each :: "(string \<Rightarrow> 'w \<Rightarrow> bool \<times> 'w) \<Rightarrow> string list \<Rightarrow> 'w \<Rightarrow> bool \<times> 'w" where
  "fix_each f [] w = (True, w)"
| "fix_each f (n # ns) w =
     (case f n w of (b1, w1) \<Rightarrow> case fix_each f ns w1 of (b2, w2) \<Rightarrow> (b1 \<and> b2, w2))"

definition fixEmailCubbies :: "'w env \<Rightarrow> Config \<Rightarrow> 'w \<Rightarrow> bool \<times> 'w" where
  "fixEmailCubbies e cfg w =
     (case v_readdir e (homeDir cfg) w of (r, w1) \<Rightarrow>
      case r of
        Inl _ \<Rightarrow> (True, w1)
      | Inr ents \<Rightarrow>
          fix_each (\<lambda>n. prepareExistingCubby e cfg (homeDir cfg) n [])
            (map fst (filter (\<lambda>(n, st). st_type st = FDir \<and> validCubbyID n) ents)) w1)"

definition fixUserCubby :: "'w env \<Rightarrow> Config \<Rightarrow> string \<Rightarrow> 'w \<Rightarrow> bool \<times> 'w" where
  "fixUserCubby e cfg n w =
     (case ensureUserDir e cfg n w of (r, w1) \<Rightarrow>
      case r of Inl _ \<Rightarrow> (True, w1) | Inr _ \<Rightarrow> prepareExistingCubby e cfg (usersDir cfg) n [] w1)"

text \<open>Go ranges over the set of names in an unspecified order, \<open>v_order\<close>.\<close>

definition fixCubbies :: "'w env \<Rightarrow> ('w, bool) web" where
  "fixCubbies e = do {
     cfg \<leftarrow> config;
     er \<leftarrow> sys (v_readdir e (usersDir cfg));
     pr \<leftarrow> on_store (LinkedPAMUsers (v_codec e));
     (let dirs = (case er of Inl _ \<Rightarrow> []
            | Inr ents \<Rightarrow> map fst (filter (\<lambda>(n, st). st_type st = FDir \<and> ValidUsername n) ents));
          linked = (case pr of Inl _ \<Rightarrow> [] | Inr pam \<Rightarrow> filter ValidUsername pam)
      in do {
        b1 \<leftarrow> sys (fix_each (fixUserCubby e cfg) (v_order e (remdups (dirs @ linked))));
        b2 \<leftarrow> sys (fixEmailCubbies e cfg);
        ret (b1 \<and> b2)
      })
   }"

section \<open>Starting and configuring the server\<close>

text \<open>\<open>osutil.Chmod\<close> of a path.\<close>

definition env_Chmod :: "'w env \<Rightarrow> string \<Rightarrow> 32 word \<Rightarrow> ('w, unit) call" where
  "env_Chmod e path mode w =
     (case v_lstat e path w of (sr, w1) \<Rightarrow>
      case sr of
        Inl err \<Rightarrow> (Inl err, w1)
      | Inr st \<Rightarrow> if st_bits st = UnixBits mode then (Inr (), w1) else v_chmod e path (UnixBits mode) w1)"

definition ensureLayout :: "'w env \<Rightarrow> string \<Rightarrow> ('w, unit) call" where
  "ensureLayout e data w =
     (case v_mkdirall e (path_join [data, ''users'']) 0x1C9 w of (r1, w1) \<Rightarrow>
      case r1 of Inl err \<Rightarrow> (Inl err, w1) | Inr _ \<Rightarrow>
      (case env_Chmod e (path_join [data, ''users'']) 0x1C9 w1 of (r2, w2) \<Rightarrow>
       case r2 of Inl err \<Rightarrow> (Inl err, w2) | Inr _ \<Rightarrow>
       (case v_mkdirall e (path_join [data, ''home'']) 0x1F8 w2 of (r3, w3) \<Rightarrow>
        case r3 of Inl err \<Rightarrow> (Inl err, w3) | Inr _ \<Rightarrow>
        (case env_Chmod e (path_join [data, ''home'']) (or (or ModeSetgid ModeSticky) 0x1FB) w3 of (r4, w4) \<Rightarrow>
         case r4 of Inl err \<Rightarrow> (Inl err, w4) | Inr _ \<Rightarrow>
         v_mkdirall e (path_join [data, ''state'']) 0x1C0 w4))))"

definition set_client :: "Config \<Rightarrow> 'w Identity \<Rightarrow> ('w, unit) web" where
  "set_client cfg i =
     (if id_Name i \<noteq> ProviderGoogle then ret ()
      else (case id_IDP i of
              None \<Rightarrow> ret ()
            | Some p \<Rightarrow> (case i_SetClient p of
                None \<Rightarrow> ret ()
              | Some g \<Rightarrow> sys (g (GoogleClientID cfg) (GoogleClientSecret cfg)))))"

definition SetConfig :: "'w env \<Rightarrow> Config \<Rightarrow> ('w, bool) web" where
  "SetConfig e cfg = do {
     _ \<leftarrow> modify (\<lambda>s. s\<lparr>sv_cfg := cfg\<rparr>);
     _ \<leftarrow> for_each (v_ids e) (set_client cfg);
     fixCubbies e
   }"

definition NewServer :: "'w env \<Rightarrow> Config \<Rightarrow> ('w, errno + unit) web" where
  "NewServer e cfg = do {
     r \<leftarrow> sys (ensureLayout e (Data cfg));
     case r of
       Inl err \<Rightarrow> ret (Inl err)
     | Inr _ \<Rightarrow> do {
         _ \<leftarrow> SetConfig e cfg;
         _ \<leftarrow> modify (\<lambda>s. s\<lparr>sv_manager := NewManager (cfg_UnixGroup cfg)\<rparr>);
         ret (Inr ())
       }
   }"

end
