(* ===== verification/Web_Files.thy ===== *)
theory Web_Files
  imports Web_Cubby
begin

text \<open>
  The file handlers of \<open>internal/web/files.go\<close>: downloads, listings, uploads, new directories and
  deletion, all through a jail on the directory of the session. \<open>http.ServeContent\<close> is an action
  with the name and the descriptor it sends. The random bytes of an upload are drawn before
  \<open>Replace\<close> looks for the directory.
\<close>

section \<open>Bodies\<close>

text \<open>\<open>http.MaxBytesReader\<close>: what a limit lets through, and the error when there was more.\<close>

fun max_bytes :: "int \<Rightarrow> string list \<Rightarrow> body_error option \<Rightarrow> reader" where
  "max_bytes n [] err = ([], err)"
| "max_bytes n (c # cs) err =
     (if int (length c) \<le> n then
        (case max_bytes (n - int (length c)) cs err of (ds, err') \<Rightarrow> (c # ds, err'))
      else ([take (nat n) c], Some MaxBytesError))"

definition isUploadTooLarge :: "jail_error \<Rightarrow> bool" where
  "isUploadTooLarge err \<longleftrightarrow> err = Body MaxBytesError \<or> err = Body UnexpectedEOF"

section \<open>Errors\<close>

definition jailErrKey :: "jail_error \<Rightarrow> string" where
  "jailErrKey err =
     (if is_escape err \<or> err = ErrInvalid then ''not-allowed''
      else if err = Sys EACCES \<or> err = Sys EPERM then ''denied''
      else if IsNotExist err then ''missing''
      else if err = ErrNotDir \<or> err = Sys ENOTDIR then ''not-a-folder''
      else ''failed'')"

definition jailHTTP :: "jail_error \<Rightarrow> nat \<times> string" where
  "jailHTTP err =
     (if IsNotExist err then (404, ''not found'')
      else if is_escape err \<or> err = ErrInvalid then (400, ''invalid path'')
      else if err = Sys EACCES \<or> err = Sys EPERM then (403, ''not authorized'')
      else if err = ErrNotDir \<or> err = Sys ENOTDIR then (400, ''not a directory'')
      else (403, ''forbidden''))"

definition statusFromJail :: "jail_error \<Rightarrow> ('w, unit) web" where
  "statusFromJail err = (case jailHTTP err of (code, msg) \<Rightarrow> emit (HttpError msg code))"

definition home_prefix :: string where
  "home_prefix = ''/home''"

definition listingURL :: "string \<Rightarrow> string \<Rightarrow> string" where
  "listingURL pfx rel = trim_suffix (pfx @ ''/'' @ rel) ''/'' @ ''/''"

definition parentListing :: "string \<Rightarrow> string \<Rightarrow> string" where
  "parentListing pfx rel =
     (let rel = trim_both rel ''/''; parent = path_dir rel in
      if rel = [] \<or> parent = dot \<or> parent = ''/'' then pfx @ ''/'' else listingURL pfx parent)"

definition see_other :: "string \<Rightarrow> string \<Rightarrow> ('w, unit) web" where
  "see_other key url = do { _ \<leftarrow> setNotice key; emit (Redirect url 303) }"

definition formFail :: "request \<Rightarrow> string \<Rightarrow> string \<Rightarrow> string \<Rightarrow> string \<Rightarrow> nat \<Rightarrow> ('w, unit) web" where
  "formFail r pfx rel key plain status =
     (if wantsHTML r then see_other key (listingURL pfx rel) else emit (HttpError plain status))"

definition jailFail :: "request \<Rightarrow> string \<Rightarrow> string \<Rightarrow> jail_error \<Rightarrow> ('w, unit) web" where
  "jailFail r pfx rel err =
     (if wantsHTML r then see_other (jailErrKey err) (listingURL pfx rel) else statusFromJail err)"

definition cubbyErr :: "'w env \<Rightarrow> request \<Rightarrow> string \<Rightarrow> string \<Rightarrow> jail_error \<Rightarrow> ('w, unit) web" where
  "cubbyErr e r pfx rel err =
     (if rq_Method r = m_get \<and> wantsHTML r then
        (if trim_both rel ''/'' \<noteq> [] then see_other (jailErrKey err) (parentListing pfx rel)
         else (let msg = listingErrMessage (jailErrKey err) in
               replyError e r (fst (jailHTTP err)) (if msg = [] then ''Could not open that.'' else msg)))
      else statusFromJail err)"

section \<open>The mark of a download\<close>

definition downloadNameIn :: "string \<Rightarrow> string \<Rightarrow> string" where
  "downloadNameIn listingRel fileRel =
     (let fileRel = trim_both fileRel ''/''; listingRel = trim_both listingRel ''/'';
          dir = (if path_dir fileRel = dot then [] else path_dir fileRel);
          name = path_base fileRel
      in if dir \<noteq> listingRel then []
         else if name = dot \<or> name = ''/'' \<or> name = [] then [] else name)"

definition setDownloadMark :: "string \<Rightarrow> ('w, unit) web" where
  "setDownloadMark rel0 =
     (let rel = trim_both (path_clean (''/'' @ rel0)) ''/'' in
      if rel = [] \<or> rel = dot then ret ()
      else do { cfg \<leftarrow> config; setCookie (downloadCookieName cfg) (QueryEscape rel) 60 })"

definition takeDownloadMark :: "request \<Rightarrow> string \<Rightarrow> ('w, string) web" where
  "takeDownloadMark r listingRel = do {
     cfg \<leftarrow> config;
     case Cookie r (downloadCookieName cfg) of
       None \<Rightarrow> ret []
     | Some v \<Rightarrow>
         if v = [] then ret []
         else (case QueryUnescape v of
           None \<Rightarrow> do { _ \<leftarrow> setCookie (downloadCookieName cfg) [] (- 1); ret [] }
         | Some rel \<Rightarrow>
             (let name = downloadNameIn listingRel rel in
              if name = [] then ret []
              else do { _ \<leftarrow> setCookie (downloadCookieName cfg) [] (- 1); ret name }))
   }"

section \<open>Reading\<close>

fun crumbs_of :: "string \<Rightarrow> string \<Rightarrow> string list \<Rightarrow> crumb list" where
  "crumbs_of pfx acc [] = []"
| "crumbs_of pfx acc (p # ps) =
     (if p = [] \<or> p = dot then crumbs_of pfx acc ps
      else let acc' = path_join [acc, p] in
        \<lparr>cr_Name = p, cr_Href = (if ps \<noteq> [] then pfx @ ''/'' @ acc' @ ''/'' else [])\<rparr> # crumbs_of pfx acc' ps)"

definition list_entry :: "string \<Rightarrow> string \<Rightarrow> string \<times> kstat \<Rightarrow> listEntry" where
  "list_entry base marked fi =
     (case fi of (name, st) \<Rightarrow>
      let dir = (st_type st = FDir) in
      \<lparr>le_Name = name,
       le_Href = path_join [base, name] @ (if dir then ''/'' else []),
       le_Size = formatSize (st_size st),
       le_Dir = dir,
       le_Link = (st_type st = FLnk),
       le_Mark = (\<not> dir \<and> name = marked)\<rparr>)"

definition sort_infos :: "(string \<times> kstat) list \<Rightarrow> (string \<times> kstat) list" where
  "sort_infos infos =
     (let xs = sort_key fst infos in
      filter (\<lambda>x. st_type (snd x) = FDir) xs @ filter (\<lambda>x. st_type (snd x) \<noteq> FDir) xs)"

definition serveListing :: "'w env \<Rightarrow> request \<Rightarrow> jail_root \<Rightarrow> string \<Rightarrow> string \<Rightarrow> ('w, unit) web" where
  "serveListing e r root pfx rel = do {
     d \<leftarrow> sys (ReadDirNames (v_kernel e) root rel);
     case d of
       Inl err \<Rightarrow> cubbyErr e r pfx rel err
     | Inr infos \<Rightarrow> do {
         marked \<leftarrow> takeDownloadMark r rel;
         errMsg \<leftarrow> takeNotice r;
         sess \<leftarrow> request_session e r;
         (let base = (if rel = [] then pfx else trim_suffix (pfx @ ''/'' @ rel) ''/'') in
          render ''listing'' (sessionPage sess (no_page\<lparr>
            pd_Title := (if rel \<noteq> [] then path_base rel else ''Files''),
            pd_Error := errMsg,
            pd_Crumbs := (if rel \<noteq> []
              then \<lparr>cr_Name = ''Files'', cr_Href = pfx @ ''/''\<rparr> # crumbs_of pfx [] (split_sep slash rel) else []),
            pd_Action := listingURL pfx rel,
            pd_CanWrite := True,
            pd_Entries := map (list_entry base marked) (sort_infos infos)\<rparr>)))
       }
   }"

definition close_fd :: "'w env \<Rightarrow> int \<Rightarrow> ('w, unit) web" where
  "close_fd e fd = do { _ \<leftarrow> sys (k_close (v_kernel e) fd); ret () }"

definition serveGet :: "'w env \<Rightarrow> request \<Rightarrow> jail_root \<Rightarrow> string \<Rightarrow> string \<Rightarrow> ('w, unit) web" where
  "serveGet e r root pfx rel = do {
     st \<leftarrow> sys (Stat (v_kernel e) root rel);
     case st of
       Inl err \<Rightarrow> cubbyErr e r pfx rel err
     | Inr (name, info) \<Rightarrow>
         if st_type info = FDir then
           (if rq_Method r = m_head then emit (WriteHeader 200) else serveListing e r root pfx rel)
         else do {
           f \<leftarrow> sys (Open (v_kernel e) root rel);
           case f of
             Inl err \<Rightarrow> cubbyErr e r pfx rel err
           | Inr fd \<Rightarrow>
               (let ctype = fileContentType (v_case e) (v_mime e) name;
                    disp = contentDisposition (v_case e) ctype;
                    cd = FormatFilename disp name
                in do {
                  _ \<leftarrow> emit (SetHeader ''Content-Type'' ctype);
                  _ \<leftarrow> emit (SetHeader ''Content-Disposition'' (if cd = [] then disp else cd));
                  _ \<leftarrow> (if rq_Method r = m_get \<and> wantsHTML r \<and> disp = ''attachment''
                       then setDownloadMark rel else ret ());
                  _ \<leftarrow> emit (ServeContent name fd);
                  close_fd e fd
                })
         }
   }"

section \<open>Writing\<close>

definition chownRel :: "'w env \<Rightarrow> Config \<Rightarrow> jail_root \<Rightarrow> string \<Rightarrow> string \<Rightarrow> 'w \<Rightarrow> unit \<times> 'w" where
  "chownRel e cfg root rel pamUser w =
     (case Lookup (v_users e) pamUser of
        Inl _ \<Rightarrow> ((), w)
      | Inr acct \<Rightarrow>
          if \<not> Linkable (Some acct) then ((), w)
          else (case Jail.Chown (v_kernel e) root rel (a_UID acct)
                       (if unixGid e cfg \<ge> 0 then unixGid e cfg else a_GID acct) w of (_, w1) \<Rightarrow> ((), w1)))"

definition replace_from :: "'w env \<Rightarrow> jail_root \<Rightarrow> string \<Rightarrow> reader \<Rightarrow> ('w, jail_error + unit) web" where
  "replace_from e root rel body = do {
     rnd \<leftarrow> sys (v_rand e 8);
     sys (Replace (v_kernel e) root rel 0x1B0 rnd (fst body) (snd body))
   }"

definition servePut :: "'w env \<Rightarrow> request \<Rightarrow> jail_root \<Rightarrow> string \<Rightarrow> session \<Rightarrow> ('w, unit) web" where
  "servePut e r root rel sess =
     (if rel = [] \<or> has_suffix (rq_Path r) ''/'' then emit (HttpError ''path required'' 400)
      else do {
        cfg \<leftarrow> config;
        res \<leftarrow> replace_from e root rel (max_bytes (MaxUpload cfg) (fst (rq_Body r)) (snd (rq_Body r)));
        case res of
          Inl err \<Rightarrow>
            if isUploadTooLarge err then emit (HttpError ''upload failed'' 413) else statusFromJail err
        | Inr _ \<Rightarrow> do {
            _ \<leftarrow> sys (chownRel e cfg root rel (s_PAMUser sess));
            emit (WriteHeader 201)
          }
      })"

text \<open>The name of a form: its last element, refused when it is no name.\<close>

definition entryName :: "string \<Rightarrow> string option" where
  "entryName name =
     (let n = path_base name in if n = dot \<or> n = dotdot \<or> n = [] then None else Some n)"

definition mkdir_chown :: "'w env \<Rightarrow> jail_root \<Rightarrow> string \<Rightarrow> session \<Rightarrow> ('w, jail_error + unit) web" where
  "mkdir_chown e root rel sess = do {
     cfg \<leftarrow> config;
     m \<leftarrow> sys (Mkdir (v_kernel e) root rel 0x1F8);
     case m of
       Inl err \<Rightarrow> ret (Inl err)
     | Inr _ \<Rightarrow> do { _ \<leftarrow> sys (chownRel e cfg root rel (s_PAMUser sess)); ret (Inr ()) }
   }"

definition doMkdir ::
  "'w env \<Rightarrow> request \<Rightarrow> jail_root \<Rightarrow> string \<Rightarrow> string \<Rightarrow> string \<Rightarrow> session \<Rightarrow> ('w, unit) web" where
  "doMkdir e r root pfx rel name sess =
     (if name = [] then
        (let base = path_base (trim_suffix rel ''/'') in
         if rel = [] \<or> base = dot \<or> base = ''/'' then formFail r pfx rel ''need-name'' ''name required'' 400
         else do {
           m \<leftarrow> mkdir_chown e root rel sess;
           case m of Inl err \<Rightarrow> jailFail r pfx rel err | Inr _ \<Rightarrow> emit (WriteHeader 201)
         })
      else (case entryName name of
          None \<Rightarrow> formFail r pfx rel ''bad-name'' ''invalid name'' 400
        | Some n \<Rightarrow> do {
            m \<leftarrow> mkdir_chown e root (path_join [rel, n]) sess;
            case m of Inl err \<Rightarrow> jailFail r pfx rel err | Inr _ \<Rightarrow> emit (Redirect (listingURL pfx rel) 303)
          }))"

definition serveDelete :: "'w env \<Rightarrow> jail_root \<Rightarrow> string \<Rightarrow> string \<Rightarrow> ('w, unit) web" where
  "serveDelete e root rel0 redirect =
     (let rel = trim_both rel0 ''/'' in
      if rel = [] \<or> rel = dot then emit (HttpError ''cannot delete tree root'' 400)
      else do {
        d \<leftarrow> sys (Remove (v_kernel e) root rel);
        case d of
          Inl err \<Rightarrow>
            if err = ErrNotEmpty then
              (if redirect \<noteq> [] then see_other ''not-empty'' redirect
               else emit (HttpError ''directory not empty'' 409))
            else if redirect \<noteq> [] then see_other (jailErrKey err) redirect
            else statusFromJail err
        | Inr _ \<Rightarrow> if redirect \<noteq> [] then emit (Redirect redirect 303) else emit (WriteHeader 204)
      })"

definition doDeleteForm :: "'w env \<Rightarrow> request \<Rightarrow> jail_root \<Rightarrow> string \<Rightarrow> string \<Rightarrow> string \<Rightarrow> ('w, unit) web" where
  "doDeleteForm e r root pfx rel name =
     (case entryName name of
        None \<Rightarrow> formFail r pfx rel ''bad-name'' ''invalid name'' 400
      | Some n \<Rightarrow> serveDelete e root (path_join [rel, n]) (listingURL pfx rel))"

definition post_upload ::
  "'w env \<Rightarrow> request \<Rightarrow> jail_root \<Rightarrow> string \<Rightarrow> string \<Rightarrow> session \<Rightarrow> multipart \<Rightarrow> ('w, unit) web" where
  "post_upload e r root pfx rel sess mp =
     (case mp_File mp of
        None \<Rightarrow> formFail r pfx rel ''need-file'' ''file required'' 400
      | Some (filename, body) \<Rightarrow>
          (case entryName (if mp_Form mp ''name'' \<noteq> [] then mp_Form mp ''name'' else filename) of
             None \<Rightarrow> formFail r pfx rel ''bad-name'' ''invalid name'' 400
           | Some n \<Rightarrow> do {
               res \<leftarrow> replace_from e root (path_join [rel, n]) body;
               case res of
                 Inl err \<Rightarrow>
                   if isUploadTooLarge err then formFail r pfx rel ''too-large'' ''upload failed'' 413
                   else jailFail r pfx rel err
               | Inr _ \<Rightarrow> do {
                   cfg \<leftarrow> config;
                   _ \<leftarrow> sys (chownRel e cfg root (path_join [rel, n]) (s_PAMUser sess));
                   emit (Redirect (listingURL pfx rel) 303)
                 }
             }))"

definition servePost ::
  "'w env \<Rightarrow> request \<Rightarrow> jail_root \<Rightarrow> string \<Rightarrow> string \<Rightarrow> session \<Rightarrow> ('w, unit) web" where
  "servePost e r root pfx rel sess =
     (let mkdir = (query r ''mkdir'' \<noteq> []) in
      if has_prefix (rq_Header r ''Content-Type'') ''multipart/form-data'' then do {
        cfg \<leftarrow> config;
        case rq_Multipart r (MaxUpload cfg + 4096) of
          None \<Rightarrow> formFail r pfx rel ''too-large'' ''upload too large'' 413
        | Some mp \<Rightarrow>
            if mp_Form mp ''delete'' \<noteq> [] then doDeleteForm e r root pfx rel (mp_Form mp ''name'')
            else if mkdir \<or> mp_Form mp ''mkdir'' \<noteq> [] then doMkdir e r root pfx rel (mp_Form mp ''name'') sess
            else post_upload e r root pfx rel sess mp
      }
      else if rq_Form r ''delete'' \<noteq> [] then doDeleteForm e r root pfx rel (rq_Form r ''name'')
      else if mkdir \<or> rq_Form r ''mkdir'' \<noteq> [] then doMkdir e r root pfx rel (rq_Form r ''name'') sess
      else replyError e r 400 ''That request was not understood.'')"

section \<open>The handler\<close>

definition close_root :: "'w kernel \<Rightarrow> jail_root \<Rightarrow> 'w \<Rightarrow> unit \<times> 'w" where
  "close_root k root w = (case CloseRoot k root w of (_, _, w1) \<Rightarrow> ((), w1))"

text \<open>A change behind the cross-site check.\<close>

definition guarded :: "'w env \<Rightarrow> request \<Rightarrow> ('w, unit) web \<Rightarrow> ('w, unit) web" where
  "guarded e r change = do { ok \<leftarrow> requireCSRF e r; if ok then change else ret () }"

definition files_method ::
  "'w env \<Rightarrow> request \<Rightarrow> jail_root \<Rightarrow> string \<Rightarrow> session \<Rightarrow> ('w, unit) web" where
  "files_method e r root rel sess =
     (if reads r then serveGet e r root home_prefix rel
      else if rq_Method r = m_put then guarded e r (servePut e r root rel sess)
      else if rq_Method r = m_post then guarded e r (servePost e r root home_prefix rel sess)
      else if rq_Method r = m_delete then guarded e r (serveDelete e root rel [])
      else not_allowed)"

definition no_files :: string where
  "no_files = ''Could not open your files.''"

definition serve_files :: "'w env \<Rightarrow> request \<Rightarrow> session \<Rightarrow> string \<Rightarrow> ('w, unit) web" where
  "serve_files e r sess rel = do {
     cfg \<leftarrow> config;
     _ \<leftarrow> (if reads r then do { _ \<leftarrow> sys (prepareSessionCubby e cfg (Some sess) rel); ret () } else ret ());
     p \<leftarrow> sys (jailPath e cfg (Some sess));
     case p of
       None \<Rightarrow> replyError e r 404 no_files
     | Some rootPath \<Rightarrow> do {
         o1 \<leftarrow> sys (OpenRoot (v_kernel e) rootPath);
         case o1 of
           Inl _ \<Rightarrow> replyError e r 404 no_files
         | Inr root \<Rightarrow> do {
             _ \<leftarrow> files_method e r root rel sess;
             sys (close_root (v_kernel e) root)
           }
       }
   }"

definition handleFiles :: "'w env \<Rightarrow> request \<Rightarrow> ('w, unit) web" where
  "handleFiles e r = do {
     sess \<leftarrow> request_session e r;
     cfg \<leftarrow> config;
     case sess of
       Some s \<Rightarrow>
         if sessionHasCubby e cfg sess then
           (if rq_Path r = home_prefix then emit (Redirect (home_prefix @ ''/'') 302)
            else serve_files e r s (trim_prefix (rq_Path r) (home_prefix @ ''/'')))
         else if reads r then emit (Redirect ''/login'' 302)
         else emit (HttpError ''login required'' 401)
     | None \<Rightarrow>
         if reads r then emit (Redirect ''/login'' 302)
         else emit (HttpError ''login required'' 401)
   }"

end
