(* ===== verification/Web_Auth.thy ===== *)
theory Web_Auth
  imports Web_Cubby
begin

text \<open>
  Signing in and out: \<open>gateIdentity\<close> of \<open>home.go\<close> and the handlers of \<open>auth.go\<close>. The password
  form ends in \<open>acceptLocalUser\<close>, the sign-in with a provider in \<open>gateIdentity\<close>.
\<close>

section \<open>Which identities may sign in\<close>

datatype gate_error = ErrLoginDenied | GateStore store_error

definition gateIdentity :: "'w env \<Rightarrow> oidc_identity option \<Rightarrow> ('w, gate_error + unit) web" where
  "gateIdentity e ident =
     (case ident of
        None \<Rightarrow> ret (Inl ErrLoginDenied)
      | Some i \<Rightarrow> do {
          cfg \<leftarrow> config;
          (let email = NormalizeEmail (v_case e) (id_Email i) in
           if length (AllowedEmails cfg) > 0 then
             (case email of
                None \<Rightarrow> ret (Inl ErrLoginDenied)
              | Some m \<Rightarrow>
                  if \<not> id_EmailVerified i \<or> \<not> AllowsEmail (v_case e) cfg m then ret (Inl ErrLoginDenied)
                  else do {
                    b \<leftarrow> on_store (BindSubject (v_codec e) m (id_Issuer i) (id_Subject i));
                    case b of
                      Inl err \<Rightarrow> ret (Inl (if err = ErrSubjectMismatch then ErrLoginDenied else GateStore err))
                    | Inr _ \<Rightarrow> ret (Inr ())
                  })
           else if PAM cfg then ret (Inr ())
           else do {
             l \<leftarrow> on_store (LookupLink (v_codec e) (id_Issuer i) (id_Subject i));
             case l of
               Inl err \<Rightarrow> ret (Inl (GateStore err))
             | Inr pam \<Rightarrow>
                 if (case pam of None \<Rightarrow> False | Some u \<Rightarrow> u \<noteq> []) then ret (Inr ())
                 else if \<not> id_EmailVerified i \<or> email = None then ret (Inl ErrLoginDenied)
                 else ret (Inr ())
           })
        })"

section \<open>The password form\<close>

datatype accept_error = NoAuthenticator | AcceptDenied | UnknownUser

definition acceptLocalUser :: "'w env \<Rightarrow> string \<Rightarrow> string \<Rightarrow> 'w \<Rightarrow> (accept_error + account) \<times> 'w" where
  "acceptLocalUser e user pass w =
     (case v_auth e of
        None \<Rightarrow> (Inl NoAuthenticator, w)
      | Some auth \<Rightarrow>
          (case auth user pass w of (r, w1) \<Rightarrow>
           case r of
             Some _ \<Rightarrow> (Inl AcceptDenied, w1)
           | None \<Rightarrow>
               (case Lookup (v_users e) user of
                  Inl _ \<Rightarrow> (Inl UnknownUser, w1)
                | Inr acct \<Rightarrow> if \<not> Linkable (Some acct) then (Inl AcceptDenied, w1) else (Inr acct, w1))))"

definition something_wrong :: string where
  "something_wrong = ''Something went wrong.''"

definition login_refused :: "'w env \<Rightarrow> session option \<Rightarrow> string \<Rightarrow> accept_error \<Rightarrow> ('w, unit) web" where
  "login_refused e sess user err =
     (if err = NoAuthenticator then loginFail e 500 something_wrong
      else do {
        cfg \<leftarrow> config;
        render ''login'' ((loginPage e cfg sess)\<lparr>
          pd_Error := (if err = UnknownUser then ''unknown local user'' else ''username or password not accepted''),
          pd_Hint := user\<rparr>)
      })"

definition login_done :: "request \<Rightarrow> session \<Rightarrow> ('w, unit) web" where
  "login_done r out = do {
     _ \<leftarrow> setSessionCookie out;
     dest \<leftarrow> afterLogin r True;
     emit (Redirect dest 302)
   }"

definition login_accepted :: "'w env \<Rightarrow> request \<Rightarrow> session option \<Rightarrow> account \<Rightarrow> ('w, unit) web" where
  "login_accepted e r sess acct = do {
     cfg \<leftarrow> config;
     _ \<leftarrow> sys (ensureUserDir e cfg (a_Name acct));
     (case sess of
        None \<Rightarrow> do {
          rnd \<leftarrow> sys (v_rand e 32);
          now \<leftarrow> sys (v_now e);
          c \<leftarrow> on_store (CreatePAMSession (v_codec e) (a_Name acct) sessionTTL rnd now);
          case c of
            Inl _ \<Rightarrow> loginFail e 500 something_wrong
          | Inr created \<Rightarrow> login_done r created
        }
      | Some s \<Rightarrow> do {
          rnd \<leftarrow> sys (v_rand e 32);
          c \<leftarrow> on_store (SaveLinkedSession (v_codec e) s (a_Name acct) rnd);
          case fst c of
            Inl _ \<Rightarrow> replyError e r 500 something_wrong
          | Inr _ \<Rightarrow> login_done r (snd c)
        })
   }"

definition handleLoginPost :: "'w env \<Rightarrow> request \<Rightarrow> ('w, unit) web" where
  "handleLoginPost e r = do {
     sess \<leftarrow> request_session e r;
     cfg \<leftarrow> config;
     if \<not> passwordLogin e cfg sess then not_allowed
     else do {
       ok \<leftarrow> requireCSRF e r;
       if \<not> ok then ret ()
       else do {
         (let user = go_trim_space (rq_Form r ''username'') in do {
            a \<leftarrow> sys (acceptLocalUser e user (rq_Form r ''password''));
            case a of
              Inl err \<Rightarrow> login_refused e sess user err
            | Inr acct \<Rightarrow> login_accepted e r sess acct
          })
       }
     }
   }"

section \<open>Signing in with a provider\<close>

definition login_start :: "'w env \<Rightarrow> string \<Rightarrow> 'w idp \<Rightarrow> string \<Rightarrow> string \<Rightarrow> ('w, unit) web" where
  "login_start e name idp nonce txID = do {
     cfg \<leftarrow> config;
     now \<leftarrow> sys (v_now e);
     a \<leftarrow> sys (i_AuthCodeURL idp (signState (v_mac e) (v_key e) nonce now) nonce (redirectURI cfg));
     case a of
       None \<Rightarrow> loginFail e 502 ''Sign-in is unavailable. Try again.''
     | Some (u, verifier) \<Rightarrow> do {
         start \<leftarrow> sys (v_now e);
         now2 \<leftarrow> sys (v_now e);
         p \<leftarrow> on_oauth (putOauthTx txID name nonce verifier (start + oauthTTL) now2);
         case p of
           Inl _ \<Rightarrow> loginFail e 503 ''Too many sign-in attempts. Try again.''
         | Inr _ \<Rightarrow> do {
             _ \<leftarrow> setCookie (oauthCookieName cfg) txID (15 * 60);
             emit (Redirect u 302)
           }
       }
   }"

definition handleLoginGet :: "'w env \<Rightarrow> request \<Rightarrow> ('w, unit) web" where
  "handleLoginGet e r = do {
     sess \<leftarrow> request_session e r;
     cfg \<leftarrow> config;
     if sess \<noteq> None \<and> sessionHasCubby e cfg sess then emit (Redirect ''/home/'' 302)
     else (let name = query r ''provider'' in
       if name = [] \<or> passwordLogin e cfg sess then
         (if name \<noteq> [] then emit (Redirect ''/login'' 302)
          else render ''login'' (loginPage e cfg sess))
       else (case activeIDP e cfg name of
           None \<Rightarrow> emit (Redirect ''/login'' 302)
         | Some idp \<Rightarrow> do {
             r1 \<leftarrow> sys (v_rand e 16);
             case randomHex r1 of
               None \<Rightarrow> loginFail e 500 something_wrong
             | Some nonce \<Rightarrow> do {
                 r2 \<leftarrow> sys (v_rand e 32);
                 case randomHex r2 of
                   None \<Rightarrow> loginFail e 500 something_wrong
                 | Some txID \<Rightarrow> login_start e name idp nonce txID
               }
           }))
   }"

definition handleLogin :: "'w env \<Rightarrow> request \<Rightarrow> ('w, unit) web" where
  "handleLogin e r =
     (if rq_Method r = m_get then handleLoginGet e r
      else if rq_Method r = m_post then handleLoginPost e r
      else not_allowed)"

definition expired :: string where
  "expired = ''Sign-in expired. Try again.''"

text \<open>After the gate: the session under the normalized address, if it has one.\<close>

definition callback_session :: "'w env \<Rightarrow> request \<Rightarrow> oidc_identity \<Rightarrow> ('w, unit) web" where
  "callback_session e r i = do {
     (let email = (case NormalizeEmail (v_case e) (id_Email i) of Some n \<Rightarrow> n | None \<Rightarrow> id_Email i) in do {
        rnd \<leftarrow> sys (v_rand e 32);
        now \<leftarrow> sys (v_now e);
        c \<leftarrow> on_store (CreateSession (v_codec e) (id_Issuer i) (id_Subject i) email sessionTTL rnd now);
        case c of
          Inl _ \<Rightarrow> loginFail e 500 something_wrong
        | Inr sess \<Rightarrow> do {
            _ \<leftarrow> setSessionCookie sess;
            cfg \<leftarrow> config;
            dest \<leftarrow> afterLogin r (sessionHasCubby e cfg (Some sess));
            emit (Redirect dest 302)
          }
      })
   }"

text \<open>
  The identity the provider vouches for passes the gate. Logging a refused identity reads its
  address, which panics for a nil pointer.
\<close>

definition callback_gate :: "'w env \<Rightarrow> request \<Rightarrow> oidc_identity option \<Rightarrow> ('w, unit) web" where
  "callback_gate e r ident = do {
     g \<leftarrow> gateIdentity e ident;
     case g of
       Inl ErrLoginDenied \<Rightarrow>
         if ident = None then emit Panic
         else loginFail e 403 ''This account is not allowed to sign in.''
     | Inl (GateStore _) \<Rightarrow> loginFail e 500 something_wrong
     | Inr _ \<Rightarrow> (case ident of None \<Rightarrow> emit Panic | Some i \<Rightarrow> callback_session e r i)
   }"

definition callback_exchange :: "'w env \<Rightarrow> request \<Rightarrow> string \<Rightarrow> string \<Rightarrow> string \<Rightarrow> ('w, unit) web" where
  "callback_exchange e r nonce provider verifier = do {
     cfg \<leftarrow> config;
     _ \<leftarrow> setCookie (oauthCookieName cfg) [] (- 1);
     case activeIDP e cfg provider of
       None \<Rightarrow> loginFail e 400 expired
     | Some idp \<Rightarrow> do {
         x \<leftarrow> sys (i_Exchange idp (query r ''code'') nonce (redirectURI cfg) verifier);
         case x of
           None \<Rightarrow> loginFail e 400 ''Sign-in failed. Try again.''
         | Some ident \<Rightarrow> callback_gate e r ident
       }
   }"

definition handleCallback :: "'w env \<Rightarrow> request \<Rightarrow> ('w, unit) web" where
  "handleCallback e r =
     (if rq_Method r \<noteq> m_get then not_allowed
      else if query r ''error'' \<noteq> [] then loginFail e 400 ''Sign-in was cancelled or failed.''
      else do {
        cfg \<leftarrow> config;
        (let c = Cookie r (oauthCookieName cfg) in
         if c = None \<or> c = Some [] then loginFail e 400 expired
         else do {
           now \<leftarrow> sys (v_now e);
           case verifyState (v_mac e) (v_key e) (query r ''state'') now of
             Inl _ \<Rightarrow> loginFail e 400 expired
           | Inr nonce \<Rightarrow> do {
               now2 \<leftarrow> sys (v_now e);
               t \<leftarrow> on_oauth (takeOauthTx (case c of Some v \<Rightarrow> v | None \<Rightarrow> []) now2);
               case t of
                 Inl _ \<Rightarrow> loginFail e 400 expired
               | Inr (got, provider, verifier) \<Rightarrow>
                   if got \<noteq> nonce then loginFail e 400 expired
                   else callback_exchange e r nonce provider verifier
             }
         })
      })"

section \<open>Signing out\<close>

definition handleLogout :: "'w env \<Rightarrow> request \<Rightarrow> ('w, unit) web" where
  "handleLogout e r =
     (if rq_Method r \<noteq> m_post then emit (Redirect ''/'' 302)
      else do {
        ok \<leftarrow> requireCSRF e r;
        if \<not> ok then ret ()
        else do {
          sess \<leftarrow> request_session e r;
          _ \<leftarrow> (case sess of
              None \<Rightarrow> ret ()
            | Some s \<Rightarrow> do { _ \<leftarrow> on_store (DeleteSession (s_ID s)); ret () });
          _ \<leftarrow> clearSessionCookie;
          emit (Redirect ''/login'' 302)
        }
      })"

end
