(* ===== verification/Web_Ovpn.thy ===== *)
theory Web_Ovpn
  imports Web_Files Web_Auth
begin

text \<open>
  OpenVPN profiles (\<open>files.go\<close> and \<open>server.go\<close>): finding the profiles of a cubby, naming them,
  handing one to a browser or to OpenVPN Connect, and serving a capability ticket. Last,
  \<open>ServeHTTP\<close>, which sends a request to its handler.

  The import page with its embedded \<open>encoding/json\<close> payload is the action \<open>Template\<close> on the
  profile and its title.
\<close>

section \<open>Names\<close>

definition ovpnCleanLabel :: "string \<Rightarrow> string" where
  "ovpnCleanLabel s = map_runes (\<lambda>r.
     if in_range 97 122 r \<or> in_range 65 90 r \<or> in_range 48 57 r then r
     else if r = 32 \<or> r = 46 \<or> r = 95 \<or> r = 45 then r else 95) s"

definition ovpnFileLabel :: "string \<Rightarrow> string" where
  "ovpnFileLabel rel =
     (let name = ovpnCleanLabel (trim_suffix rel (path_ext rel)) in if name = [] then ''profile'' else name)"

fun remote_host :: "string list \<Rightarrow> string" where
  "remote_host [] = []"
| "remote_host (raw # ls) =
     (let line = go_trim_space raw; fs = fields_func is_space line in
      if line = [] \<or> has_prefix line ''#'' \<or> has_prefix line '';'' then remote_host ls
      else if length fs \<ge> 2 \<and> equal_fold_const (fs ! 0) ''remote'' then ovpnCleanLabel (fs ! 1)
      else remote_host ls)"

definition ovpnRemoteHost :: "string \<Rightarrow> string" where
  "ovpnRemoteHost body = remote_host (split_sep (CHR 0x0A) body)"

definition ovpnDisplayName :: "string \<Rightarrow> string \<Rightarrow> string" where
  "ovpnDisplayName rel body =
     (let name = ovpnFileLabel rel; host = ovpnRemoteHost body in
      if host = [] \<or> host = name then name else host @ '' ['' @ name @ '']'')"

definition title_lines :: "string \<Rightarrow> string" where
  "title_lines title =
     ''# OVPN_ACCESS_SERVER_FRIENDLY_NAME='' @ title @ newline @
     ''# OVPN_ACCESS_SERVER_PROFILE='' @ title @ newline @
     ''setenv FRIENDLY_NAME '' @ [CHR 34] @ title @ [CHR 34] @ newline"

definition ovpnTitledProfile :: "string \<Rightarrow> string \<Rightarrow> string" where
  "ovpnTitledProfile rel body =
     (if contains body ''OVPN_ACCESS_SERVER_FRIENDLY_NAME='' \<or> contains body ''setenv FRIENDLY_NAME'' then body
      else title_lines (ovpnDisplayName rel body) @ body)"

definition ovpnProfileDownloadURI :: "request \<Rightarrow> string \<Rightarrow> string" where
  "ovpnProfileDownloadURI r rel =
     (let q1 = values_set ''download'' ''1'' (rq_Query r);
          q2 = values_del ''token'' (values_del ''embedded'' q1);
          q3 = (if rel \<noteq> [] then values_set ''profile'' rel q2 else values_del ''profile'' q2);
          path = (if rq_Path r = [] then ''/openvpn-api/profile'' else rq_Path r)
      in path @ ''?'' @ values_encode q3)"

section \<open>The profiles of a cubby\<close>

text \<open>\<open>down\<close> walks a child directory; depth and count limits are those of the code.\<close>

fun ovpn_entries ::
  "(string \<Rightarrow> string list \<Rightarrow> 'w \<Rightarrow> string list \<times> 'w) \<Rightarrow> string \<Rightarrow> (string \<times> kstat) list \<Rightarrow> string list \<Rightarrow> 'w \<Rightarrow> string list \<times> 'w" where
  "ovpn_entries down rel [] out w = (out, w)"
| "ovpn_entries down rel ((name, st) # es) out w =
     (let child = (if rel \<noteq> [] then path_join [rel, name] else name) in
      if st_type st = FLnk then ovpn_entries down rel es out w
      else if st_type st = FDir then
        (case down child out w of (out1, w1) \<Rightarrow> ovpn_entries down rel es out1 w1)
      else ovpn_entries down rel es
        (if equal_fold_const (path_ext name) ''.ovpn'' then out @ [child] else out) w)"

text \<open>\<open>levels\<close> is how many levels are left: the code stops at depth 5.\<close>

fun ovpn_walk ::
  "nat \<Rightarrow> 'w kernel \<Rightarrow> jail_root \<Rightarrow> string \<Rightarrow> string list \<Rightarrow> 'w \<Rightarrow> string list \<times> 'w" where
  "ovpn_walk 0 k root rel out w = (out, w)"
| "ovpn_walk (Suc levels) k root rel out w =
     (if length out \<ge> 32 then (out, w)
      else (case ReadDirNames k root rel w of (r, w1) \<Rightarrow>
        case r of
          Inl _ \<Rightarrow> (out, w1)
        | Inr infos \<Rightarrow> ovpn_entries (ovpn_walk levels k root) rel infos out w1))"

definition collectOvpn :: "'w kernel \<Rightarrow> jail_root \<Rightarrow> 'w \<Rightarrow> string list \<times> 'w" where
  "collectOvpn k root = ovpn_walk 5 k root [] []"

definition pickOvpn :: "string list \<Rightarrow> string" where
  "pickOvpn paths =
     (case paths of
        [p] \<Rightarrow> p
      | _ \<Rightarrow> (case filter (\<lambda>p. equal_fold_const (path_base p) ''client.ovpn'') paths of [c] \<Rightarrow> c | _ \<Rightarrow> []))"

definition requestedOvpn :: "string list \<Rightarrow> string \<Rightarrow> string" where
  "requestedOvpn found want =
     (if want = [] then pickOvpn found
      else if path_clean want \<in> set found then path_clean want else [])"

section \<open>Switching tickets off\<close>

definition ovpnTokenSentinel :: string where
  "ovpnTokenSentinel = ''.bootstash-no-ovpn-token''"

definition pam_session :: "string \<Rightarrow> session" where
  "pam_session pam = empty_session\<lparr>s_PAMUser := pam\<rparr>"

text \<open>The directory the sentinel is looked for: \<open>Inl b\<close> decides without one.\<close>

definition sentinel_dir :: "'w env \<Rightarrow> Config \<Rightarrow> string \<Rightarrow> string \<Rightarrow> 'w \<Rightarrow> (bool + string) \<times> 'w" where
  "sentinel_dir e cfg pam homeID w =
     (if pam \<noteq> [] \<and> ValidUsername pam then
        (case jailPath e cfg (Some (pam_session pam)) w of (p, w1) \<Rightarrow>
         (case p of None \<Rightarrow> Inl True | Some d \<Rightarrow> Inr d, w1))
      else (case emailCubbyOK e cfg homeID w of (ok, w1) \<Rightarrow>
        (if ok then Inr (path_join [Data cfg, ''home'', homeID]) else Inl False, w1)))"

definition ovpnTokensOff :: "'w env \<Rightarrow> Config \<Rightarrow> string \<Rightarrow> string \<Rightarrow> 'w \<Rightarrow> bool \<times> 'w" where
  "ovpnTokensOff e cfg pam homeID w =
     (if DisableOvpnToken cfg then (True, w)
      else (case sentinel_dir e cfg pam homeID w of (d, w1) \<Rightarrow>
        case d of
          Inl b \<Rightarrow> (b, w1)
        | Inr rootPath \<Rightarrow>
            (case OpenRoot (v_kernel e) rootPath w1 of (ro, w2) \<Rightarrow>
             case ro of
               Inl _ \<Rightarrow> (True, w2)
             | Inr root \<Rightarrow>
                 (case Stat (v_kernel e) root ovpnTokenSentinel w2 of (st, w3) \<Rightarrow>
                  case close_root (v_kernel e) root w3 of (_, w4) \<Rightarrow>
                  (case st of Inl err \<Rightarrow> \<not> IsNotExist err | Inr (_, info) \<Rightarrow> st_type info = FReg, w4)))))"

section \<open>Sending a profile\<close>

definition ovpnImportMax :: nat where
  "ovpnImportMax = 2 ^ 20"

text \<open>The directory of a profile, prepared for reading.\<close>

definition attachment_dir :: "'w env \<Rightarrow> Config \<Rightarrow> string \<Rightarrow> string \<Rightarrow> string \<Rightarrow> 'w \<Rightarrow> string option \<times> 'w" where
  "attachment_dir e cfg pam homeID rel w =
     (if pam \<noteq> [] then
        (if \<not> ValidUsername pam then (None, w)
         else (case prepareCubbyRead e cfg pam rel w of (_, w1) \<Rightarrow> jailPath e cfg (Some (pam_session pam)) w1))
      else (case emailCubbyOK e cfg homeID w of (ok, w1) \<Rightarrow>
        if ok then (case prepareEmailCubby e cfg homeID rel w1 of (_, w2) \<Rightarrow>
                      (Some (path_join [Data cfg, ''home'', homeID]), w2))
        else (None, w1)))"

text \<open>The bytes of the profile, at most one megabyte, with the jail closed again.\<close>

definition read_profile :: "'w env \<Rightarrow> jail_root \<Rightarrow> string \<Rightarrow> 'w \<Rightarrow> string option \<times> 'w" where
  "read_profile e root rel w =
     (case Open (v_kernel e) root rel w of (fr, w1) \<Rightarrow>
      case fr of
        Inl _ \<Rightarrow> (None, w1)
      | Inr fd \<Rightarrow>
          (case v_read e fd (ovpnImportMax + 1) w1 of (b, w2) \<Rightarrow>
           case k_close (v_kernel e) fd w2 of (_, w3) \<Rightarrow>
           (case b of Inl _ \<Rightarrow> None | Inr body \<Rightarrow> if length body > ovpnImportMax then None else Some body, w3)))"

definition attachment_body :: "'w env \<Rightarrow> string \<Rightarrow> string \<Rightarrow> 'w \<Rightarrow> string option \<times> 'w" where
  "attachment_body e rootPath rel w =
     (case OpenRoot (v_kernel e) rootPath w of (ro, w1) \<Rightarrow>
      case ro of
        Inl _ \<Rightarrow> (None, w1)
      | Inr root \<Rightarrow>
          (case Stat (v_kernel e) root rel w1 of (st, w2) \<Rightarrow>
           case (case st of
                   Inl _ \<Rightarrow> (None, w2)
                 | Inr (_, info) \<Rightarrow>
                     if st_type info = FDir then (None, w2) else read_profile e root rel w2) of (b, w3) \<Rightarrow>
           case close_root (v_kernel e) root w3 of (_, w4) \<Rightarrow> (b, w4)))"

definition find_attachment ::
  "'w env \<Rightarrow> Config \<Rightarrow> string \<Rightarrow> string \<Rightarrow> string \<Rightarrow> 'w \<Rightarrow> string option \<times> 'w" where
  "find_attachment e cfg pam homeID rel w =
     (if rel = [] \<or> \<not> is_local rel then (None, w)
      else (case attachment_dir e cfg pam homeID rel w of (p, w1) \<Rightarrow>
        case p of None \<Rightarrow> (None, w1) | Some rootPath \<Rightarrow> attachment_body e rootPath rel w1))"

text \<open>The result tells whether the profile was sent.\<close>

definition writeOvpnAttachment ::
  "'w env \<Rightarrow> request \<Rightarrow> string \<Rightarrow> string \<Rightarrow> string \<Rightarrow> ('w, bool) web" where
  "writeOvpnAttachment e r pam homeID rel = do {
     cfg \<leftarrow> config;
     b \<leftarrow> sys (find_attachment e cfg pam homeID rel);
     case b of
       None \<Rightarrow> ret False
     | Some body \<Rightarrow>
         (let out = ovpnTitledProfile rel body; cd = FormatFilename ''attachment'' (path_base rel) in do {
            _ \<leftarrow> emit (SetHeader ''Content-Type'' ovpnProfileType);
            _ \<leftarrow> emit (SetHeader ''Content-Disposition'' (if cd = [] then ''attachment'' else cd));
            _ \<leftarrow> emit (SetHeader ''Content-Length'' (show_nat (length out)));
            _ \<leftarrow> (if rq_Method r = m_head then emit (WriteHeader 200) else emit (WriteBody out));
            ret True
          })
   }"

section \<open>Tickets\<close>

text \<open>The minting session still reaches the same cubby.\<close>

definition ovpnTicketSessionOK :: "'w env \<Rightarrow> ovpnTicket \<Rightarrow> ('w, bool) web" where
  "ovpnTicketSessionOK e t = do {
     now \<leftarrow> sys (v_now e);
     g \<leftarrow> on_store (GetSession (v_codec e) (t_sid t) now);
     ret (case g of
            Inl _ \<Rightarrow> False
          | Inr sess \<Rightarrow>
              if t_pam t \<noteq> [] then s_PAMUser sess \<noteq> [] \<and> s_PAMUser sess = t_pam t
              else t_iss t \<noteq> [] \<and> s_Iss sess = t_iss t \<and> s_Sub sess = t_sub t)
   }"

definition http_not_found :: "('w, unit) web" where
  "http_not_found = emit (HttpError ''404 page not found'' 404)"

definition ticket_profile :: "'w env \<Rightarrow> request \<Rightarrow> ovpnTicket \<Rightarrow> ('w, unit) web" where
  "ticket_profile e r t = do {
     cfg \<leftarrow> config;
     off \<leftarrow> sys (ovpnTokensOff e cfg (t_pam t) (t_homeID t));
     if off then http_not_found
     else do {
       ok \<leftarrow> writeOvpnAttachment e r (t_pam t) (t_homeID t) (t_rel t);
       if ok then ret () else http_not_found
     }
   }"

definition serveOpenVPNTicket :: "'w env \<Rightarrow> request \<Rightarrow> string \<Rightarrow> ('w, unit) web" where
  "serveOpenVPNTicket e r i = do {
     now \<leftarrow> sys (v_now e);
     t \<leftarrow> on_tickets (peekOvpnTicket i now);
     case t of
       None \<Rightarrow> http_not_found
     | Some t1 \<Rightarrow> do {
         ok \<leftarrow> ovpnTicketSessionOK e t1;
         if \<not> ok then do {
           _ \<leftarrow> on_tickets (\<lambda>m. ((), dropOvpnTicket i m));
           http_not_found
         }
         else if rq_Method r = m_head then ticket_profile e r t1
         else do {
           now2 \<leftarrow> sys (v_now e);
           t2 \<leftarrow> on_tickets (takeOvpnTicket i now2);
           case t2 of None \<Rightarrow> http_not_found | Some t3 \<Rightarrow> ticket_profile e r t3
         }
       }
   }"

definition tryOvpnImport :: "'w env \<Rightarrow> Config \<Rightarrow> session \<Rightarrow> string \<Rightarrow> ('w, string) web" where
  "tryOvpnImport e cfg sess rel =
     (let home = emailHomeID e cfg (Some sess) in
      if s_PAMUser sess = [] \<and> home = None then ret []
      else do {
        rnd \<leftarrow> sys (v_rand e 16);
        now \<leftarrow> sys (v_now e);
        m \<leftarrow> on_tickets (mintOvpnTicket \<lparr>t_pam = s_PAMUser sess,
            t_homeID = (if s_PAMUser sess = [] then (case home of Some h \<Rightarrow> h | None \<Rightarrow> []) else []),
            t_iss = s_Iss sess, t_sub = s_Sub sess, t_rel = rel, t_sid = s_ID sess, t_exp = 0, t_left = 0\<rparr> rnd now);
        ret (case m of
               Inl _ \<Rightarrow> []
             | Inr i \<Rightarrow> ''openvpn://import-profile/'' @ PublicURL cfg @ ''/openvpn-api/profile?token='' @ i)
      })"

section \<open>The page that hands over a profile\<close>

fun ovpn_choices ::
  "'w env \<Rightarrow> Config \<Rightarrow> request \<Rightarrow> session \<Rightarrow> bool \<Rightarrow> string list \<Rightarrow> ('w, ovpnChoice list) web" where
  "ovpn_choices e cfg r sess tokens [] = ret []"
| "ovpn_choices e cfg r sess tokens (p # ps) =
     (if tokens then do {
        imp \<leftarrow> tryOvpnImport e cfg sess p;
        rest \<leftarrow> ovpn_choices e cfg r sess tokens ps;
        ret (if imp = [] then rest
             else \<lparr>oc_Name = p, oc_Import = imp, oc_Download = ovpnProfileDownloadURI r p\<rparr> # rest)
      } else do {
        rest \<leftarrow> ovpn_choices e cfg r sess tokens ps;
        ret (\<lparr>oc_Name = p, oc_Import = [], oc_Download = ovpnProfileDownloadURI r p\<rparr> # rest)
      })"

definition home_id :: "'w env \<Rightarrow> Config \<Rightarrow> session \<Rightarrow> string" where
  "home_id e cfg sess = (case emailHomeID e cfg (Some sess) of None \<Rightarrow> [] | Some h \<Rightarrow> h)"

definition renderOvpnHandoff ::
  "'w env \<Rightarrow> request \<Rightarrow> session \<Rightarrow> string list \<Rightarrow> string \<Rightarrow> ('w, unit) web" where
  "renderOvpnHandoff e r sess found rel = do {
     cfg \<leftarrow> config;
     off \<leftarrow> sys (ovpnTokensOff e cfg (s_PAMUser sess) (home_id e cfg sess));
     (let tokens = (\<not> off);
          data = (sessionPage (Some sess) (no_page\<lparr>pd_Title := ''OpenVPN''\<rparr>))\<lparr>pd_OvpnToken := tokens\<rparr>
      in if rel \<noteq> [] then do {
           imp \<leftarrow> (if tokens then tryOvpnImport e cfg sess rel else ret []);
           render ''ovpn'' (data\<lparr>pd_File := path_base rel,
             pd_Download := ovpnProfileDownloadURI r rel, pd_Import := imp\<rparr>)
         } else do {
           choices \<leftarrow> ovpn_choices e cfg r sess tokens (sort found);
           render ''ovpn'' (data\<lparr>pd_Choices := choices\<rparr>)
         })
   }"

section \<open>Serving a profile to a session\<close>

definition embedded_page :: "'w env \<Rightarrow> request \<Rightarrow> jail_root \<Rightarrow> string \<Rightarrow> ('w, unit) web" where
  "embedded_page e r root rel =
     (if rel = [] then emit (Redirect ''/home/'' 302)
      else do {
        f \<leftarrow> sys (Open (v_kernel e) root rel);
        case f of
          Inl _ \<Rightarrow> emit (Redirect ''/home/'' 302)
        | Inr fd \<Rightarrow> do {
            b \<leftarrow> sys (v_read e fd (ovpnImportMax + 1));
            _ \<leftarrow> (case b of
                Inl _ \<Rightarrow> replyError e r 500 something_wrong
              | Inr body \<Rightarrow>
                  if length body > ovpnImportMax then replyError e r 500 something_wrong
                  else do {
                    _ \<leftarrow> emit (SetHeader ''Content-Type'' ''text/html; charset=utf-8'');
                    emit (Template ''import'' (no_page\<lparr>pd_Import := ovpnTitledProfile rel body,
                      pd_Title := ovpnDisplayName rel body\<rparr>))
                  });
            close_fd e fd
          }
      })"

definition profile_method ::
  "'w env \<Rightarrow> request \<Rightarrow> session \<Rightarrow> jail_root \<Rightarrow> ('w, unit) web" where
  "profile_method e r sess root = do {
     cfg \<leftarrow> config;
     found \<leftarrow> sys (collectOvpn (v_kernel e) root);
     (let rel = requestedOvpn found (query r ''profile'') in
      if query r ''embedded'' = ''true'' then embedded_page e r root rel
      else if wantsHTML r \<and> query r ''download'' \<noteq> ''1'' then renderOvpnHandoff e r sess found rel
      else if rel = [] then emit (Redirect ''/home/'' 302)
      else do {
        ok \<leftarrow> writeOvpnAttachment e r (s_PAMUser sess) (home_id e cfg sess) rel;
        if ok then ret () else emit (Redirect ''/home/'' 302)
      })
   }"

definition serveOpenVPNProfile :: "'w env \<Rightarrow> request \<Rightarrow> ('w, unit) web" where
  "serveOpenVPNProfile e r = do {
     sess \<leftarrow> request_session e r;
     cfg \<leftarrow> config;
     case sess of
       None \<Rightarrow> emit (Redirect ''/login'' 302)
     | Some s \<Rightarrow>
         if \<not> sessionHasCubby e cfg sess then emit (Redirect ''/login'' 302)
         else do {
           _ \<leftarrow> sys (prepareSessionCubby e cfg sess []);
           p \<leftarrow> sys (jailPath e cfg sess);
           case p of
             None \<Rightarrow> replyError e r 404 no_files
           | Some rootPath \<Rightarrow> do {
               o1 \<leftarrow> sys (OpenRoot (v_kernel e) rootPath);
               case o1 of
                 Inl _ \<Rightarrow> replyError e r 404 no_files
               | Inr root \<Rightarrow> do {
                   _ \<leftarrow> profile_method e r s root;
                   sys (close_root (v_kernel e) root)
                 }
             }
         }
   }"

definition handleOpenVPNProfile :: "'w env \<Rightarrow> request \<Rightarrow> ('w, unit) web" where
  "handleOpenVPNProfile e r =
     (if \<not> reads r then not_allowed
      else if query r ''token'' \<noteq> [] then serveOpenVPNTicket e r (query r ''token'')
      else do {
        _ \<leftarrow> maybeOvpnWebAuth;
        sess \<leftarrow> request_session e r;
        if rq_Method r = m_head then emit (WriteHeader 200)
        else do {
          loc \<leftarrow> entryPath e r;
          cfg \<leftarrow> config;
          if loc = ''/login'' then do {
            _ \<leftarrow> setOvpnImport;
            render ''login'' (loginPage e cfg sess)
          } else do {
            _ \<leftarrow> clearOvpnImport;
            serveOpenVPNProfile e r
          }
        }
      })"

section \<open>Routing\<close>

definition route :: "'w env \<Rightarrow> string \<Rightarrow> request \<Rightarrow> ('w, unit) web" where
  "route e style r =
     (let path = rq_Path r in
      if path = ''/'' then handleRoot e r
      else if path = ''/login'' then handleLogin e r
      else if path = ''/oidc/callback'' then handleCallback e r
      else if path = ''/logout'' then handleLogout e r
      else if has_prefix path home_prefix then handleFiles e r
      else if path = ''/openvpn-api/profile'' then handleOpenVPNProfile e r
      else if path = ''/rest/GetUserlogin'' \<or> path = ''/rest/GetAutologin'' then handleOpenVPNRest r
      else if has_prefix path ''/static/'' then handleStatic e style r
      else replyError e r 404 ''That page is not here.'')"

definition ServeHTTP :: "'w env \<Rightarrow> string \<Rightarrow> request \<Rightarrow> ('w, unit) web" where
  "ServeHTTP e style r = do { _ \<leftarrow> setSecurityHeaders; route e style r }"

end
