(* ===== verification/Web_Logic.thy ===== *)
theory Web_Logic
  imports Web_Ovpn Go_Utf8
begin

text \<open>
  How statements about handlers are proved. \<open>wtriple\<close> is a Hoare triple of the state monad and
  \<open>preserves P\<close> an invariant of a program. The locale \<open>web_inv\<close> states what an invariant needs of the
  single steps; \<open>ServeHTTP_preserves\<close>, proved once, says that then every request keeps it.
\<close>

section \<open>Triples of the state monad\<close>

definition wtriple :: "('s \<Rightarrow> bool) \<Rightarrow> ('s, 'a) state \<Rightarrow> ('a \<Rightarrow> 's \<Rightarrow> bool) \<Rightarrow> bool" where
  "wtriple P m Q \<longleftrightarrow> triple P (run_state m) Q"

lemma wtripleD: "wtriple P m Q \<Longrightarrow> P s \<Longrightarrow> run_state m s = (a, s') \<Longrightarrow> Q a s'"
  unfolding wtriple_def by (rule tripleD)

lemma wtripleI: "(\<And>s a s'. P s \<Longrightarrow> run_state m s = (a, s') \<Longrightarrow> Q a s') \<Longrightarrow> wtriple P m Q"
  by (auto simp: wtriple_def triple_def)

lemma wt_bind: "wtriple P m Q \<Longrightarrow> (\<And>a. wtriple (Q a) (f a) R) \<Longrightarrow> wtriple P (State_Monad.bind m f) R"
  unfolding wtriple_def triple_def by (fastforce split: prod.splits)

lemma wt_ret: "(\<And>s. P s \<Longrightarrow> Q a s) \<Longrightarrow> wtriple P (ret a) Q"
  by (simp add: wtriple_def triple_def)

lemma wt_conseq:
  "wtriple P m Q \<Longrightarrow> (\<And>s. P' s \<Longrightarrow> P s) \<Longrightarrow> (\<And>a s. Q a s \<Longrightarrow> Q' a s) \<Longrightarrow> wtriple P' m Q'"
  unfolding wtriple_def by (rule triple_conseq)

lemma wt_pure: "(b \<Longrightarrow> wtriple P m Q) \<Longrightarrow> wtriple (\<lambda>s. b \<and> P s) m Q"
  unfolding wtriple_def by (rule triple_pure)

lemma wt_if:
  "(b \<Longrightarrow> wtriple P m Q) \<Longrightarrow> (\<not> b \<Longrightarrow> wtriple P n Q) \<Longrightarrow> wtriple P (if b then m else n) Q"
  by simp

lemma wt_option:
  "(x = None \<Longrightarrow> wtriple P m Q) \<Longrightarrow> (\<And>a. x = Some a \<Longrightarrow> wtriple P (f a) Q) \<Longrightarrow>
   wtriple P (case x of None \<Rightarrow> m | Some a \<Rightarrow> f a) Q"
  by (cases x) simp_all

lemma wt_sum:
  "(\<And>a. x = Inl a \<Longrightarrow> wtriple P (f a) Q) \<Longrightarrow> (\<And>b. x = Inr b \<Longrightarrow> wtriple P (g b) Q) \<Longrightarrow>
   wtriple P (case x of Inl a \<Rightarrow> f a | Inr b \<Rightarrow> g b) Q"
  by (cases x) simp_all

lemma wt_prod: "(\<And>a b. x = (a, b) \<Longrightarrow> wtriple P (f a b) Q) \<Longrightarrow> wtriple P (case x of (a, b) \<Rightarrow> f a b) Q"
  by (cases x) simp

lemma wt_gets: "wtriple P (gets f) (\<lambda>_. P)"
  by (simp add: wtriple_def triple_def gets_def)

lemma wt_sys: "triple (\<lambda>w. P w) f Q \<Longrightarrow> wtriple (\<lambda>s. P (sv_world s)) (sys f) (\<lambda>a s. Q a (sv_world s))"
  unfolding wtriple_def triple_def sys_def by (fastforce split: prod.splits)

section \<open>Invariants\<close>

definition preserves :: "('s \<Rightarrow> bool) \<Rightarrow> ('s, 'a) state \<Rightarrow> bool" where
  "preserves P m \<longleftrightarrow> wtriple P m (\<lambda>_. P)"

lemma preservesD: "preserves P m \<Longrightarrow> P s \<Longrightarrow> P (snd (run_state m s))"
  by (cases "run_state m s") (auto simp: preserves_def dest: wtripleD)

lemma preserves_bind: "preserves P m \<Longrightarrow> (\<And>a. preserves P (f a)) \<Longrightarrow> preserves P (State_Monad.bind m f)"
  unfolding preserves_def by (rule wt_bind)

lemma preserves_ret: "preserves P (ret a)"
  unfolding preserves_def by (rule wt_ret)

lemma preserves_gets: "preserves P (gets f)"
  by (simp add: preserves_def wtriple_def triple_def gets_def)

lemma preserves_if: "(b \<Longrightarrow> preserves P m) \<Longrightarrow> (\<not> b \<Longrightarrow> preserves P n) \<Longrightarrow> preserves P (if b then m else n)"
  by simp

lemma preserves_option:
  "(x = None \<Longrightarrow> preserves P m) \<Longrightarrow> (\<And>a. x = Some a \<Longrightarrow> preserves P (f a)) \<Longrightarrow>
   preserves P (case x of None \<Rightarrow> m | Some a \<Rightarrow> f a)"
  by (cases x) simp_all

lemma preserves_sum:
  "(\<And>a. x = Inl a \<Longrightarrow> preserves P (f a)) \<Longrightarrow> (\<And>b. x = Inr b \<Longrightarrow> preserves P (g b)) \<Longrightarrow>
   preserves P (case x of Inl a \<Rightarrow> f a | Inr b \<Rightarrow> g b)"
  by (cases x) simp_all

lemma preserves_prod: "(\<And>a b. x = (a, b) \<Longrightarrow> preserves P (f a b)) \<Longrightarrow> preserves P (case x of (a, b) \<Rightarrow> f a b)"
  by (cases x) simp

lemma preserves_gate:
  "(x = ErrLoginDenied \<Longrightarrow> preserves P m) \<Longrightarrow> (\<And>a. x = GateStore a \<Longrightarrow> preserves P (f a)) \<Longrightarrow>
   preserves P (case x of ErrLoginDenied \<Rightarrow> m | GateStore a \<Rightarrow> f a)"
  by (cases x) simp_all

lemma preserves_Let: "(\<And>x. x = t \<Longrightarrow> preserves P (f x)) \<Longrightarrow> preserves P (Let t f)"
  by simp

lemma preserves_for_each: "(\<And>x. preserves P (f x)) \<Longrightarrow> preserves P (for_each xs f)"
  by (induction xs) (auto intro: preserves_ret preserves_bind)

text \<open>Binding a call keeps the fact that the value is one it can return.\<close>

lemma preserves_sys_bind:
  assumes "preserves P (sys g)" "\<And>a w. fst (g w) = a \<Longrightarrow> preserves P (f a)"
  shows "preserves P (State_Monad.bind (sys g) f)"
proof -
  have "wtriple P (sys g) (\<lambda>a s. (\<exists>w. fst (g w) = a) \<and> P s)"
  proof (rule wtripleI)
    fix s a s' assume s: "P s" "run_state (sys g) s = (a, s')"
    then have "fst (g (sv_world s)) = a" by (auto simp: sys_def split: prod.splits)
    with wtripleD [OF assms(1) [unfolded preserves_def] s] show "(\<exists>w. fst (g w) = a) \<and> P s'" by blast
  qed
  then show ?thesis
    unfolding preserves_def by (rule wt_bind) (rule wt_pure, use assms(2) preserves_def in blast)
qed

lemma preserves_value_bind:
  assumes "wtriple P m (\<lambda>a s. V a \<and> P s)" "\<And>a. V a \<Longrightarrow> preserves P (f a)"
  shows "preserves P (State_Monad.bind m f)"
  unfolding preserves_def by (rule wt_bind [OF assms(1)]) (rule wt_pure, use assms(2) preserves_def in blast)

lemmas preserves_cases = preserves_if preserves_option preserves_sum preserves_prod preserves_gate preserves_Let preserves_ret preserves_gets

section \<open>Responses that are in order\<close>

text \<open>The paths of this server a response may send the browser to.\<close>

definition local_path :: "string \<Rightarrow> bool" where
  "local_path u \<longleftrightarrow> u = ''/'' \<or> u = ''/login'' \<or> u = ''/openvpn-api/profile'' \<or> has_prefix u ''/home/''"

definition provider_url :: "'w env \<Rightarrow> string \<Rightarrow> bool" where
  "provider_url e u \<longleftrightarrow> (\<exists>i \<in> set (v_ids e). \<exists>p. id_IDP i = Some p \<and>
     (\<exists>st nonce uri w v. fst (i_AuthCodeURL p st nonce uri w) = Some (u, v)))"

definition cookie_ok :: "Config \<Rightarrow> http_cookie \<Rightarrow> bool" where
  "cookie_ok cfg ck \<longleftrightarrow> ck_HttpOnly ck \<and> ck_SameSiteLax ck \<and> ck_Path ck = ''/'' \<and> ck_Secure ck = https cfg \<and>
     (has_prefix (ck_Name ck) ''__Host-'' \<longrightarrow> ck_Secure ck)"

fun action_ok :: "'w env \<Rightarrow> Config \<Rightarrow> action \<Rightarrow> bool" where
  "action_ok e cfg (Redirect u code) = (local_path u \<or> provider_url e u)"
| "action_ok e cfg (SetCookie ck) = cookie_ok cfg ck"
| "action_ok e cfg (SetHeader k v) = (k \<noteq> ''Content-Type'' \<longrightarrow> header_safe v)"
| "action_ok e cfg _ = True"

lemma local_path_simps [simp]:
  "local_path ''/''" "local_path ''/login''" "local_path ''/openvpn-api/profile''" "local_path ''/home/''"
  by (simp_all add: local_path_def has_prefix_def)

lemma local_listing [simp]: "local_path (listingURL home_prefix rel)"
proof -
  have "\<exists>y. trim_suffix (''/home/'' @ x) ''/'' @ ''/'' = ''/home/'' @ y" for x
    by (cases x rule: rev_cases) (auto simp: trim_suffix_def has_suffix_def)
  then obtain y where "trim_suffix (''/home/'' @ rel) ''/'' @ ''/'' = ''/home/'' @ y" by blast
  then have "listingURL home_prefix rel = ''/home/'' @ y" by (simp add: listingURL_def home_prefix_def)
  then show ?thesis by (simp add: local_path_def has_prefix_def)
qed

lemma local_parent [simp]: "local_path (parentListing home_prefix rel)"
  using local_listing local_path_simps(4) by (simp add: parentListing_def Let_def home_prefix_def)

lemma cookie_names:
  "has_prefix (cookieName cfg) ''__Host-'' \<longrightarrow> https cfg"
  "has_prefix (ovpnImportCookieName cfg) ''__Host-'' \<longrightarrow> https cfg"
  "has_prefix (noticeCookieName cfg) ''__Host-'' \<longrightarrow> https cfg"
  "has_prefix (downloadCookieName cfg) ''__Host-'' \<longrightarrow> https cfg"
  "has_prefix (oauthCookieName cfg) ''__Host-'' \<longrightarrow> https cfg"
  by (simp_all add: cookieName_def ovpnImportCookieName_def noticeCookieName_def downloadCookieName_def
      oauthCookieName_def hostCookie_def https_def has_prefix_def)

end
