(* ===== verification/Web_Invariant.thy ===== *)
theory Web_Invariant
  imports Web_Logic
begin

text \<open>
  The interface of an invariant of the server. \<open>P\<close> is the invariant, \<open>U\<close> the Unix users a request
  may be given, \<open>V\<close> what holds of a session read from the store and \<open>G\<close> of an identity a provider
  vouches for. The assumptions are about single calls; the lemmas follow the handlers.
\<close>

locale web_inv =
  fixes e :: "'w env" and cfg :: Config and P :: "'w srv \<Rightarrow> bool"
    and U :: "string \<Rightarrow> bool" and V :: "session \<Rightarrow> bool" and G :: "oidc_identity \<Rightarrow> bool"
  assumes cfg_P: "P s \<Longrightarrow> sv_cfg s = cfg"
    and world_P: "P s \<Longrightarrow> P (s\<lparr>sv_world := w\<rparr>)"
    and oauth_P: "P s \<Longrightarrow> P (s\<lparr>sv_oauth := m\<rparr>)"
    and tickets_P: "P s \<Longrightarrow> P (s\<lparr>sv_tickets := tm\<rparr>)"
    and emit_P: "P s \<Longrightarrow> action_ok e cfg a \<Longrightarrow> P (s\<lparr>sv_out := sv_out s @ [a]\<rparr>)"
    and get_P: "P s \<Longrightarrow> GetSession (v_codec e) i now (sv_store s) = (r, d) \<Longrightarrow>
      (\<forall>t. r = Inr t \<longrightarrow> V t) \<and> P (s\<lparr>sv_store := d\<rparr>)"
    and delete_P: "P s \<Longrightarrow> DeleteSession i (sv_store s) = (ru, d) \<Longrightarrow> P (s\<lparr>sv_store := d\<rparr>)"
    and lookup_P: "P s \<Longrightarrow> LookupLink (v_codec e) iss sub (sv_store s) = (rl, d) \<Longrightarrow> P (s\<lparr>sv_store := d\<rparr>)"
    and bind_P: "P s \<Longrightarrow> G ident \<Longrightarrow> NormalizeEmail (v_case e) (id_Email ident) = Some email \<Longrightarrow>
      BindSubject (v_codec e) email (id_Issuer ident) (id_Subject ident) (sv_store s) = (ru, d) \<Longrightarrow>
      P (s\<lparr>sv_store := d\<rparr>)"
    and create_P: "P s \<Longrightarrow> G ident \<Longrightarrow>
      CreateSession (v_codec e) (id_Issuer ident) (id_Subject ident)
        (case NormalizeEmail (v_case e) (id_Email ident) of Some n \<Rightarrow> n | None \<Rightarrow> id_Email ident)
        ttl rnd now (sv_store s) = (r, d) \<Longrightarrow> P (s\<lparr>sv_store := d\<rparr>)"
    and create_pam_P: "P s \<Longrightarrow> U u \<Longrightarrow>
      CreatePAMSession (v_codec e) u ttl rnd now (sv_store s) = (r, d) \<Longrightarrow> P (s\<lparr>sv_store := d\<rparr>)"
    and save_linked_P: "P s \<Longrightarrow> V t \<Longrightarrow> U u \<Longrightarrow>
      SaveLinkedSession (v_codec e) t u rnd (sv_store s) = (rs, d) \<Longrightarrow> P (s\<lparr>sv_store := d\<rparr>)"
    and exchange_G: "ii \<in> set (v_ids e) \<Longrightarrow> id_IDP ii = Some p \<Longrightarrow>
      fst (i_Exchange p code nonce uri verifier w) = Some (Some ident) \<Longrightarrow> G ident"
begin

section \<open>Single calls\<close>

lemma sys_preserves: "preserves P (sys f)"
  unfolding preserves_def by (rule wtripleI) (auto simp: sys_def world_P split: prod.splits)

lemmas sys_bind = preserves_sys_bind [OF sys_preserves]

lemma config_bind: "preserves P (f cfg) \<Longrightarrow> preserves P (State_Monad.bind config f)"
  using cfg_P by (auto simp: preserves_def wtriple_def triple_def gets_def)

lemma emit_preserves: "action_ok e cfg a \<Longrightarrow> preserves P (emit a)"
  unfolding preserves_def by (rule wtripleI) (auto simp: emit_def modify_def emit_P)

lemma oauth_preserves: "preserves P (on_oauth f)"
  unfolding preserves_def by (rule wtripleI) (auto simp: on_oauth_def oauth_P split: prod.splits)

lemma tickets_preserves: "preserves P (on_tickets f)"
  unfolding preserves_def by (rule wtripleI) (auto simp: on_tickets_def tickets_P split: prod.splits)

lemma store_preserves:
  assumes "\<And>s a d. P s \<Longrightarrow> f (sv_store s) = (a, d) \<Longrightarrow> P (s\<lparr>sv_store := d\<rparr>)"
  shows "preserves P (on_store f)"
  unfolding preserves_def by (rule wtripleI) (use assms in \<open>auto simp: on_store_def split: prod.splits\<close>)

lemma get_bind:
  assumes "\<And>r. (\<And>t. r = Inr t \<Longrightarrow> V t) \<Longrightarrow> preserves P (f r)"
  shows "preserves P (State_Monad.bind (on_store (GetSession (v_codec e) i now)) f)"
proof (rule preserves_value_bind)
  show "wtriple P (on_store (GetSession (v_codec e) i now)) (\<lambda>r s. (\<forall>t. r = Inr t \<longrightarrow> V t) \<and> P s)"
    by (rule wtripleI) (auto simp: on_store_def dest: get_P split: prod.splits)
qed (use assms in blast)

lemma delete_preserves: "preserves P (on_store (DeleteSession i))"
  by (rule store_preserves) (rule delete_P)

lemma lookup_preserves: "preserves P (on_store (LookupLink (v_codec e) iss sub))"
  by (rule store_preserves) (rule lookup_P)

lemma bind_preserves:
  "G ident \<Longrightarrow> NormalizeEmail (v_case e) (id_Email ident) = Some email \<Longrightarrow>
   preserves P (on_store (BindSubject (v_codec e) email (id_Issuer ident) (id_Subject ident)))"
  by (rule store_preserves) (rule bind_P)

lemma create_preserves:
  "G ident \<Longrightarrow> email = (case NormalizeEmail (v_case e) (id_Email ident) of Some n \<Rightarrow> n | None \<Rightarrow> id_Email ident) \<Longrightarrow>
   preserves P (on_store (CreateSession (v_codec e) (id_Issuer ident) (id_Subject ident) email ttl rnd now))"
  by (rule store_preserves) (simp add: create_P)

lemma create_pam_preserves: "U u \<Longrightarrow> preserves P (on_store (CreatePAMSession (v_codec e) u ttl rnd now))"
  by (rule store_preserves) (rule create_pam_P)

lemma save_linked_preserves: "V t \<Longrightarrow> U u \<Longrightarrow> preserves P (on_store (SaveLinkedSession (v_codec e) t u rnd))"
  by (rule store_preserves) (rule save_linked_P)

section \<open>Shared pages\<close>

lemma setCookie_preserves:
  "has_prefix name ''__Host-'' \<longrightarrow> https cfg \<Longrightarrow> preserves P (setCookie name v age)"
  unfolding setCookie_def by (rule config_bind, rule emit_preserves) (simp add: cookie_ok_def)

lemmas calls = emit_preserves oauth_preserves tickets_preserves sys_preserves delete_preserves lookup_preserves
  setCookie_preserves

lemma cookie_preserves:
  "preserves P (setSessionCookie t)" "preserves P clearSessionCookie" "preserves P setOvpnImport"
  "preserves P clearOvpnImport" "preserves P (setNotice key)" "preserves P maybeOvpnWebAuth"
  "preserves P (takeNotice r)"
  unfolding setSessionCookie_def clearSessionCookie_def setOvpnImport_def clearOvpnImport_def setNotice_def
    maybeOvpnWebAuth_def takeNotice_def ovpnWebAuth_def
  by (rule config_bind preserves_bind preserves_cases calls | simp add: cookie_names cookie_ok_def byte_of_def)+

lemma afterLogin_bind:
  assumes "\<And>u. local_path u \<Longrightarrow> preserves P (f u)"
  shows "preserves P (State_Monad.bind (afterLogin r linked) f)"
proof (rule preserves_value_bind)
  show "wtriple P (afterLogin r linked) (\<lambda>u s. local_path u \<and> P s)"
    unfolding afterLogin_def
    by (rule wt_bind [OF wt_gets], rule wt_ret) (auto simp: local_path_def has_prefix_def)
qed (rule assms)

lemma session_value: "wtriple P (request_session e r) (\<lambda>so s. (\<forall>t. so = Some t \<longrightarrow> V t) \<and> P s)"
proof -
  have now: "wtriple P (sys (v_now e)) (\<lambda>_. P)" using sys_preserves by (simp add: preserves_def)
  have get: "wtriple P (on_store (GetSession (v_codec e) v now)) (\<lambda>r s. (\<forall>t. r = Inr t \<longrightarrow> V t) \<and> P s)" for v now
    by (rule wtripleI) (auto simp: on_store_def dest: get_P split: prod.splits)
  show ?thesis
    unfolding request_session_def
    by (rule wt_bind [OF wt_gets] wt_option wt_if wt_bind [OF now] wt_bind [OF get] wt_pure wt_sum wt_ret | simp)+
qed

lemma session_bind:
  "(\<And>so. (\<And>t. so = Some t \<Longrightarrow> V t) \<Longrightarrow> preserves P (f so)) \<Longrightarrow>
   preserves P (State_Monad.bind (request_session e r) f)"
  by (rule preserves_value_bind [OF session_value]) blast

lemma entryPath_bind:
  assumes "\<And>u. local_path u \<Longrightarrow> preserves P (f u)"
  shows "preserves P (State_Monad.bind (entryPath e r) f)"
proof (rule preserves_value_bind)
  show "wtriple P (entryPath e r) (\<lambda>u s. local_path u \<and> P s)"
    unfolding entryPath_def
    by (rule wt_bind [OF session_value], rule wt_pure, rule wt_bind [OF wt_gets], rule wt_ret) simp
qed (rule assms)

lemmas steps = config_bind session_bind afterLogin_bind entryPath_bind get_bind sys_bind preserves_bind preserves_cases
  calls cookie_preserves

lemma render_preserves:
  "preserves P (renderAt name data status)" "preserves P (render name data)"
  unfolding render_def renderAt_def by (rule steps | simp)+

lemma reply_preserves: "preserves P (replyError e r status msg)" "preserves P (loginFail e status msg)"
    "preserves P not_allowed" "preserves P http_not_found"
  unfolding replyError_def loginFail_def not_allowed_def http_not_found_def
  by (rule steps render_preserves | simp)+

lemma requireCSRF_bind:
  assumes "\<And>ok. (ok \<Longrightarrow> checkCSRF cfg r) \<Longrightarrow> preserves P (f ok)"
  shows "preserves P (State_Monad.bind (requireCSRF e r) f)"
proof (rule preserves_value_bind)
  have cfg: "wtriple P config (\<lambda>c s. c = cfg \<and> P s)"
    using cfg_P by (auto simp: wtriple_def triple_def gets_def)
  have rep: "wtriple P (replyError e r 403 msg) (\<lambda>_. P)" for msg
    using reply_preserves(1) by (simp add: preserves_def)
  show "wtriple P (requireCSRF e r) (\<lambda>ok s. (ok \<longrightarrow> checkCSRF cfg r) \<and> P s)"
    unfolding requireCSRF_def
    by (rule wt_bind [OF cfg] wt_pure wt_if wt_bind [OF rep] wt_ret | simp)+
qed (use assms in blast)

lemmas web_steps = config_bind session_bind afterLogin_bind entryPath_bind requireCSRF_bind get_bind sys_bind
  render_preserves reply_preserves preserves_bind preserves_cases calls cookie_preserves

end

end
