(* ===== verification/Web_Handlers.thy ===== *)
theory Web_Handlers
  imports Web_Invariant
begin

text \<open>
  Every handler keeps an invariant of \<open>web_inv\<close>. The one condition on the request is that of the
  password form: the users it can sign in satisfy \<open>U\<close>.
\<close>

text \<open>The Unix user a request proves to be: a login form past the cross-site check whose password PAM accepts.\<close>

definition accepted :: "'w env \<Rightarrow> request \<Rightarrow> string \<Rightarrow> bool" where
  "accepted e r u \<longleftrightarrow> (\<exists>w acct. u = a_Name acct \<and>
     fst (acceptLocalUser e (go_trim_space (rq_Form r ''username'')) (rq_Form r ''password'') w) = Inr acct)"

definition logged_in :: "'w env \<Rightarrow> Config \<Rightarrow> request \<Rightarrow> string \<Rightarrow> bool" where
  "logged_in e cfg r u \<longleftrightarrow>
     rq_Path r = ''/login'' \<and> rq_Method r = m_post \<and> checkCSRF cfg r \<and> accepted e r u"

context web_inv
begin

section \<open>Signing in and out\<close>

lemma static_preserves:
  "preserves P (handleStatic e style r)" "preserves P (handleRoot e r)" "preserves P (handleOpenVPNRest r)"
  unfolding handleStatic_def handleRoot_def handleOpenVPNRest_def
  by (rule web_steps | simp)+

lemma logout_preserves: "preserves P (handleLogout e r)"
  unfolding handleLogout_def by (rule web_steps | simp)+

lemma login_done_preserves: "preserves P (login_done r out)"
  unfolding login_done_def by (rule web_steps | simp)+

lemma login_refused_preserves: "preserves P (login_refused e sess user err)"
  unfolding login_refused_def by (rule web_steps | simp)+

lemma login_accepted_preserves:
  assumes "U (a_Name acct)" "\<And>t. sess = Some t \<Longrightarrow> V t"
  shows "preserves P (login_accepted e r sess acct)"
  unfolding login_accepted_def
  by (rule web_steps login_done_preserves create_pam_preserves save_linked_preserves | simp add: assms)+

lemma login_post_preserves:
  assumes "\<And>u. checkCSRF cfg r \<Longrightarrow> accepted e r u \<Longrightarrow> U u"
  shows "preserves P (handleLoginPost e r)"
proof -
  have u: "U (a_Name acct)"
    if "checkCSRF cfg r" "fst (acceptLocalUser e user (rq_Form r ''password'') w) = Inr acct"
      "user = go_trim_space (rq_Form r ''username'')" for user w acct
    using assms [OF that(1)] that(2,3) by (auto simp: accepted_def)
  show ?thesis
    unfolding handleLoginPost_def
    by (rule web_steps login_refused_preserves login_accepted_preserves | simp add: u)+
qed

lemma active_registered:
  assumes "activeIDP e c name = Some p"
  shows "\<exists>i \<in> set (v_ids e). id_IDP i = Some p"
  using assms
  by (auto simp: activeIDP_def registered_def find_Some_iff split: option.splits if_splits)

lemma login_start_preserves:
  assumes "activeIDP e c name = Some idp"
  shows "preserves P (login_start e name idp nonce txID)"
proof -
  have u: "local_path u \<or> provider_url e u" if "fst (i_AuthCodeURL idp st n uri w) = Some (u, v)" for st n uri w u v
    using active_registered [OF assms] that by (auto simp: provider_url_def)
  show ?thesis
    unfolding login_start_def by (rule web_steps | simp add: u cookie_names)+
qed

lemma login_get_preserves: "preserves P (handleLoginGet e r)"
  unfolding handleLoginGet_def by (rule web_steps login_start_preserves | simp)+

lemma login_preserves:
  "(\<And>u. rq_Method r = m_post \<Longrightarrow> checkCSRF cfg r \<Longrightarrow> accepted e r u \<Longrightarrow> U u) \<Longrightarrow> preserves P (handleLogin e r)"
  unfolding handleLogin_def by (rule web_steps login_get_preserves login_post_preserves | simp)+

lemma gate_preserves: "(\<And>i. ident = Some i \<Longrightarrow> G i) \<Longrightarrow> preserves P (gateIdentity e ident)"
  unfolding gateIdentity_def by (rule web_steps bind_preserves | simp)+

lemma callback_session_preserves: "G i \<Longrightarrow> preserves P (callback_session e r i)"
  unfolding callback_session_def by (rule web_steps create_preserves | simp)+

lemma callback_gate_preserves: "(\<And>i. ident = Some i \<Longrightarrow> G i) \<Longrightarrow> preserves P (callback_gate e r ident)"
  unfolding callback_gate_def
  by (rule web_steps gate_preserves callback_session_preserves preserves_bind [OF gate_preserves] | simp)+

lemma callback_preserves: "preserves P (handleCallback e r)"
proof -
  have x: "preserves P (callback_exchange e r nonce provider verifier)" for nonce provider verifier
    unfolding callback_exchange_def
  proof (rule config_bind, rule preserves_bind)
    show "preserves P (setCookie (oauthCookieName cfg) [] (- 1))"
      by (rule setCookie_preserves) (rule cookie_names)
    show "preserves P (case activeIDP e cfg provider of None \<Rightarrow> loginFail e 400 expired
        | Some idp \<Rightarrow> do {
            x \<leftarrow> sys (i_Exchange idp (query r ''code'') nonce (redirectURI cfg) verifier);
            case x of None \<Rightarrow> loginFail e 400 ''Sign-in failed. Try again.''
            | Some ident \<Rightarrow> callback_gate e r ident})"
    proof (rule preserves_option, rule reply_preserves, rule sys_bind, rule preserves_option, rule reply_preserves,
        rule callback_gate_preserves)
      fix idp a w ident i
      assume *: "activeIDP e cfg provider = Some idp" "a = Some ident" "ident = Some i"
        "fst (i_Exchange idp (query r ''code'') nonce (redirectURI cfg) verifier w) = a"
      obtain ii where "ii \<in> set (v_ids e)" "id_IDP ii = Some idp" using active_registered [OF *(1)] by blast
      with exchange_G * show "G i" by blast
    qed
  qed
  show ?thesis
    unfolding handleCallback_def by (rule web_steps x | simp)+
qed

section \<open>Files\<close>

lemma fail_preserves:
  "preserves P (statusFromJail err)"
  "local_path u \<Longrightarrow> preserves P (see_other key u)"
  "preserves P (formFail r home_prefix rel key plain status)"
  "preserves P (jailFail r home_prefix rel err)"
  "preserves P (cubbyErr e r home_prefix rel err)"
  unfolding statusFromJail_def see_other_def formFail_def jailFail_def cubbyErr_def
  by (rule web_steps | simp)+

lemma mark_preserves: "preserves P (setDownloadMark rel)" "preserves P (takeDownloadMark r rel)"
  unfolding setDownloadMark_def takeDownloadMark_def by (rule web_steps | simp add: cookie_names)+

lemmas file_steps = web_steps fail_preserves mark_preserves

lemma serveListing_preserves: "preserves P (serveListing e r root home_prefix rel)"
  unfolding serveListing_def by (rule file_steps | simp)+

lemma close_preserves: "preserves P (close_fd e fd)"
  unfolding close_fd_def by (rule file_steps)+

lemma disposition_safe: "header_safe (contentDisposition ct ctype)"
  by (auto simp: contentDisposition_def Let_def byte_of_def)

lemma serveGet_preserves: "preserves P (serveGet e r root home_prefix rel)"
  unfolding serveGet_def
  by (rule file_steps serveListing_preserves close_preserves | simp add: disposition_safe FormatFilename_safe)+

lemma put_preserves:
  "preserves P (replace_from e root rel body)" "preserves P (servePut e r root rel sess)"
  "preserves P (mkdir_chown e root rel sess)"
  unfolding servePut_def replace_from_def mkdir_chown_def by (rule file_steps | simp)+

lemma form_preserves:
  "preserves P (doMkdir e r root home_prefix rel name sess)"
  "local_path redirect \<or> redirect = [] \<Longrightarrow> preserves P (serveDelete e root rel redirect)"
  unfolding doMkdir_def serveDelete_def
  by (rule file_steps put_preserves preserves_bind [OF put_preserves(3)] | simp)+

lemma doDelete_preserves: "preserves P (doDeleteForm e r root home_prefix rel name)"
  unfolding doDeleteForm_def by (rule preserves_option fail_preserves form_preserves | simp)+

lemma servePost_preserves: "preserves P (servePost e r root home_prefix rel sess)"
  unfolding servePost_def post_upload_def
  by (rule file_steps doDelete_preserves form_preserves preserves_bind [OF put_preserves(1)] | simp)+

lemma guarded_preserves: "preserves P change \<Longrightarrow> preserves P (guarded e r change)"
  unfolding guarded_def by (rule file_steps | simp)+

lemma files_preserves: "preserves P (handleFiles e r)"
proof -
  have m: "preserves P (files_method e r root rel sess)" for root rel sess
    unfolding files_method_def
    by (rule preserves_if serveGet_preserves guarded_preserves put_preserves servePost_preserves form_preserves
        reply_preserves | simp)+
  have s: "preserves P (serve_files e r sess rel)" for sess rel
    unfolding serve_files_def by (rule file_steps preserves_bind [OF m] | simp)+
  show ?thesis
    unfolding handleFiles_def by (rule file_steps s | simp add: home_prefix_def)+
qed

section \<open>OpenVPN\<close>

lemma attachment_preserves: "preserves P (writeOvpnAttachment e r pam homeID rel)"
proof -
  have lit: "header_safe ''attachment''" by code_simp
  have num: "header_safe (show_nat n)" for n
    by (induction n rule: show_nat.induct) (subst show_nat.simps, auto simp: byte_of_def simp del: show_nat.simps)
  show ?thesis
    unfolding writeOvpnAttachment_def
    by (rule file_steps | simp add: FormatFilename_safe [OF lit] num byte_of_def)+
qed

lemma ticket_preserves: "preserves P (serveOpenVPNTicket e r i)"
proof -
  have ok: "preserves P (ovpnTicketSessionOK e t)" for t
    unfolding ovpnTicketSessionOK_def by (rule file_steps)+
  have prof: "preserves P (ticket_profile e r t)" for t
    unfolding ticket_profile_def by (rule file_steps attachment_preserves preserves_bind [OF attachment_preserves])+
  show ?thesis
    unfolding serveOpenVPNTicket_def by (rule preserves_bind [OF ok] file_steps prof)+
qed

lemma import_preserves: "preserves P (tryOvpnImport e c sess rel)"
  unfolding tryOvpnImport_def by (rule file_steps)+

lemma choices_preserves: "preserves P (ovpn_choices e c r sess tokens ps)"
  by (induction ps) (auto intro!: preserves_bind preserves_ret import_preserves)

lemma handoff_preserves: "preserves P (renderOvpnHandoff e r sess found rel)"
  unfolding renderOvpnHandoff_def
  by (rule file_steps preserves_bind [OF choices_preserves] import_preserves preserves_bind [OF import_preserves])+

lemma embedded_preserves: "preserves P (embedded_page e r root rel)"
  unfolding embedded_page_def by (rule file_steps close_preserves | simp)+

lemma profile_preserves: "preserves P (handleOpenVPNProfile e r)"
proof -
  have m: "preserves P (profile_method e r sess root)" for sess root
    unfolding profile_method_def
    by (rule file_steps embedded_preserves handoff_preserves preserves_bind [OF attachment_preserves] | simp)+
  have s: "preserves P (serveOpenVPNProfile e r)"
    unfolding serveOpenVPNProfile_def by (rule file_steps preserves_bind [OF m] | simp)+
  show ?thesis
    unfolding handleOpenVPNProfile_def by (rule file_steps ticket_preserves s | simp)+
qed

section \<open>Every request\<close>

lemma route_preserves:
  assumes "\<And>u. logged_in e cfg r u \<Longrightarrow> U u"
  shows "preserves P (route e style r)"
proof -
  have log: "preserves P (handleLogin e r)" if "rq_Path r = ''/login''"
    by (rule login_preserves) (use assms that in \<open>auto simp: logged_in_def\<close>)
  show ?thesis
    unfolding route_def
    by (rule preserves_Let preserves_if static_preserves log callback_preserves
        logout_preserves files_preserves profile_preserves reply_preserves | simp)+
qed

lemma ServeHTTP_preserves:
  "(\<And>u. logged_in e cfg r u \<Longrightarrow> U u) \<Longrightarrow> preserves P (ServeHTTP e style r)"
  unfolding ServeHTTP_def setSecurityHeaders_def
  by (rule web_steps route_preserves | simp add: byte_of_def)+

end

end
