(* ===== verification/Web_Demo.thy ===== *)
theory Web_Demo
  imports Web_Handlers Store_Properties
begin

text \<open>
  A concrete server for the concrete runs: the world is a counter that the clock and the random
  source advance, the kernel refuses every call, PAM accepts one password of one account, and
  one provider vouches for one identity.
\<close>

section \<open>The environment\<close>

definition dead_kernel :: "'w kernel" where
  "dead_kernel = \<lparr>
     k_open = (\<lambda>p fl w. (Inl EACCES, w)), k_dup = (\<lambda>d w. (Inl EBADF, w)), k_close = (\<lambda>d w. (Inr (), w)),
     k_openat = (\<lambda>d n fl m w. (Inl EACCES, w)), k_readlinkat = (\<lambda>d n w. (Inl EINVAL, w)),
     k_fstatat = (\<lambda>d n w. (Inl ENOENT, w)), k_fstat = (\<lambda>d w. (Inl EBADF, w)),
     k_mkdirat = (\<lambda>d n m w. (Inl EACCES, w)), k_unlinkat = (\<lambda>d n b w. (Inl EACCES, w)),
     k_renameat = (\<lambda>d n d' n' w. (Inl EACCES, w)), k_fchmod = (\<lambda>d m w. (Inl EPERM, w)),
     k_fchown = (\<lambda>d u g w. (Inl EPERM, w)), k_write = (\<lambda>d b w. (Inl EBADF, w)), k_readdir = (\<lambda>d w. (Inl EBADF, w))\<rparr>"

definition demo_identity :: oidc_identity where
  "demo_identity = \<lparr>id_Issuer = ''google'', id_Subject = ''g1'', id_Email = ''a@x'', id_EmailVerified = True, id_FullName = []\<rparr>"

definition demo_idp :: "nat idp" where
  "demo_idp = \<lparr>i_AuthCodeURL = (\<lambda>st n uri w. (Some (''https://idp/'' @ st, ''v''), w)),
     i_Exchange = (\<lambda>c n uri v w. (if c = ''code'' then Some (Some demo_identity) else None, w)),
     i_SetClient = None\<rparr>"

definition demo_env :: "nat env" where
  "demo_env = \<lparr>v_kernel = dead_kernel, v_lstat = (\<lambda>p w. (Inl ENOENT, w)), v_readdir = (\<lambda>p w. (Inl ENOENT, w)),
     v_mkdirall = (\<lambda>p m w. (Inr (), w)), v_chmod = (\<lambda>p m w. (Inr (), w)), v_read = (\<lambda>d n w. (Inl EBADF, w)),
     v_now = (\<lambda>w. (int w * second, w + 1)),
     v_rand = (\<lambda>n w. (Some [char_of (w mod 256)], w + 1)),
     v_keypair = (\<lambda>c k w. (None, w)), v_users = demo_users, v_groups = (\<lambda>g. None),
     v_auth = Some (\<lambda>u p w. (if u = ''alice'' \<and> p = ''pw'' then None else Some ErrDenied, w)),
     v_codec = net_codec, v_case = \<lparr>lower = (\<lambda>r. r), upper = (\<lambda>r. r)\<rparr>, v_sha256 = (\<lambda>s. take 32 (s @ replicate 32 nul)),
     v_mac = (\<lambda>key s. s), v_key = ''k'', v_ids = [\<lparr>id_Name = ''google'', id_Label = ''Google'', id_IDP = Some demo_idp\<rparr>],
     v_mime = [], v_rng = \<lparr>rng_current = (\<lambda>x. x), rng_wanted = (\<lambda>x. x)\<rparr>, v_depth = 5, v_order = (\<lambda>x. x)\<rparr>"

definition pam_config :: Config where
  "pam_config = zero_config\<lparr>PublicURL := ''https://h'', Data := ''/d'', PAM := True, IDPSet := True\<rparr>"

definition oidc_config :: Config where
  "oidc_config = zero_config\<lparr>PublicURL := ''https://h'', Data := ''/d'', IDPSet := True, IDPs := [''google'']\<rparr>"

definition demo_srv :: "Config \<Rightarrow> nat srv" where
  "demo_srv cfg = \<lparr>sv_cfg = cfg, sv_store = st_empty, sv_cert = None, sv_manager = NewManager [],
     sv_sockets = \<lparr>bw_if = \<lparr>ni_addrs = None, ni_iface = (\<lambda>_. None)\<rparr>, bw_group = None, bw_next = 0, bw_open = [], bw_calls = []\<rparr>,
     sv_oauth = [], sv_tickets = [], sv_world = 1000, sv_out = []\<rparr>"

definition req0 :: request where
  "req0 = \<lparr>rq_Method = m_get, rq_Path = ''/'', rq_Query = [], rq_Header = (\<lambda>h. []), rq_Cookies = [],
     rq_Form = (\<lambda>k. []), rq_Body = ([], None), rq_Multipart = (\<lambda>n. None)\<rparr>"

text \<open>Alice posts the password form from the site itself.\<close>

definition login_request :: request where
  "login_request = req0\<lparr>rq_Method := m_post, rq_Path := ''/login'',
     rq_Header := (\<lambda>h. if h = ''Origin'' then ''https://h'' else []),
     rq_Form := (\<lambda>k. if k = ''username'' then ''alice'' else if k = ''password'' then ''pw'' else [])\<rparr>"

definition after_login :: "nat srv" where
  "after_login = snd (run_state (ServeHTTP demo_env [] login_request) (demo_srv pam_config))"

text \<open>What the runs need of that state, evaluated once.\<close>

definition demo_view :: "nat srv \<Rightarrow> session option \<times> bool \<times> Config" where
  "demo_view s = (sess_in net_codec (sv_store s) (sess_name (hex_encode [char_of (232::nat)])),
     od_faults (sv_store s) = [], sv_cfg s)"

lemma demo_login_state: "demo_view after_login =
    (Some \<lparr>s_ID = hex_encode [char_of (232::nat)], s_Iss = [], s_Sub = [], s_PAMUser = ''alice'', s_Email = [],
      s_Expires = 1001 * second + sessionTTL\<rparr>, True, pam_config)"
  by code_simp

lemma demo_login: "sess_in net_codec (sv_store after_login) (sess_name (hex_encode [char_of (232::nat)])) =
    Some \<lparr>s_ID = hex_encode [char_of (232::nat)], s_Iss = [], s_Sub = [], s_PAMUser = ''alice'', s_Email = [],
      s_Expires = 1001 * second + sessionTTL\<rparr>"
  and demo_faults: "od_faults (sv_store after_login) = []" and demo_cfg: "sv_cfg after_login = pam_config"
  using demo_login_state by (simp_all add: demo_view_def)

lemma demo_session: "GetSession net_codec (hex_encode [char_of (232::nat)]) 0 (sv_store after_login) =
    (Inr \<lparr>s_ID = hex_encode [char_of (232::nat)], s_Iss = [], s_Sub = [], s_PAMUser = ''alice'', s_Email = [],
      s_Expires = 1001 * second + sessionTTL\<rparr>, sv_store after_login)"
proof -
  have "sessionPath (hex_encode [char_of (232::nat)]) \<noteq> None" "\<not> 0 > 1001 * second + sessionTTL" by code_simp+
  then show ?thesis using GetSession_of [OF demo_faults demo_login, of 0] by simp
qed

end
