(* ===== verification/Store_Grants.thy ===== *)
theory Store_Grants
  imports Session_Store
begin

text \<open>
  Which Unix users the stored sessions and links name. \<open>ginv U c\<close> is the invariant of the state
  directory together with: every user a session or a link names satisfies \<open>U\<close>. Each operation
  keeps it as long as the users the caller passes satisfy \<open>U\<close>.
\<close>

definition user_ok :: "(string \<Rightarrow> bool) \<Rightarrow> string \<Rightarrow> bool" where
  "user_ok U u \<longleftrightarrow> u = [] \<or> U u"

definition session_ok :: "(string \<Rightarrow> bool) \<Rightarrow> session \<Rightarrow> bool" where
  "session_ok U s \<longleftrightarrow> valid_session s \<and> user_ok U (s_PAMUser s)"

definition granted :: "(string \<Rightarrow> bool) \<Rightarrow> codec \<Rightarrow> osdir \<Rightarrow> bool" where
  "granted U c w \<longleftrightarrow>
     (\<forall>n s. is_session_file n \<longrightarrow> sess_in c w n = Some s \<longrightarrow> user_ok U (s_PAMUser s)) \<and>
     (\<forall>ls. links_of c w = Some ls \<longrightarrow> list_all (\<lambda>l. user_ok U (l_PAMUser l)) ls)"

definition ginv :: "(string \<Rightarrow> bool) \<Rightarrow> codec \<Rightarrow> osdir \<Rightarrow> bool" where
  "ginv U c w \<longleftrightarrow> sinv c w \<and> granted U c w"

lemma user_ok_Nil [simp]: "user_ok U []"
  by (simp add: user_ok_def)

lemma user_ok_mono: "user_ok U u \<Longrightarrow> (\<And>x. U x \<Longrightarrow> V x) \<Longrightarrow> user_ok V u"
  by (auto simp: user_ok_def)

lemma granted_mono: "granted U c w \<Longrightarrow> (\<And>x. U x \<Longrightarrow> V x) \<Longrightarrow> granted V c w"
  unfolding granted_def user_ok_def list_all_iff by metis

lemma ginv_mono: "ginv U c w \<Longrightarrow> (\<And>x. U x \<Longrightarrow> V x) \<Longrightarrow> ginv V c w"
  using granted_mono by (auto simp: ginv_def)

lemma granted_cong:
  "(\<And>n. is_session_file n \<Longrightarrow> bytes w' n = bytes w n \<or> bytes w' n = None) \<Longrightarrow>
   bytes w' linksPath = bytes w linksPath \<Longrightarrow> granted U c w \<Longrightarrow> granted U c w'"
  unfolding granted_def sess_in_def table_def by (metis bind.bind_lzero option.distinct(1))

lemma ginv_bytes: "bytes w' = bytes w \<Longrightarrow> ginv U c w \<Longrightarrow> ginv U c w'"
  unfolding ginv_def using sinv_bytes granted_cong [of w' w U c] by simp

lemma ginv_triple:
  assumes "triple (sinv c) f (\<lambda>r w. Q r \<and> sinv c w)"
    and "\<And>w r w'. f w = (r, w') \<Longrightarrow> sinv c w \<Longrightarrow> granted U c w \<Longrightarrow> R r \<and> granted U c w'"
  shows "triple (ginv U c) f (\<lambda>r w. (Q r \<and> R r) \<and> ginv U c w)"
  using assms unfolding triple_def ginv_def by (fastforce split: prod.splits)

lemma ginv_keep_triple:
  "(\<And>w r w'. f w = (r, w') \<Longrightarrow> bytes w' = bytes w) \<Longrightarrow> triple (ginv U c) f (\<lambda>_. ginv U c)"
  using ginv_bytes by (fastforce simp: triple_def split: prod.splits)

lemma ginv_lock_triple:
  assumes "triple (ginv U c) fn Q" "\<And>e w. ginv U c w \<Longrightarrow> Q (failed e) w"
  shows "triple (ginv U c) (withLock failed fn) Q"
proof (unfold triple_def, clarify)
  fix w r w' assume w: "ginv U c w" and eq: "withLock failed fn w = (r, w')"
  have lock: "ginv U c w1" if a: "agree {lockPath} w w1" for w1
  proof -
    have "bytes w1 n = bytes w n" if "is_session_file n \<or> n = linksPath" for n
      using agreeD [OF a, of n] that by auto
    then have "granted U c w1" using w granted_cong [of w1 w U c] by (simp add: ginv_def)
    moreover have "sinv c w1" using sinv_agree [OF a, of c] w by (simp add: ginv_def)
    ultimately show ?thesis by (simp add: ginv_def)
  qed
  from eq show "Q r w'"
  proof (cases rule: withLock_cases)
    case (failed e)
    then show ?thesis using assms(2) lock by blast
  next
    case (run w1)
    then show ?thesis using tripleD [OF assms(1)] lock by blast
  qed
qed

lemma ginv_remove_triple:
  assumes "n = sess_name i"
  shows "triple (ginv U c) (os_remove n) (\<lambda>_. ginv U c)"
proof -
  have "granted U c w'" if "os_remove n w = (r, w')" "granted U c w" for w r w'
    using granted_cong [OF _ _ that(2), of w'] os_remove_bytes [OF that(1)] assms by (metis sess_name_neq path_neq)
  then show ?thesis
    using remove_session_triple [OF assms, of c] unfolding triple_def ginv_def by (fastforce split: prod.splits)
qed

lemma ginv_remove_quiet_triple: "triple (ginv U c) (remove_quiet (sess_name i)) (\<lambda>_. ginv U c)"
  unfolding remove_quiet_def
  by (intro triple_bind [OF ginv_remove_triple] triple_sum triple_return) auto

context json_codec
begin

lemma ginv_save_triple:
  assumes "session_ok U s"
  shows "triple (ginv U c) (saveSession c s) (\<lambda>_. ginv U c)"
proof (unfold triple_def, clarify)
  fix w r w' assume w: "ginv U c w" and eq: "saveSession c s w = (r, w')"
  have v: "valid_session s" "user_ok U (s_PAMUser s)" using assms by (simp_all add: session_ok_def)
  note b = saveSession_of [OF eq v(1)]
  have a: "agree (sess_files (s_ID s)) w w'" using b by simp
  have "sess_in c w' n = sess_in c w n \<or> sess_in c w' n = Some s" if "is_session_file n" for n
    using b that agreeD [OF a, of n] by (cases "n = sess_name (s_ID s)") (auto simp: sess_in_def split: sum.splits)
  then have "user_ok U (s_PAMUser t)" if "is_session_file n" "sess_in c w' n = Some t" for n t
    using that w v(2) unfolding ginv_def granted_def by (metis option.inject)
  moreover have "links_of c w' = links_of c w" using agreeD [OF a, of linksPath] by (simp add: table_def)
  moreover have "sinv c w'" using tripleD [OF saveSession_triple [OF v(1)] _ eq] w by (simp add: ginv_def)
  ultimately show "ginv U c w'" using w unfolding ginv_def granted_def by simp
qed

definition granted_links :: "(string \<Rightarrow> bool) \<Rightarrow> store_error + link list \<Rightarrow> bool" where
  "granted_links U r \<longleftrightarrow> good_links r \<and> (\<forall>ls. r = Inr ls \<longrightarrow> list_all (\<lambda>l. user_ok U (l_PAMUser l)) ls)"

lemma ginv_readLinks_triple: "triple (ginv U c) (readLinks c) (\<lambda>r w. granted_links U r \<and> ginv U c w)"
proof (unfold triple_def, clarify)
  fix w r w' assume w: "ginv U c w" and eq: "readLinks c w = (r, w')"
  note b = readLinks_of [OF eq]
  have "good_links r" using tripleD [OF readLinks_triple _ eq] w by (simp add: ginv_def)
  moreover have "ginv U c w'" using b w ginv_bytes by blast
  moreover have "list_all (\<lambda>l. user_ok U (l_PAMUser l)) ls" if "r = Inr ls" for ls
    using b w that by (simp add: ginv_def granted_def)
  ultimately show "granted_links U r \<and> ginv U c w'" by (simp add: granted_links_def)
qed

lemma ginv_writeLinks_triple:
  assumes "list_all valid_link ls" "distinct (link_keys ls)" "list_all (\<lambda>l. user_ok U (l_PAMUser l)) ls"
  shows "triple (ginv U c) (writeLinks c ls) (\<lambda>_. ginv U c)"
proof (unfold triple_def, clarify)
  fix w r w' assume w: "ginv U c w" and eq: "writeLinks c ls w = (r, w')"
  note b = writeLinks_of [OF eq assms(1)]
  have a: "agree links_files w w'" using b by simp
  have "links_of c w' = Some ls \<or> links_of c w' = links_of c w"
    using b by (cases r) (auto simp: table_def)
  then have "list_all (\<lambda>l. user_ok U (l_PAMUser l)) ks" if "links_of c w' = Some ks" for ks
    using w assms(3) that by (auto simp: ginv_def granted_def)
  moreover have "sess_in c w' n = sess_in c w n" if "is_session_file n" for n
    using agreeD [OF a, of n] that by (auto intro: sess_in_cong)
  moreover have "sinv c w'" using tripleD [OF writeLinks_triple [OF assms(1,2)] _ eq] w by (simp add: ginv_def)
  ultimately show "ginv U c w'" using w unfolding ginv_def granted_def by simp
qed

lemma ginv_writeSubjects_triple:
  assumes "list_all valid_subject us" "distinct (map u_Email us)"
  shows "triple (ginv U c) (writeSubjects c us) (\<lambda>_. ginv U c)"
proof (unfold triple_def, clarify)
  fix w r w' assume w: "ginv U c w" and eq: "writeSubjects c us w = (r, w')"
  have a: "agree subjects_files w w'" using writeSubjects_of [OF eq assms(1)] by simp
  have "bytes w' n = bytes w n" if "is_session_file n \<or> n = linksPath" for n
    using agreeD [OF a, of n] that by auto
  then have "granted U c w'" using w granted_cong [of w' w U c] by (simp add: ginv_def)
  moreover have "sinv c w'" using tripleD [OF writeSubjects_triple [OF assms] _ eq] w by (simp add: ginv_def)
  ultimately show "ginv U c w'" by (simp add: ginv_def)
qed

lemma ginv_readSubjects_triple:
  "triple (ginv U c) (readSubjects c)
     (\<lambda>r w. (\<forall>us. r = Inr us \<longrightarrow> list_all valid_subject us \<and> distinct (map u_Email us)) \<and> ginv U c w)"
proof (unfold triple_def, clarify)
  fix w r w' assume w: "ginv U c w" and eq: "readSubjects c w = (r, w')"
  have "ginv U c w'" using readSubjects_of [OF eq] w ginv_bytes by blast
  then show "(\<forall>us. r = Inr us \<longrightarrow> list_all valid_subject us \<and> distinct (map u_Email us)) \<and> ginv U c w'"
    using tripleD [OF readSubjects_triple _ eq] w by (simp add: ginv_def)
qed

lemma set_link_users:
  "list_all (\<lambda>l. user_ok U (l_PAMUser l)) ls \<Longrightarrow> user_ok U u \<Longrightarrow>
   list_all (\<lambda>l. user_ok U (l_PAMUser l)) (set_link i s u ls)"
  by (induction i s u ls rule: set_link.induct) auto

lemma ginv_setLink_triple:
  assumes "valid_utf8 i" "valid_utf8 s" "valid_utf8 u" "user_ok U u"
  shows "triple (ginv U c) (setLinkLocked c i s u) (\<lambda>_. ginv U c)"
  unfolding setLinkLocked_def
  by (intro triple_bind [OF ginv_readLinks_triple] triple_pure triple_sum triple_return ginv_writeLinks_triple)
     (use assms in \<open>auto simp: granted_links_def good_links_def set_link_valid set_link_keys set_link_users\<close>)

lemma lookup_user:
  "list_all (\<lambda>l. user_ok U (l_PAMUser l)) ls \<Longrightarrow> lookup_links ls i s = Some p \<Longrightarrow> user_ok U p"
  by (auto simp: lookup_links_def find_Some_iff list_all_length)

lemma ginv_lookup_triple:
  "triple (ginv U c) (lookupLinkLocked c i s)
     (\<lambda>r w. (\<forall>p. r = Inr (Some p) \<longrightarrow> valid_utf8 p \<and> user_ok U p) \<and> ginv U c w)"
  unfolding lookupLinkLocked_def
  by (intro triple_bind [OF ginv_readLinks_triple] triple_pure triple_return)
     (auto simp: granted_links_def good_links_def map_sum_def lookup_valid lookup_user split: sum.splits)

lemma ginv_clear_loop_triple: "triple (ginv U c) (clear_loop c match names n) (\<lambda>_. ginv U c)"
proof (induction names arbitrary: n)
  case Nil
  then show ?case by (auto intro: triple_return)
next
  case (Cons x names)
  have read: "triple (ginv U c) (os_read_file x) (\<lambda>_. ginv U c)" by (rule ginv_keep_triple) (rule os_keep(5))
  have v: "session_ok U (s\<lparr>s_PAMUser := []\<rparr>)" if "dec_session c b = Some s" for s b
    using session_dec [OF that] by (simp add: session_ok_def valid_session_def)
  show ?case
    unfolding clear_loop.simps
    by (intro triple_if triple_bind [OF read] triple_sum triple_return triple_option Cons.IH
          triple_bind [OF ginv_save_triple [OF v]]) simp_all
qed

lemma ginv_clear_triple: "triple (ginv U c) (clearMatchingSessionsLocked c match) (\<lambda>_. ginv U c)"
proof -
  have rd: "triple (ginv U c) os_read_dir (\<lambda>_. ginv U c)" by (rule ginv_keep_triple) (rule os_keep(9))
  show ?thesis
    unfolding clearMatchingSessionsLocked_def
    by (intro triple_bind [OF rd] triple_sum triple_return ginv_clear_loop_triple)
qed

lemma ginv_clearSubject_triple: "triple (ginv U c) (clearSubjectPAMLocked c i s x) (\<lambda>_. ginv U c)"
  unfolding clearSubjectPAMLocked_def by (intro triple_bind [OF ginv_clear_triple] triple_return)

text \<open>The operations the server calls.\<close>

lemma ginv_putSession_triple:
  assumes "\<And>s. session_ok U s \<Longrightarrow> triple (ginv U c) (prep s) (\<lambda>r w. (\<forall>t. r = Inr t \<longrightarrow> session_ok U t) \<and> ginv U c w)"
    and "session_ok U s"
  shows "triple (ginv U c) (putSession c s ttl prep rnd now) (\<lambda>_. ginv U c)"
proof -
  have v: "session_ok U (s\<lparr>s_ID := hex_encode b, s_Expires := t\<rparr>)" for b t
    using assms(2) valid_utf8_ascii [OF hex_encode_ascii] by (simp add: session_ok_def valid_session_def)
  show ?thesis
    unfolding putSession_def randomID_def
    by (cases rnd)
       (auto intro!: triple_return ginv_lock_triple triple_bind [OF assms(1) [OF v]] triple_pure triple_sum
          triple_bind [OF ginv_save_triple])
qed

lemma ginv_CreateSession:
  assumes "valid_utf8 iss" "valid_utf8 sub" "valid_utf8 email"
  shows "triple (ginv U c) (CreateSession c iss sub email ttl rnd now) (\<lambda>_. ginv U c)"
proof -
  have v: "session_ok U (empty_session\<lparr>s_Iss := iss, s_Sub := sub, s_Email := email\<rparr>)"
    using assms by (simp add: session_ok_def valid_session_def empty_session_def)
  show ?thesis
    unfolding CreateSession_def
  proof (rule ginv_putSession_triple [OF _ v])
    fix s assume s: "session_ok U s"
    show "triple (ginv U c) (\<lambda>w. case lookupLinkLocked c iss sub w of (r, w1) \<Rightarrow> case r of
            Inl e \<Rightarrow> (Inl e, w1)
          | Inr pam \<Rightarrow> (Inr (case pam of None \<Rightarrow> s | Some p \<Rightarrow> s\<lparr>s_PAMUser := p\<rparr>), w1))
       (\<lambda>r w. (\<forall>t. r = Inr t \<longrightarrow> session_ok U t) \<and> ginv U c w)"
      by (intro triple_bind [OF ginv_lookup_triple] triple_pure triple_sum triple_return)
         (use s in \<open>auto simp: session_ok_def valid_session_def split: option.splits\<close>)
  qed
qed

lemma ginv_CreatePAMSession:
  assumes "valid_utf8 u" "user_ok U u"
  shows "triple (ginv U c) (CreatePAMSession c u ttl rnd now) (\<lambda>_. ginv U c)"
  unfolding CreatePAMSession_def
  by (intro triple_if triple_return ginv_putSession_triple)
     (use assms in \<open>auto simp: session_ok_def valid_session_def empty_session_def\<close>)

lemma ginv_GetSession_keeps: "triple (ginv U c) (GetSession c i now) (\<lambda>_. ginv U c)"
proof -
  have rd: "triple (ginv U c) (os_read_file p) (\<lambda>_. ginv U c)" for p by (rule ginv_keep_triple) (rule os_keep(5))
  have rm: "triple (ginv U c) (os_remove p) (\<lambda>_. ginv U c)" if "sessionPath i = Some p" for p
    using sessionPath_Some [OF that] by (rule ginv_remove_triple)
  show ?thesis
    unfolding GetSession_def
    by (intro triple_option triple_return triple_bind [OF rd] triple_sum triple_if triple_bind [OF rm])
qed

lemma ginv_GetSession:
  "triple (ginv U c) (GetSession c i now) (\<lambda>r w. (\<forall>s. r = Inr s \<longrightarrow> session_ok U s) \<and> ginv U c w)"
proof (unfold triple_def, clarify)
  fix w r w' assume w: "ginv U c w" and eq: "GetSession c i now w = (r, w')"
  have "ginv U c w'" by (rule tripleD [OF ginv_GetSession_keeps w eq])
  moreover have "session_ok U s" if "r = Inr s" for s
  proof -
    from that eq obtain p where p: "sessionPath i = Some p" by (cases "sessionPath i") (auto simp: GetSession_def)
    obtain x w1 where x: "os_read_file p w = (x, w1)" by force
    with p that eq obtain b where b: "x = Inr b" by (cases x) (auto simp: GetSession_def)
    with p x that eq obtain t where t: "dec_session c b = Some t"
      by (cases "dec_session c b") (auto simp: GetSession_def)
    obtain y w2 where y: "os_remove p w1 = (y, w2)" by force
    from p x b t y that eq have "t = s" by (simp add: GetSession_def split: if_splits)
    with sessionPath_Some [OF p] x b t have *: "os_read_file (sess_name i) w = (Inr b, w1)" "dec_session c b = Some s"
      by simp_all
    have "sess_in c w (sess_name i) = Some s"
      using os_read_file_Inr [OF *(1)] *(2) by (simp add: sess_in_def)
    then have "user_ok U (s_PAMUser s)"
      using w is_session_file_sess unfolding ginv_def granted_def by blast
    with session_dec [OF *(2)] show ?thesis by (simp add: session_ok_def)
  qed
  ultimately show "(\<forall>s. r = Inr s \<longrightarrow> session_ok U s) \<and> ginv U c w'" by blast
qed

lemma ginv_DeleteSession: "triple (ginv U c) (DeleteSession i) (\<lambda>_. ginv U c)"
  unfolding DeleteSession_def
  by (cases "sessionPath i") (auto intro!: triple_return ginv_remove_quiet_triple dest!: sessionPath_Some)

lemma ginv_BindSubject:
  assumes "valid_utf8 email" "valid_utf8 i" "valid_utf8 s"
  shows "triple (ginv U c) (BindSubject c email i s) (\<lambda>_. ginv U c)"
  unfolding BindSubject_def
  by (intro triple_if triple_return ginv_lock_triple triple_bind [OF ginv_readSubjects_triple] triple_pure triple_sum
        triple_option ginv_writeSubjects_triple)
     (use assms in \<open>auto simp: valid_subject_def find_None_iff\<close>)

lemma ginv_LookupLink: "triple (ginv U c) (LookupLink c i s) (\<lambda>_. ginv U c)"
  unfolding LookupLink_def by (intro ginv_lock_triple triple_conseq [OF ginv_lookup_triple]) auto

lemma ginv_LinkedPAMUsers: "triple (ginv U c) (LinkedPAMUsers c) (\<lambda>_. ginv U c)"
  unfolding LinkedPAMUsers_def
  by (intro ginv_lock_triple triple_bind [OF ginv_readLinks_triple] triple_pure triple_return; simp)

lemma ginv_UnlinkPAM: "triple (ginv U c) (UnlinkPAM c pam) (\<lambda>_. ginv U c)"
proof -
  have f: "granted_links U (Inr ls) \<Longrightarrow>
      list_all valid_link (filter P ls) \<and> distinct (link_keys (filter P ls)) \<and>
      list_all (\<lambda>l. user_ok U (l_PAMUser l)) (filter P ls)" for P ls
    by (auto simp: granted_links_def good_links_def list_all_iff link_keys_def distinct_map_filter)
  show ?thesis
    unfolding UnlinkPAM_def clearSessionPAMLocked_def Let_def
    by (intro triple_if triple_return ginv_lock_triple triple_bind [OF ginv_readLinks_triple] triple_pure triple_sum
          triple_bind [OF ginv_writeLinks_triple] triple_bind [OF ginv_clear_triple])
       (use f in auto)
qed

lemma ginv_SaveLinkedSession:
  assumes "session_ok U s" "valid_utf8 u" "user_ok U u"
  shows "triple (ginv U c) (SaveLinkedSession c s u rnd) (\<lambda>_. ginv U c)"
proof -
  have v: "valid_utf8 (s_Iss s)" "valid_utf8 (s_Sub s)" "session_ok U (s\<lparr>s_ID := hex_encode b, s_PAMUser := u\<rparr>)" for b
    using assms valid_utf8_ascii [OF hex_encode_ascii] by (simp_all add: session_ok_def valid_session_def)
  have rm: "triple (ginv U c) (\<lambda>w3. case sessionPath i of None \<Rightarrow> (Inr (), w3)
      | Some path \<Rightarrow> if i \<noteq> j then remove_quiet path w3 else (Inr (), w3)) (\<lambda>_. ginv U c)" for i j
    by (cases "sessionPath i") (auto intro!: triple_if triple_return ginv_remove_quiet_triple dest!: sessionPath_Some)
  show ?thesis
    unfolding SaveLinkedSession_def saveLinkedLocked_def randomID_def Let_def
    by (rule ginv_lock_triple, cases rnd)
       (auto intro!: triple_bind [OF ginv_lookup_triple] triple_pure triple_return triple_sum
          triple_bind [OF ginv_setLink_triple] triple_bind [OF ginv_save_triple] triple_bind [OF rm]
          triple_bind [OF ginv_clearSubject_triple] triple_if v assms)
qed

end

end
