(* ===== verification/Web_Properties.thy ===== *)
theory Web_Properties
  imports Web_Demo Store_Grants
begin

text \<open>
  Properties of the server as a whole: what every response looks like, and who may reach the
  files of a Unix user after any sequence of requests.
\<close>

section \<open>Responses\<close>

text \<open>The actions one request causes.\<close>

definition answer :: "'w env \<Rightarrow> string \<Rightarrow> request \<Rightarrow> 'w srv \<Rightarrow> action list" where
  "answer e style r s = sv_out (snd (run_state (ServeHTTP e style r) (s\<lparr>sv_out := []\<rparr>)))"

definition security_headers :: "action list" where
  "security_headers = [SetHeader ''X-Content-Type-Options'' ''nosniff'', SetHeader ''Referrer-Policy'' ''same-origin'',
     SetHeader ''Content-Security-Policy'' (''frame-ancestors '' @ [CHR 0x27] @ ''none'' @ [CHR 0x27])]"

definition answers :: "'w env \<Rightarrow> Config \<Rightarrow> action list \<Rightarrow> 'w srv \<Rightarrow> bool" where
  "answers e cfg pre s \<longleftrightarrow> sv_cfg s = cfg \<and> (\<exists>rest. sv_out s = pre @ rest \<and> list_all (action_ok e cfg) rest)"

interpretation responses: web_inv e cfg "answers e cfg pre" "\<lambda>_. True" "\<lambda>_. True" "\<lambda>_. True"
  for e :: "'w env" and cfg pre
  by unfold_locales (auto simp: answers_def)


section \<open>Histories\<close>

text \<open>
  A history of the server: requests, new configurations, \<open>bootstash unlink\<close>, and the environment
  choosing which calls on the state directory fail. \<open>A\<close> is the set of Unix users that have been
  proved by a password so far.
\<close>

inductive served :: "'w env \<Rightarrow> string \<Rightarrow> 'w srv \<Rightarrow> string set \<Rightarrow> 'w srv \<Rightarrow> bool" for e style s0 where
  Start: "served e style s0 {} s0"
| Request: "served e style s0 A s \<Longrightarrow>
    served e style s0 (A \<union> {u. logged_in e (sv_cfg s) r u}) (snd (run_state (ServeHTTP e style r) s))"
| Reload: "served e style s0 A s \<Longrightarrow> served e style s0 A (snd (run_state (SetConfig e cfg) s))"
| Unlink: "served e style s0 A s \<Longrightarrow>
    served e style s0 A (s\<lparr>sv_store := snd (UnlinkPAM (v_codec e) u (sv_store s))\<rparr>)"
| Faults: "served e style s0 A s \<Longrightarrow> served e style s0 A (s\<lparr>sv_store := (sv_store s)\<lparr>od_faults := fs\<rparr>\<rparr>)"

text \<open>The documented behaviour of the environment this rests on.\<close>

definition passwd_names :: "'w env \<Rightarrow> bool" where
  "passwd_names e \<longleftrightarrow> (\<forall>n m us gs. v_users e n = Some (m, us, gs) \<longrightarrow> m = n)"

definition identity_text :: "oidc_identity \<Rightarrow> bool" where
  "identity_text i \<longleftrightarrow> valid_utf8 (id_Issuer i) \<and> valid_utf8 (id_Subject i) \<and> valid_utf8 (id_Email i)"

definition identities_text :: "'w env \<Rightarrow> bool" where
  "identities_text e \<longleftrightarrow> (\<forall>ii \<in> set (v_ids e). \<forall>p code nonce uri v w i. id_IDP ii = Some p \<longrightarrow>
     fst (i_Exchange p code nonce uri v w) = Some (Some i) \<longrightarrow> identity_text i)"

definition known :: "string set \<Rightarrow> string \<Rightarrow> bool" where
  "known A u \<longleftrightarrow> valid_utf8 u \<and> u \<in> A"

definition users_in :: "'w env \<Rightarrow> Config \<Rightarrow> string set \<Rightarrow> 'w srv \<Rightarrow> bool" where
  "users_in e cfg A s \<longleftrightarrow> json_codec (v_codec e) \<and> identities_text e \<and> sv_cfg s = cfg \<and>
     ginv (known A) (v_codec e) (sv_store s)"

lemma NormalizeEmail_valid: "NormalizeEmail ct s = Some m \<Longrightarrow> valid_utf8 m"
  by (auto simp: NormalizeEmail_def ToLower_def Let_def valid_utf8_to_lower split: if_splits)

interpretation users: web_inv e cfg "users_in e cfg A" "known A" "session_ok (known A)"
  "\<lambda>i. identities_text e \<longrightarrow> identity_text i"
  for e :: "'w env" and cfg A
proof (unfold_locales, goal_cases)
  case (6 s i now r d)
  then show ?case using tripleD [OF json_codec.ginv_GetSession] by (fastforce simp: users_in_def)
next
  case (7 s i ru d)
  then show ?case using tripleD [OF json_codec.ginv_DeleteSession] by (fastforce simp: users_in_def)
next
  case (8 s iss sub rl d)
  then show ?case using tripleD [OF json_codec.ginv_LookupLink] by (fastforce simp: users_in_def)
next
  case (9 s ident email ru d)
  then have j: "json_codec (v_codec e)" "valid_utf8 email" "valid_utf8 (id_Issuer ident)" "valid_utf8 (id_Subject ident)"
    and g: "ginv (known A) (v_codec e) (sv_store s)"
    by (simp_all add: users_in_def identity_text_def NormalizeEmail_valid)
  from tripleD [OF json_codec.ginv_BindSubject [OF j] g 9(4)] 9(1) show ?case by (simp add: users_in_def)
next
  case (10 s ident ttl rnd now r d)
  then have "json_codec (v_codec e)" by (simp add: users_in_def)
  moreover have "valid_utf8 (case NormalizeEmail (v_case e) (id_Email ident) of Some n \<Rightarrow> n | None \<Rightarrow> id_Email ident)"
    using 10(1,2) by (auto simp: users_in_def identity_text_def NormalizeEmail_valid split: option.splits)
  ultimately have "ginv (known A) (v_codec e) d"
    using 10 tripleD [OF json_codec.ginv_CreateSession, OF _ _ _ _ _ 10(3)] by (simp add: users_in_def identity_text_def)
  with 10 show ?case by (simp add: users_in_def)
next
  case (11 s u ttl rnd now r d)
  then have j: "json_codec (v_codec e)" "valid_utf8 u" "user_ok (known A) u"
    by (auto simp: users_in_def known_def user_ok_def)
  with tripleD [OF json_codec.ginv_CreatePAMSession [OF j] _ 11(3)] 11(1) show ?case by (simp add: users_in_def)
next
  case (12 s t u rnd rs d)
  then have j: "json_codec (v_codec e)" "session_ok (known A) t" "valid_utf8 u" "user_ok (known A) u"
    by (auto simp: users_in_def known_def user_ok_def)
  with tripleD [OF json_codec.ginv_SaveLinkedSession [OF j] _ 12(4)] 12(1) show ?case by (simp add: users_in_def)
next
  case (13 ii p code nonce uri verifier w ident)
  then show ?case by (auto simp: identities_text_def)
qed (simp_all add: users_in_def)

text \<open>What every step of a history keeps of the state directory.\<close>

definition store_in :: "'w env \<Rightarrow> string set \<Rightarrow> 'w srv \<Rightarrow> bool" where
  "store_in e A s \<longleftrightarrow> ginv (known A) (v_codec e) (sv_store s)"

lemma store_in_mono: "store_in e A s \<Longrightarrow> A \<subseteq> B \<Longrightarrow> store_in e B s"
  unfolding store_in_def by (erule ginv_mono) (auto simp: known_def)

lemma logged_in_known:
  assumes "passwd_names e" "logged_in e cfg r u"
  shows "known {u} u"
proof -
  obtain w acct where u: "u = a_Name acct"
    and a: "fst (acceptLocalUser e (go_trim_space (rq_Form r ''username'')) (rq_Form r ''password'') w) = Inr acct"
    using assms(2) by (auto simp: logged_in_def accepted_def)
  then have l: "Lookup (v_users e) (go_trim_space (rq_Form r ''username'')) = Inr acct"
    by (auto simp: acceptLocalUser_def split: option.splits sum.splits prod.splits if_splits)
  then have "ValidUsername (go_trim_space (rq_Form r ''username''))" "a_Name acct = go_trim_space (rq_Form r ''username'')"
    using assms(1) by (auto simp: Lookup_def passwd_names_def split: option.splits if_splits)
  then show ?thesis using u ValidUsername_plain(2) by (simp add: known_def valid_utf8_ascii)
qed

lemma request_keeps:
  assumes "json_codec (v_codec e)" "passwd_names e" "identities_text e" "store_in e A s"
  shows "store_in e (A \<union> {u. logged_in e (sv_cfg s) r u}) (snd (run_state (ServeHTTP e style r) s))"
proof -
  let ?B = "A \<union> {u. logged_in e (sv_cfg s) r u}"
  have "known ?B u" if "logged_in e (sv_cfg s) r u" for u
    using logged_in_known [OF assms(2) that] that by (simp add: known_def)
  then have "preserves (users_in e (sv_cfg s) ?B) (ServeHTTP e style r)" by (rule users.ServeHTTP_preserves)
  moreover have "users_in e (sv_cfg s) ?B s"
    using assms store_in_mono [of e A s ?B] by (simp add: users_in_def store_in_def)
  ultimately show ?thesis using preservesD by (fastforce simp: users_in_def store_in_def)
qed

lemma store_in_sys: "preserves (store_in e A) (sys f)"
  unfolding preserves_def by (rule wtripleI) (auto simp: sys_def store_in_def split: prod.splits)

lemma reload_keeps:
  assumes "json_codec (v_codec e)"
  shows "preserves (store_in e A) (SetConfig e cfg)"
proof -
  have md: "preserves (store_in e A) (modify (\<lambda>s. s\<lparr>sv_cfg := cfg\<rparr>))"
    by (simp add: preserves_def wtriple_def triple_def modify_def store_in_def)
  have li: "preserves (store_in e A) (on_store (LinkedPAMUsers (v_codec e)))"
    unfolding preserves_def
  proof (rule wtripleI)
    fix s r s' assume s: "store_in e A s" "run_state (on_store (LinkedPAMUsers (v_codec e))) s = (r, s')"
    then obtain d where "LinkedPAMUsers (v_codec e) (sv_store s) = (r, d)" "s' = s\<lparr>sv_store := d\<rparr>"
      by (auto simp: on_store_def split: prod.splits)
    with tripleD [OF json_codec.ginv_LinkedPAMUsers [OF assms]] s(1) show "store_in e A s'"
      by (auto simp: store_in_def)
  qed
  have sc: "preserves (store_in e A) (set_client cfg i)" for i :: "'a Identity"
    unfolding set_client_def by (intro preserves_cases store_in_sys)
  show ?thesis
    unfolding SetConfig_def fixCubbies_def
    by (rule preserves_bind preserves_for_each preserves_cases md li sc store_in_sys)+
qed

lemma served_keeps:
  assumes "served e style s0 A s" "json_codec (v_codec e)" "passwd_names e" "identities_text e" "store_in e {} s0"
  shows "store_in e A s"
  using assms(1)
proof induction
  case Start
  show ?case by (rule assms(5))
next
  case (Request A s r)
  then show ?case using request_keeps assms by blast
next
  case (Reload A s cfg)
  then show ?case using preservesD [OF reload_keeps [OF assms(2)]] by blast
next
  case (Unlink A s u)
  then show ?case
    using tripleD [OF json_codec.ginv_UnlinkPAM [OF assms(2)]] by (cases "UnlinkPAM (v_codec e) u (sv_store s)") (auto simp: store_in_def)
next
  case (Faults A s fs)
  then show ?case using ginv_bytes [of "(sv_store s)\<lparr>od_faults := fs\<rparr>" "sv_store s"] by (simp add: store_in_def)
qed

text \<open>
  C33. Only a password opens the cubby of a Unix user: start from a state directory in which no
  session and no link names a Unix user, and let requests, configuration reloads, unlinks and
  failing file system calls follow in any order. A session that can be looked up then names no
  Unix user, or one whose password was accepted by PAM in a POST of the login form that passed
  the cross-site check.
\<close>

theorem pam_session_proved:
  assumes "json_codec (v_codec e)" "passwd_names e" "identities_text e" "store_in e {} s0"
    and "served e style s0 A s" "GetSession (v_codec e) i now (sv_store s) = (Inr t, d)" "s_PAMUser t \<noteq> []"
  shows "s_PAMUser t \<in> A"
proof -
  have "store_in e A s" by (rule served_keeps [OF assms(5,1,2,3,4)])
  then have "session_ok (known A) t"
    using tripleD [OF json_codec.ginv_GetSession [OF assms(1)] _ assms(6)] by (simp add: store_in_def)
  with assms(7) show ?thesis by (simp add: session_ok_def user_ok_def known_def)
qed

lemma demo_names: "passwd_names demo_env"
  by (auto simp: passwd_names_def demo_env_def demo_users_def split: if_splits)

lemma demo_identities: "identities_text demo_env"
  by (auto simp: identities_text_def demo_env_def demo_idp_def identity_text_def demo_identity_def
      valid_utf8_ascii is_ascii_def byte_of_def split: if_splits)

lemma demo_start: "store_in demo_env {} (demo_srv cfg)"
  by (auto simp: store_in_def demo_srv_def demo_env_def ginv_def granted_def st_empty_sinv sess_in_def table_def
      st_empty_bytes)

theorem pam_session_proved_witness: "''alice'' \<in> {u. logged_in demo_env pam_config login_request u}"
proof -
  have c: "json_codec (v_codec demo_env)" by (simp add: demo_env_def net.json_codec_axioms)
  have sv: "served demo_env [] (demo_srv pam_config) ({} \<union> {u. logged_in demo_env pam_config login_request u}) after_login"
    using served.Request [OF served.Start, of demo_env "[]" "demo_srv pam_config" login_request]
    by (simp add: after_login_def demo_srv_def)
  obtain t d where g: "GetSession (v_codec demo_env) (hex_encode [char_of (232::nat)]) 0 (sv_store after_login) = (Inr t, d)"
    "s_PAMUser t = ''alice''"
    using demo_session by (auto simp: demo_env_def)
  have n: "s_PAMUser t \<noteq> []" using g(2) by simp
  show ?thesis
    using pam_session_proved [OF c demo_names demo_identities demo_start sv g(1) n] g(2) by simp
qed

end
