(* ===== verification/Web_Trace.thy ===== *)
theory Web_Trace
  imports Web_Logic
begin

text \<open>
  The server on an environment that logs the calls of the kernel, and what the requests that
  change files do to that log. Everything else of the environment is \<open>quiet\<close>. \<open>logs A m\<close> says
  that the program \<open>m\<close> extends the log by calls that satisfy \<open>A\<close>.
\<close>

section \<open>A logging environment\<close>

definition traced_idp :: "'w idp \<Rightarrow> ('w \<times> event list) idp" where
  "traced_idp p = \<lparr>i_AuthCodeURL = (\<lambda>st nonce uri. quiet (i_AuthCodeURL p st nonce uri)),
     i_Exchange = (\<lambda>code nonce uri v. quiet (i_Exchange p code nonce uri v)),
     i_SetClient = map_option (\<lambda>g i secret. quiet (g i secret)) (i_SetClient p)\<rparr>"

definition traced_env :: "'w env \<Rightarrow> ('w \<times> event list) env" where
  "traced_env e = \<lparr>v_kernel = traced (v_kernel e), v_lstat = (\<lambda>p. quiet (v_lstat e p)),
     v_readdir = (\<lambda>p. quiet (v_readdir e p)), v_mkdirall = (\<lambda>p m. quiet (v_mkdirall e p m)),
     v_chmod = (\<lambda>p m. quiet (v_chmod e p m)), v_read = (\<lambda>d n. quiet (v_read e d n)),
     v_now = quiet (v_now e), v_rand = (\<lambda>n. quiet (v_rand e n)), v_keypair = (\<lambda>c k. quiet (v_keypair e c k)),
     v_users = v_users e, v_groups = v_groups e,
     v_auth = map_option (\<lambda>a u p. quiet (a u p)) (v_auth e), v_codec = v_codec e, v_case = v_case e,
     v_sha256 = v_sha256 e, v_mac = v_mac e, v_key = v_key e,
     v_ids = map (\<lambda>i. \<lparr>id_Name = id_Name i, id_Label = id_Label i, id_IDP = map_option traced_idp (id_IDP i)\<rparr>) (v_ids e),
     v_mime = v_mime e, v_rng = v_rng e, v_depth = v_depth e, v_order = v_order e\<rparr>"

lemma traced_env_simps [simp]:
  "v_kernel (traced_env e) = traced (v_kernel e)" "v_lstat (traced_env e) p = quiet (v_lstat e p)"
  "v_now (traced_env e) = quiet (v_now e)" "v_rand (traced_env e) n = quiet (v_rand e n)"
  "v_users (traced_env e) = v_users e" "v_groups (traced_env e) = v_groups e" "v_codec (traced_env e) = v_codec e"
  "v_case (traced_env e) = v_case e" "v_sha256 (traced_env e) = v_sha256 e"
  by (simp_all add: traced_env_def)

lemma emailHomeID_traced [simp]: "emailHomeID (traced_env e) cfg sess = emailHomeID e cfg sess"
  unfolding emailHomeID_def traced_env_simps by (rule refl)

lemma sessionHasCubby_traced [simp]: "sessionHasCubby (traced_env e) cfg sess = sessionHasCubby e cfg sess"
  unfolding sessionHasCubby_def emailHomeID_traced by (rule refl)

lemma emailCubbyOK_quiet: "emailCubbyOK (traced_env e) cfg i = quiet (emailCubbyOK e cfg i)"
  by (rule ext) (auto simp: emailCubbyOK_def quiet_def split: prod.splits sum.splits)

lemma jailPath_quiet: "jailPath (traced_env e) cfg sess = quiet (jailPath e cfg sess)"
  by (rule ext) (auto simp: jailPath_def emailCubbyOK_quiet quiet_def split: prod.splits option.splits)

section \<open>Programs and the log\<close>

definition log_of :: "('w \<times> event list) srv \<Rightarrow> event list" where
  "log_of s = snd (sv_world s)"

definition logs :: "(event list \<Rightarrow> bool) \<Rightarrow> ('w \<times> event list, 'a) web \<Rightarrow> bool" where
  "logs A m \<longleftrightarrow> (\<forall>s. \<exists>es. log_of (snd (run_state m s)) = log_of s @ es \<and> A es)"

definition silent :: "event list \<Rightarrow> bool" where
  "silent es \<longleftrightarrow> es = []"

definition within :: "int \<Rightarrow> event list \<Rightarrow> bool" where
  "within root es \<longleftrightarrow> confined root {} es"

lemma silent_within: "silent es \<Longrightarrow> within root es"
  by (simp add: silent_def within_def)

lemma logs_mono: "logs A m \<Longrightarrow> (\<And>es. A es \<Longrightarrow> B es) \<Longrightarrow> logs B m"
  unfolding logs_def by blast

text \<open>The predicates that hold of no calls and of two stretches together when they hold of each.\<close>

definition closed :: "(event list \<Rightarrow> bool) \<Rightarrow> bool" where
  "closed A \<longleftrightarrow> A [] \<and> (\<forall>es fs. A es \<longrightarrow> A fs \<longrightarrow> A (es @ fs))"

lemma closed_silent: "closed silent"
  by (simp add: closed_def silent_def)

lemma closed_within: "closed (within root)"
  by (auto simp: closed_def within_def confined_append intro: confined_mono)

lemma logs_ret: "closed A \<Longrightarrow> logs A (ret a)"
  by (auto simp: logs_def closed_def)

lemma logs_gets: "closed A \<Longrightarrow> logs A (gets f)"
  by (auto simp: logs_def closed_def gets_def)

lemma logs_bind:
  assumes "closed A" "logs A m" "\<And>a. logs A (f a)"
  shows "logs A (State_Monad.bind m f)"
proof (unfold logs_def, intro allI)
  fix s
  obtain a s1 where m: "run_state m s = (a, s1)" by (cases "run_state m s") blast
  from assms(2) obtain es where "log_of (snd (run_state m s)) = log_of s @ es" "A es" unfolding logs_def by blast
  then have es: "log_of s1 = log_of s @ es" "A es" using m by simp_all
  obtain fs where fs: "log_of (snd (run_state (f a) s1)) = log_of s1 @ fs" "A fs" using assms(3) unfolding logs_def by blast
  show "\<exists>es. log_of (snd (run_state (State_Monad.bind m f) s)) = log_of s @ es \<and> A es"
    using m es fs assms(1) by (intro exI [of _ "es @ fs"]) (auto simp: closed_def)
qed

lemma logs_modify: "closed A \<Longrightarrow> (\<And>s. sv_world (f s) = sv_world s) \<Longrightarrow> logs A (modify f)"
  by (auto simp: logs_def closed_def modify_def log_of_def)

lemma logs_emit: "closed A \<Longrightarrow> logs A (emit x)"
  unfolding emit_def by (rule logs_modify) simp_all

lemma logs_store: "closed A \<Longrightarrow> logs A (on_store f)"
  by (auto simp: logs_def closed_def on_store_def log_of_def split: prod.splits)

lemma logs_quiet: "closed A \<Longrightarrow> logs A (sys (quiet f))"
  by (auto simp: logs_def closed_def sys_def log_of_def quiet_def split: prod.splits)

lemma logs_confines:
  fixes f :: "'w \<Rightarrow> 'a \<times> 'w"
  assumes "confines root {} P f g"
  shows "logs (within root) (sys g)"
proof (unfold logs_def, intro allI)
  fix s :: "('w \<times> event list) srv"
  obtain w t where w: "sv_world s = (w, t)" by (cases "sv_world s") blast
  from assms obtain es where "g (w, t) = (fst (f w), snd (f w), t @ es)" "confined root {} es"
    unfolding confines_def by blast
  then show "\<exists>es. log_of (snd (run_state (sys g) s)) = log_of s @ es \<and> within root es"
    using w by (simp add: sys_def log_of_def within_def)
qed

lemma logs_if: "(b \<Longrightarrow> logs A m) \<Longrightarrow> (\<not> b \<Longrightarrow> logs A n) \<Longrightarrow> logs A (if b then m else n)"
  by simp

lemma logs_option:
  "(x = None \<Longrightarrow> logs A m) \<Longrightarrow> (\<And>a. x = Some a \<Longrightarrow> logs A (f a)) \<Longrightarrow> logs A (case x of None \<Rightarrow> m | Some a \<Rightarrow> f a)"
  by (cases x) simp_all

lemma logs_sum:
  "(\<And>a. x = Inl a \<Longrightarrow> logs A (f a)) \<Longrightarrow> (\<And>b. x = Inr b \<Longrightarrow> logs A (g b)) \<Longrightarrow>
   logs A (case x of Inl a \<Rightarrow> f a | Inr b \<Rightarrow> g b)"
  by (cases x) simp_all

lemma logs_prod: "(\<And>a b. x = (a, b) \<Longrightarrow> logs A (f a b)) \<Longrightarrow> logs A (case x of (a, b) \<Rightarrow> f a b)"
  by (cases x) simp

lemma logs_Let: "(\<And>x. x = t \<Longrightarrow> logs A (f x)) \<Longrightarrow> logs A (Let t f)"
  by simp

lemmas logs_steps = logs_bind logs_ret logs_gets logs_emit logs_store logs_quiet logs_if logs_option logs_sum logs_prod logs_Let

section \<open>Pages\<close>

lemma logs_session: "closed A \<Longrightarrow> logs A (request_session (traced_env e) r)"
  unfolding request_session_def traced_env_simps by (intro logs_steps)

lemma logs_setCookie: "closed A \<Longrightarrow> logs A (setCookie n v m)"
  unfolding setCookie_def by (intro logs_steps)

lemma logs_setNotice: "closed A \<Longrightarrow> logs A (setNotice k)"
  unfolding setNotice_def by (intro logs_steps logs_setCookie)

lemma logs_renderAt: "closed A \<Longrightarrow> logs A (renderAt n d c)"
  unfolding renderAt_def by (intro logs_steps)

lemma logs_replyError: "closed A \<Longrightarrow> logs A (replyError (traced_env e) r c m)"
  unfolding replyError_def by (intro logs_steps logs_session logs_renderAt)

lemma logs_requireCSRF: "closed A \<Longrightarrow> logs A (requireCSRF (traced_env e) r)"
  unfolding requireCSRF_def by (intro logs_steps logs_replyError)

end
