(* ===== verification/Web_Confinement.thy ===== *)
theory Web_Confinement
  imports Web_Trace Session_Store Web_Demo
begin

text \<open>
  What a request that is not GET or HEAD may do to files: only in the directory of its session,
  and nothing at all when it comes from another site.
\<close>

section \<open>Changes stay below the root of the jail\<close>

lemmas within_steps = logs_bind [OF closed_within] logs_ret [OF closed_within] logs_gets [OF closed_within]
  logs_emit [OF closed_within] logs_store [OF closed_within] logs_quiet [OF closed_within]
  logs_if logs_option logs_sum logs_prod logs_Let

lemmas within_pages = logs_setCookie [OF closed_within] logs_setNotice [OF closed_within]
  logs_replyError [OF closed_within] logs_requireCSRF [OF closed_within]

lemma within_refusals:
  "logs (within d) (see_other key url)" "logs (within d) (statusFromJail err)"
  "logs (within d) (formFail r pfx rel key plain c)" "logs (within d) (jailFail r pfx rel err)"
  unfolding see_other_def statusFromJail_def formFail_def jailFail_def
  by (intro within_steps within_pages)+

lemma chownRel_confined:
  "confines (r_fd root) S any_post (chownRel e cfg root rel u) (chownRel (traced_env e) cfg root rel u)"
proof -
  have ch: "confines (r_fd root) S any_post
      (\<lambda>w. case Jail.Chown (v_kernel e) root rel i g w of (_, w1) \<Rightarrow> ((), w1))
      (\<lambda>w. case Jail.Chown (traced (v_kernel e)) root rel i g w of (_, w1) \<Rightarrow> ((), w1))" for i g
    by (intro confines_bind [OF Chown_confined] confines_return; simp)
  then show ?thesis
    unfolding chownRel_def traced_env_simps unixGid_def
    by (intro confines_intros confines_return ch; simp)
qed

lemma within_jail:
  "logs (within (r_fd root)) (sys (Replace (v_kernel (traced_env e)) root rel p rnd body err))"
  "logs (within (r_fd root)) (sys (Mkdir (v_kernel (traced_env e)) root rel p))"
  "logs (within (r_fd root)) (sys (Remove (v_kernel (traced_env e)) root rel))"
  "logs (within (r_fd root)) (sys (chownRel (traced_env e) cfg root rel u))"
  unfolding traced_env_simps
  by (rule logs_confines [OF Replace_confined] logs_confines [OF Mkdir_confined] logs_confines [OF Remove_confined]
      logs_confines [OF chownRel_confined])+

lemma within_rand: "logs (within d) (sys (v_rand (traced_env e) n))"
  unfolding traced_env_simps by (rule logs_quiet [OF closed_within])

lemmas within_intros = within_steps within_pages within_refusals within_jail within_rand

lemma within_replace: "logs (within (r_fd root)) (replace_from (traced_env e) root rel body)"
  unfolding replace_from_def by (intro within_intros)

lemma within_put: "logs (within (r_fd root)) (servePut (traced_env e) r root rel t)"
  unfolding servePut_def by (intro within_intros within_replace)

lemma within_mkdir: "logs (within (r_fd root)) (mkdir_chown (traced_env e) root rel t)"
  unfolding mkdir_chown_def by (intro within_intros)

lemma within_delete: "logs (within (r_fd root)) (serveDelete (traced_env e) root rel redirect)"
  unfolding serveDelete_def by (intro within_intros)

lemma within_forms:
  "logs (within (r_fd root)) (doMkdir (traced_env e) r root pfx rel name t)"
  "logs (within (r_fd root)) (doDeleteForm (traced_env e) r root pfx rel name)"
  "logs (within (r_fd root)) (post_upload (traced_env e) r root pfx rel t mp)"
  unfolding doMkdir_def doDeleteForm_def post_upload_def
  by (intro within_intros within_mkdir within_delete within_replace)+

lemma within_post: "logs (within (r_fd root)) (servePost (traced_env e) r root pfx rel t)"
  unfolding servePost_def by (intro within_intros within_forms)

lemma within_method: "\<not> reads r \<Longrightarrow> logs (within (r_fd root)) (files_method (traced_env e) r root rel t)"
  unfolding files_method_def guarded_def not_allowed_def
  by (intro within_intros within_put within_post within_delete) simp_all

section \<open>Only the directory of the session\<close>

text \<open>The directory a session owns, and a session the cookie of a request names in a store.\<close>

definition own_dir :: "'w env \<Rightarrow> Config \<Rightarrow> session \<Rightarrow> string \<Rightarrow> bool" where
  "own_dir e cfg t p \<longleftrightarrow>
     (if s_PAMUser t \<noteq> [] then ValidUsername (s_PAMUser t) \<and> p = path_join [Data cfg, ''users'', s_PAMUser t]
      else (\<exists>i. emailHomeID e cfg (Some t) = Some i \<and> validCubbyID i \<and> p = path_join [Data cfg, ''home'', i]))"

definition named_session :: "'w env \<Rightarrow> Config \<Rightarrow> request \<Rightarrow> osdir \<Rightarrow> session \<Rightarrow> bool" where
  "named_session e cfg r d t \<longleftrightarrow> (\<exists>v now. v \<noteq> [] \<and> Cookie r (cookieName cfg) = Some v \<and>
     fst (GetSession (v_codec e) v now d) = Inr t)"

text \<open>No call, or opening the directory of session \<open>t\<close> and then calls confined below it.\<close>

definition own_calls :: "'w env \<Rightarrow> Config \<Rightarrow> session \<Rightarrow> event list \<Rightarrow> bool" where
  "own_calls e cfg t es \<longleftrightarrow> es = [] \<or>
     (\<exists>p ro fs. es = EvOpenPath p ro # fs \<and> own_dir e cfg t p \<and>
        (case ro of Inl _ \<Rightarrow> fs = [] | Inr fd \<Rightarrow> confined fd {} fs))"

lemma jailPath_own:
  assumes "jailPath e cfg (Some t) w = (Some p, w')"
  shows "own_dir e cfg t p"
  using assms
  by (auto simp: jailPath_def own_dir_def emailCubbyOK_def split: if_splits option.splits prod.splits)

lemma session_quiet:
  assumes "run_state (request_session (traced_env e) r) s = (sess, s1)"
  shows "log_of s1 = log_of s" "sv_cfg s1 = sv_cfg s" "sess = Some t \<Longrightarrow> named_session e (sv_cfg s) r (sv_store s) t"
  using assms
  by (auto simp: request_session_def gets_def sys_def on_store_def quiet_def log_of_def named_session_def
      split: option.splits if_splits prod.splits sum.splits) (metis fst_conv)+

lemma logs_silent_run: "logs silent m \<Longrightarrow> log_of (snd (run_state m s)) = log_of s"
  unfolding logs_def silent_def by (metis append_Nil2)

lemma close_root_within: "logs (within (r_fd root)) (sys (close_root (traced k) root))"
proof -
  have "confines (r_fd root) {} any_post (close_root k root) (close_root (traced k) root)"
    unfolding close_root_def CloseRoot_def confines_def
    by (auto simp: traced_def logged_def split: prod.splits)
  then show ?thesis by (rule logs_confines)
qed

lemma serve_files_calls:
  assumes "\<not> reads r"
  shows "\<exists>es. log_of (snd (run_state (serve_files (traced_env e) r t rel) s)) = log_of s @ es \<and>
    own_calls e (sv_cfg s) t es"
proof -
  obtain w l where w: "sv_world s = (w, l)" by (cases "sv_world s") blast
  obtain p w1 where p: "jailPath e (sv_cfg s) (Some t) w = (p, w1)" by (cases "jailPath e (sv_cfg s) (Some t) w") blast
  show ?thesis
  proof (cases p)
    case None
    with p w assms show ?thesis
      using logs_silent_run [OF logs_replyError [OF closed_silent], of e r 404 no_files]
      by (simp add: serve_files_def gets_def sys_def jailPath_quiet quiet_def own_calls_def log_of_def)
  next
    case (Some d)
    have own: "own_dir e (sv_cfg s) t d" by (rule jailPath_own [OF p [unfolded Some]])
    obtain ro w2 where k: "k_open (v_kernel e) d (o_rdonly\<lparr>of_directory := True, of_cloexec := True\<rparr>) w1 = (ro, w2)"
      by (cases "k_open (v_kernel e) d (o_rdonly\<lparr>of_directory := True, of_cloexec := True\<rparr>) w1") blast
    let ?s2 = "s\<lparr>sv_world := (w2, l @ [EvOpenPath d ro])\<rparr>"
    show ?thesis
    proof (cases ro)
      case (Inl err)
      have "log_of (snd (run_state (replyError (traced_env e) r 404 no_files) ?s2)) = l @ [EvOpenPath d ro]"
        using logs_silent_run [OF logs_replyError [OF closed_silent], of e r 404 no_files ?s2] by (simp add: log_of_def)
      with Inl p w k Some own assms show ?thesis
        by (auto simp: serve_files_def gets_def sys_def jailPath_quiet quiet_def OpenRoot_def own_calls_def
            traced_def logged_def log_of_def)
    next
      case (Inr fd)
      let ?root = "\<lparr>r_fd = fd, r_name = d\<rparr>"
      let ?m = "do { _ \<leftarrow> files_method (traced_env e) r ?root rel t; sys (close_root (traced (v_kernel e)) ?root) }"
      have "logs (within fd) ?m"
        using logs_bind [OF closed_within within_method [OF assms, of ?root] close_root_within [of ?root]] by simp
      then obtain fs where "log_of (snd (run_state ?m ?s2)) = log_of ?s2 @ fs" "confined fd {} fs"
        unfolding logs_def within_def by blast
      then have fs: "log_of (snd (run_state ?m ?s2)) = l @ EvOpenPath d ro # fs" "confined fd {} fs"
        by (simp_all add: log_of_def)
      have "run_state (serve_files (traced_env e) r t rel) s = run_state ?m ?s2"
        using p w k Some Inr assms
        by (simp add: serve_files_def gets_def sys_def jailPath_quiet quiet_def OpenRoot_def traced_def logged_def)
      then show ?thesis
        using fs own w Inr by (intro exI [of _ "EvOpenPath d ro # fs"]) (auto simp: own_calls_def log_of_def)
    qed
  qed
qed


definition traced_srv :: "'w srv \<Rightarrow> ('w \<times> event list) srv" where
  "traced_srv s = \<lparr>sv_cfg = sv_cfg s, sv_store = sv_store s, sv_cert = sv_cert s, sv_manager = sv_manager s,
     sv_sockets = sv_sockets s, sv_oauth = sv_oauth s, sv_tickets = sv_tickets s, sv_world = (sv_world s, []),
     sv_out = sv_out s\<rparr>"

text \<open>Alice, signed in, uploads a file.\<close>

definition put_request :: request where
  "put_request = req0\<lparr>rq_Method := m_put, rq_Path := ''/home/f'',
     rq_Header := (\<lambda>h. if h = ''Origin'' then ''https://h'' else []),
     rq_Cookies := [(''__Host-bootstash'', hex_encode [char_of (232::nat)])]\<rparr>"

lemma demo_put_log:
  "log_of (snd (run_state (ServeHTTP (traced_env demo_env) [] put_request) (traced_srv after_login))) =
     [EvOpenPath ''/d/users/alice'' (Inl EACCES)]"
  by code_simp


section \<open>Requests from another site\<close>

text \<open>The calls that change a file, a directory, a mode or an owner.\<close>

fun mutates :: "event \<Rightarrow> bool" where
  "mutates (EvMkdirat d n) = True"
| "mutates (EvUnlinkat d n) = True"
| "mutates (EvRenameat d n d' n') = True"
| "mutates (EvFchmod d) = True"
| "mutates (EvFchown d) = True"
| "mutates (EvWrite d) = True"
| "mutates (EvOpenat d n fl r) = (of_wronly fl \<or> of_creat fl \<or> of_trunc fl)"
| "mutates _ = False"

fun sets_cookie :: "action \<Rightarrow> bool" where
  "sets_cookie (SetCookie ck) = True"
| "sets_cookie _ = False"

definition shrunk :: "osdir \<Rightarrow> osdir \<Rightarrow> bool" where
  "shrunk d0 d \<longleftrightarrow> (\<forall>n. bytes d n = bytes d0 n \<or> bytes d n = None)"

text \<open>What such a request leaves of the server: an expired session may be removed, nothing else.\<close>

definition calm :: "('w \<times> event list) srv \<Rightarrow> ('w \<times> event list) srv \<Rightarrow> bool" where
  "calm s0 s \<longleftrightarrow> sv_cfg s = sv_cfg s0 \<and> sv_tickets s = sv_tickets s0 \<and> sv_oauth s = sv_oauth s0 \<and>
     sv_cert s = sv_cert s0 \<and> sv_manager s = sv_manager s0 \<and> sv_sockets s = sv_sockets s0 \<and>
     shrunk (sv_store s0) (sv_store s) \<and>
     (\<exists>acts. sv_out s = sv_out s0 @ acts \<and> \<not> list_ex sets_cookie acts) \<and>
     (\<exists>es. log_of s = log_of s0 @ es \<and> \<not> list_ex mutates es)"

lemma calm_refl: "calm s s"
  by (auto simp: calm_def shrunk_def intro: exI [of _ "[]"])

lemma calm_emit: "\<not> sets_cookie a \<Longrightarrow> preserves (calm s0) (emit a)"
  unfolding preserves_def
  by (rule wtripleI) (auto simp: emit_def modify_def calm_def log_of_def)

lemma calm_quiet: "preserves (calm s0) (sys (quiet f))"
  unfolding preserves_def
  by (rule wtripleI) (auto simp: sys_def quiet_def calm_def log_of_def split: prod.splits)

lemma calm_open: "preserves (calm s0) (sys (OpenRoot (traced k) p))"
  unfolding preserves_def
proof (rule wtripleI)
  fix s a s' assume s: "calm s0 s" "run_state (sys (OpenRoot (traced k) p)) s = (a, s')"
  then obtain w w' ro where "s' = s\<lparr>sv_world := (w', log_of s @ [EvOpenPath p ro])\<rparr>"
    by (cases "sv_world s") (auto simp: sys_def OpenRoot_def traced_def logged_def log_of_def split: prod.splits sum.splits)
  with s(1) show "calm s0 s'" by (auto simp: calm_def log_of_def)
qed

lemma calm_close: "preserves (calm s0) (sys (close_root (traced k) root))"
  unfolding preserves_def
proof (rule wtripleI)
  fix s a s' assume s: "calm s0 s" "run_state (sys (close_root (traced k) root)) s = (a, s')"
  show "calm s0 s'"
  proof (cases "r_fd root < 0")
    case True
    with s show ?thesis by (simp add: sys_def close_root_def CloseRoot_def)
  next
    case False
    with s(2) obtain w' where "s' = s\<lparr>sv_world := (w', log_of s @ [EvClose (r_fd root)])\<rparr>"
      by (cases "sv_world s") (auto simp: sys_def close_root_def CloseRoot_def traced_def logged_def log_of_def
          split: prod.splits)
    with s(1) show ?thesis by (auto simp: calm_def log_of_def)
  qed
qed

lemma GetSession_shrinks:
  assumes "GetSession c i now d = (r, d')"
  shows "shrunk d d'"
proof (cases "sessionPath i")
  case (Some p)
  obtain r1 d1 where d1: "os_read_file p d = (r1, d1)" by force
  obtain r2 d2 where d2: "os_remove p d1 = (r2, d2)" by force
  have "bytes d1 = bytes d" using os_keep(5) [OF d1] .
  moreover have "shrunk d1 d2" using os_remove_bytes [OF d2] by (metis shrunk_def)
  moreover have "d' = d1 \<or> d' = d2"
    using assms Some d1 d2 by (auto simp: GetSession_def split: sum.splits option.splits if_splits)
  ultimately show ?thesis by (auto simp: shrunk_def)
qed (use assms in \<open>simp add: GetSession_def shrunk_def\<close>)

lemma calm_get: "preserves (calm s0) (on_store (GetSession c i now))"
  unfolding preserves_def
proof (rule wtripleI)
  fix s a s' assume s: "calm s0 s" "run_state (on_store (GetSession c i now)) s = (a, s')"
  then obtain d where d: "GetSession c i now (sv_store s) = (a, d)" "s' = s\<lparr>sv_store := d\<rparr>"
    by (auto simp: on_store_def split: prod.splits)
  have "shrunk (sv_store s0) d"
    using s(1) GetSession_shrinks [OF d(1)] unfolding calm_def shrunk_def by metis
  with s(1) d(2) show "calm s0 s'" by (simp add: calm_def log_of_def)
qed

lemmas calm_steps = preserves_bind preserves_cases calm_quiet calm_open calm_close calm_get

lemma calm_session: "preserves (calm s0) (request_session (traced_env e) r)"
  unfolding request_session_def traced_env_simps by (intro calm_steps)

lemma calm_replyError: "preserves (calm s0) (replyError (traced_env e) r c m)"
  unfolding replyError_def renderAt_def by (rule calm_steps calm_session calm_emit | simp)+

lemma calm_config: "preserves (calm s0) (f (sv_cfg s0)) \<Longrightarrow> preserves (calm s0) (State_Monad.bind config f)"
  by (auto simp: preserves_def wtriple_def triple_def gets_def calm_def)

lemma calm_guard:
  assumes "\<not> checkCSRF (sv_cfg s0) r" "preserves (calm s0) (f False)"
  shows "preserves (calm s0) (State_Monad.bind (requireCSRF (traced_env e) r) f)"
proof -
  have "State_Monad.bind (requireCSRF (traced_env e) r) f =
      State_Monad.bind config (\<lambda>cfg. State_Monad.bind
        (if checkCSRF cfg r then ret True else do { _ \<leftarrow> replyError (traced_env e) r 403 ''This request was rejected.''; ret False }) f)"
    unfolding requireCSRF_def by simp
  moreover have "preserves (calm s0) (State_Monad.bind (do { _ \<leftarrow> replyError (traced_env e) r 403 ''This request was rejected.''; ret False }) f)"
    using assms(2) by (simp add: preserves_bind [OF calm_replyError])
  ultimately show ?thesis using assms(1) by (simp add: calm_config)
qed

lemma calm_not_allowed: "preserves (calm s0) not_allowed"
  unfolding not_allowed_def by (rule calm_emit) simp

lemma calm_logout: "\<not> checkCSRF (sv_cfg s0) r \<Longrightarrow> preserves (calm s0) (handleLogout (traced_env e) r)"
  unfolding handleLogout_def by (rule preserves_if calm_guard calm_emit preserves_ret | simp)+

lemma calm_login:
  "\<not> checkCSRF (sv_cfg s0) r \<Longrightarrow> \<not> reads r \<Longrightarrow> preserves (calm s0) (handleLogin (traced_env e) r)"
  unfolding handleLogin_def handleLoginPost_def reads_def
  by (rule preserves_if preserves_bind [OF calm_session] calm_config calm_guard calm_not_allowed preserves_ret | simp)+

lemma calm_files_method:
  "\<not> checkCSRF (sv_cfg s0) r \<Longrightarrow> \<not> reads r \<Longrightarrow> preserves (calm s0) (files_method (traced_env e) r root rel t)"
  unfolding files_method_def guarded_def
  by (rule preserves_if calm_guard calm_not_allowed preserves_ret | simp)+

lemma calm_serve_files:
  assumes "\<not> checkCSRF (sv_cfg s0) r" "\<not> reads r"
  shows "preserves (calm s0) (serve_files (traced_env e) r t rel)"
  unfolding serve_files_def jailPath_quiet traced_env_simps
  by (rule preserves_bind [OF preserves_gets] preserves_bind [OF calm_quiet] preserves_bind [OF calm_open]
      preserves_bind [OF calm_files_method [OF assms]] preserves_if preserves_option preserves_sum calm_replyError calm_close
      preserves_bind [OF preserves_ret] | simp add: assms)+

lemma calm_files:
  assumes "\<not> checkCSRF (sv_cfg s0) r" "\<not> reads r"
  shows "preserves (calm s0) (handleFiles (traced_env e) r)"
  unfolding handleFiles_def
  by (rule preserves_bind [OF calm_session] preserves_bind [OF preserves_gets] preserves_option preserves_if calm_emit
      calm_serve_files [OF assms] | simp)+


text \<open>The upload of Alice, sent by another site with her cookie.\<close>

definition forged_request :: request where
  "forged_request = put_request\<lparr>rq_Header := (\<lambda>h. if h = ''Origin'' then ''https://evil'' else [])\<rparr>"


end
