(* ===== verification/Web_Signin.thy ===== *)
theory Web_Signin
  imports Web_Demo
begin

text \<open>
  Who gets a session from the provider's callback: only a browser that started the sign-in, with
  an identity the provider vouched for and the gate let through.
\<close>

section \<open>What a session rests on\<close>

definition session_cookie :: "Config \<Rightarrow> action \<Rightarrow> bool" where
  "session_cookie cfg a \<longleftrightarrow> (case a of SetCookie ck \<Rightarrow> ck_Name ck = cookieName cfg \<and> ck_Value ck \<noteq> [] | _ \<Rightarrow> False)"

text \<open>
  The policy of the gate: with an allowlist a verified listed address that the store pins to the
  identity; without one, PAM, or a linked identity, or a verified address.
\<close>

definition admitted :: "'w env \<Rightarrow> Config \<Rightarrow> oidc_identity \<Rightarrow> bool" where
  "admitted e cfg i \<longleftrightarrow>
     (let email = NormalizeEmail (v_case e) (id_Email i) in
      if AllowedEmails cfg \<noteq> [] then
        id_EmailVerified i \<and> (\<exists>m. email = Some m \<and> AllowsEmail (v_case e) cfg m \<and>
          (\<exists>d d'. BindSubject (v_codec e) m (id_Issuer i) (id_Subject i) d = (Inr (), d')))
      else PAM cfg \<or> (\<exists>d u. fst (LookupLink (v_codec e) (id_Issuer i) (id_Subject i) d) = Inr (Some u) \<and> u \<noteq> []) \<or>
        id_EmailVerified i \<and> email \<noteq> None)"

text \<open>The sign-in a callback completes: \<open>m0\<close> are the transactions before, \<open>m\<close> those after it.\<close>

definition completed :: "'w env \<Rightarrow> Config \<Rightarrow> request \<Rightarrow> oauthTx gomap \<Rightarrow> oauthTx gomap \<Rightarrow> oidc_identity \<Rightarrow> bool" where
  "completed e cfg r m0 m i \<longleftrightarrow>
     (\<exists>tx nonce provider verifier p. tx \<noteq> [] \<and> Cookie r (oauthCookieName cfg) = Some tx \<and>
        (\<exists>t. verifyState (v_mac e) (v_key e) (query r ''state'') t = Inr nonce) \<and>
        (\<exists>t. takeOauthTx tx t m0 = (Inr (nonce, provider, verifier), m)) \<and>
        activeIDP e cfg provider = Some p \<and>
        (\<exists>w. fst (i_Exchange p (query r ''code'') nonce (redirectURI cfg) verifier w) = Some (Some i)) \<and>
        admitted e cfg i)"

section \<open>Following the handler\<close>

text \<open>No session cookie so far, and these transactions.\<close>

definition unsigned :: "Config \<Rightarrow> oauthTx gomap \<Rightarrow> 'w srv \<Rightarrow> bool" where
  "unsigned cfg m s \<longleftrightarrow> sv_cfg s = cfg \<and> sv_oauth s = m \<and> \<not> list_ex (session_cookie cfg) (sv_out s)"

definition holds :: "Config \<Rightarrow> oauthTx gomap \<Rightarrow> 'w srv \<Rightarrow> bool" where
  "holds cfg m s \<longleftrightarrow> sv_cfg s = cfg \<and> sv_oauth s = m"

lemma unsigned_steps:
  "\<not> session_cookie cfg a \<Longrightarrow> preserves (unsigned cfg m) (emit a)"
  "preserves (unsigned cfg m) (sys g)" "preserves (unsigned cfg m) (on_store f)"
  unfolding preserves_def
  by (rule wtripleI, auto simp: emit_def modify_def sys_def on_store_def unsigned_def split: prod.splits)+

lemma holds_steps:
  "preserves (holds cfg m) (emit a)" "preserves (holds cfg m) (sys g)" "preserves (holds cfg m) (on_store f)"
  unfolding preserves_def
  by (rule wtripleI, auto simp: emit_def modify_def sys_def on_store_def holds_def split: prod.splits)+

lemma config_run:
  "wtriple P (f cfg) Q \<Longrightarrow> (\<And>s. P s \<Longrightarrow> sv_cfg s = cfg) \<Longrightarrow> wtriple P (State_Monad.bind config f) Q"
  by (auto simp: wtriple_def triple_def gets_def)

lemma cookie_names_differ: "oauthCookieName cfg \<noteq> cookieName cfg"
  by (simp add: oauthCookieName_def cookieName_def hostCookie_def)

lemma unsigned_fail: "preserves (unsigned cfg m) (loginFail e c msg)"
  unfolding loginFail_def renderAt_def
  by (rule preserves_bind preserves_gets preserves_if preserves_ret unsigned_steps | simp add: session_cookie_def)+

lemma unsigned_clear: "preserves (unsigned cfg m) (setCookie n [] age)"
  unfolding setCookie_def
  by (rule preserves_bind preserves_gets unsigned_steps | simp add: session_cookie_def)+

lemma wt_preserves:
  "preserves P m \<Longrightarrow> (\<And>s. P s \<Longrightarrow> Q s) \<Longrightarrow> wtriple P m (\<lambda>_. Q)"
  unfolding preserves_def by (rule wt_conseq)

text \<open>What a callback may end in: a session cookie is that of a session for the identity.\<close>

definition cookie_for :: "oidc_identity \<Rightarrow> action \<Rightarrow> bool" where
  "cookie_for i a \<longleftrightarrow> (\<exists>t :: session. s_Iss t = id_Issuer i \<and> s_Sub t = id_Subject i \<and>
     (case a of SetCookie ck \<Rightarrow> ck_Value ck = s_ID t | _ \<Rightarrow> False))"

lemma cookie_forI:
  fixes t :: session
  assumes "s_Iss t = id_Issuer i" "s_Sub t = id_Subject i" "ck_Value ck = s_ID t"
  shows "cookie_for i (SetCookie ck)"
  unfolding cookie_for_def using assms by (intro exI [of _ t]) simp

definition signed_in :: "'w env \<Rightarrow> Config \<Rightarrow> request \<Rightarrow> oauthTx gomap \<Rightarrow> 'w srv \<Rightarrow> bool" where
  "signed_in e cfg r m0 s \<longleftrightarrow>
     (\<forall>a \<in> set (sv_out s). session_cookie cfg a \<longrightarrow> (\<exists>i. completed e cfg r m0 (sv_oauth s) i \<and> cookie_for i a))"

lemma unsigned_signed: "unsigned cfg m s \<Longrightarrow> signed_in e cfg r m0 s"
  by (auto simp: unsigned_def signed_in_def list_ex_iff)

lemma created_for:
  "CreateSession c iss sub email ttl rnd now d = (Inr t, d') \<Longrightarrow> s_Iss t = iss \<and> s_Sub t = sub"
  by (auto simp: CreateSession_def putSession_def withLock_def split: prod.splits sum.splits option.splits if_splits)

lemma session_signed:
  assumes "completed e cfg r m0 m i"
  shows "wtriple (unsigned cfg m) (callback_session e r i) (\<lambda>_. signed_in e cfg r m0)"
proof -
  let ?P = "\<lambda>s. sv_cfg s = cfg \<and> sv_oauth s = m \<and> signed_in e cfg r m0 s"
  have fail: "wtriple (unsigned cfg m) (loginFail e c msg) (\<lambda>_. signed_in e cfg r m0)" for c msg
    by (rule wt_preserves [OF unsigned_fail unsigned_signed])
  have step: "wtriple (unsigned cfg m) (sys g) (\<lambda>_. unsigned cfg m)" for g :: "'a \<Rightarrow> 'b \<times> 'a"
    using unsigned_steps(2) by (simp add: preserves_def)
  have create: "wtriple (unsigned cfg m)
      (on_store (CreateSession (v_codec e) (id_Issuer i) (id_Subject i) email sessionTTL rnd now))
      (\<lambda>c s. (\<forall>t. c = Inr t \<longrightarrow> s_Iss t = id_Issuer i \<and> s_Sub t = id_Subject i) \<and> unsigned cfg m s)" for email rnd now
    by (rule wtripleI) (auto simp: on_store_def unsigned_def dest: created_for split: prod.splits)
  have cookie: "wtriple (unsigned cfg m) (setSessionCookie t) (\<lambda>_. ?P)"
    if "s_Iss t = id_Issuer i" "s_Sub t = id_Subject i" for t
    using assms that
    by (intro wtripleI) (auto simp: setSessionCookie_def setCookie_def gets_def emit_def modify_def unsigned_def signed_in_def
        list_ex_iff session_cookie_def intro!: exI [of _ i] cookie_forI)
  have after: "wtriple ?P (afterLogin r b) (\<lambda>_. ?P)" for b
    unfolding afterLogin_def by (rule wtripleI) (auto simp: gets_def)
  have redirect: "wtriple ?P (emit (Redirect u c)) (\<lambda>_. signed_in e cfg r m0)" for u c
    by (rule wtripleI) (auto simp: emit_def modify_def signed_in_def session_cookie_def)
  show ?thesis
    unfolding callback_session_def Let_def
    by (intro wt_bind [OF step] wt_bind [OF create] wt_pure wt_sum fail wt_bind [OF cookie] wt_bind [OF wt_gets]
        wt_bind [OF after] redirect) auto
qed

lemma gate_admits:
  "wtriple (unsigned cfg m) (gateIdentity e ident)
     (\<lambda>g s. (g = Inr () \<longrightarrow> (\<exists>i. ident = Some i \<and> admitted e cfg i)) \<and> unsigned cfg m s)"
proof (cases ident)
  case (Some i)
  have bind: "wtriple (unsigned cfg m) (on_store (BindSubject (v_codec e) x (id_Issuer i) (id_Subject i)))
      (\<lambda>b s. (b = Inr () \<longrightarrow> (\<exists>d d'. BindSubject (v_codec e) x (id_Issuer i) (id_Subject i) d = (Inr (), d'))) \<and> unsigned cfg m s)" for x
    by (rule wtripleI) (auto simp: on_store_def unsigned_def split: prod.splits)
  have link: "wtriple (unsigned cfg m) (on_store (LookupLink (v_codec e) (id_Issuer i) (id_Subject i)))
      (\<lambda>l s. (\<exists>d. fst (LookupLink (v_codec e) (id_Issuer i) (id_Subject i) d) = l) \<and> unsigned cfg m s)"
    by (rule wtripleI, auto simp: on_store_def unsigned_def split: prod.splits) (metis fst_conv)
  show ?thesis
    unfolding gateIdentity_def Some option.case
    unfolding Let_def
  proof (rule config_run [where cfg = cfg], goal_cases)
    case 1
    show ?case
      by (intro wt_if wt_option wt_bind [OF bind] wt_bind [OF link] wt_pure wt_sum wt_ret)
         (auto simp: admitted_def split: if_splits option.splits)
  qed (simp add: unsigned_def)
qed (simp add: gateIdentity_def wt_ret)

lemma gate_signed:
  assumes "\<And>i. ident = Some i \<Longrightarrow> admitted e cfg i \<Longrightarrow> completed e cfg r m0 m i"
  shows "wtriple (unsigned cfg m) (callback_gate e r ident) (\<lambda>_. signed_in e cfg r m0)"
proof -
  have fail: "wtriple (unsigned cfg m) (loginFail e c msg) (\<lambda>_. signed_in e cfg r m0)" for c msg
    by (rule wt_preserves [OF unsigned_fail unsigned_signed])
  have panic: "wtriple (unsigned cfg m) (emit Panic) (\<lambda>_. signed_in e cfg r m0)"
    by (rule wt_preserves [OF unsigned_steps(1) unsigned_signed]) (simp_all add: session_cookie_def)
  have "wtriple (unsigned cfg m)
      (case g of Inl ErrLoginDenied \<Rightarrow> if ident = None then emit Panic else loginFail e 403 ''This account is not allowed to sign in.''
       | Inl (GateStore _) \<Rightarrow> loginFail e 500 something_wrong
       | Inr _ \<Rightarrow> (case ident of None \<Rightarrow> emit Panic | Some i \<Rightarrow> callback_session e r i)) (\<lambda>_. signed_in e cfg r m0)"
    if "g = Inr () \<longrightarrow> (\<exists>i. ident = Some i \<and> admitted e cfg i)" for g
  proof (cases g)
    case (Inl err)
    then show ?thesis using fail panic by (cases err) simp_all
  next
    case (Inr u)
    with that obtain i where "ident = Some i" "admitted e cfg i" by auto
    with Inr show ?thesis using session_signed [OF assms] by simp
  qed
  then show ?thesis
    unfolding callback_gate_def by (intro wt_bind [OF gate_admits] wt_pure) blast
qed

lemma exchange_signed:
  assumes "tx \<noteq> []" "Cookie r (oauthCookieName cfg) = Some tx"
    and "\<exists>t. verifyState (v_mac e) (v_key e) (query r ''state'') t = Inr nonce"
    and "\<exists>t. takeOauthTx tx t m0 = (Inr (nonce, provider, verifier), m)"
  shows "wtriple (unsigned cfg m) (callback_exchange e r nonce provider verifier) (\<lambda>_. signed_in e cfg r m0)"
proof -
  have fail: "wtriple (unsigned cfg m) (loginFail e c msg) (\<lambda>_. signed_in e cfg r m0)" for c msg
    by (rule wt_preserves [OF unsigned_fail unsigned_signed])
  have x: "wtriple (unsigned cfg m) (sys g) (\<lambda>x s. (\<exists>w. fst (g w) = x) \<and> unsigned cfg m s)" for g :: "'a \<Rightarrow> 'b \<times> 'a"
    by (rule wtripleI, auto simp: sys_def unsigned_def split: prod.splits) (metis fst_conv)
  have gate: "wtriple (unsigned cfg m) (callback_gate e r ident) (\<lambda>_. signed_in e cfg r m0)"
    if "activeIDP e cfg provider = Some p"
      "\<exists>w. fst (i_Exchange p (query r ''code'') nonce (redirectURI cfg) verifier w) = Some ident" for p ident
    by (rule gate_signed, unfold completed_def) (use assms that in metis)
  have clear: "wtriple (unsigned cfg m) (setCookie n [] age) (\<lambda>_. unsigned cfg m)" for n age
    using unsigned_clear by (simp add: preserves_def)
  show ?thesis
    unfolding callback_exchange_def
  proof (rule config_run [where cfg = cfg], goal_cases)
    case 1
    show ?case
      by (intro wt_bind [OF clear] wt_option fail wt_bind [OF x] wt_pure gate; blast?)
  qed (simp add: unsigned_def)
qed

lemma callback_signed:
  "wtriple (unsigned cfg m0) (handleCallback e r) (\<lambda>_. signed_in e cfg r m0)"
proof -
  have fail: "wtriple (unsigned cfg m) (loginFail e c msg) (\<lambda>_. signed_in e cfg r m0)" for c msg m
    by (rule wt_preserves [OF unsigned_fail unsigned_signed])
  have now: "wtriple (unsigned cfg m0) (sys g) (\<lambda>_. unsigned cfg m0)" for g :: "'a \<Rightarrow> int \<times> 'a"
    using unsigned_steps(2) by (simp add: preserves_def)
  have take: "wtriple (unsigned cfg m0) (on_oauth (takeOauthTx tx t))
      (\<lambda>x s. \<exists>m. takeOauthTx tx t m0 = (x, m) \<and> unsigned cfg m s)" for tx t
    by (rule wtripleI) (auto simp: on_oauth_def unsigned_def split: prod.splits)
  have ex: "wtriple (\<lambda>s. \<exists>m. takeOauthTx tx t m0 = (x, m) \<and> unsigned cfg m s) prog Q"
    if "\<And>m. takeOauthTx tx t m0 = (x, m) \<Longrightarrow> wtriple (unsigned cfg m) prog Q" for tx t x and prog :: "('a, unit) web" and Q
    by (rule wtripleI) (use that wtripleD in metis)
  have exchange: "wtriple (unsigned cfg m0) (do { now2 \<leftarrow> sys (v_now e);
        t \<leftarrow> on_oauth (takeOauthTx tx now2);
        case t of
          Inl _ \<Rightarrow> loginFail e 400 expired
        | Inr (got, provider, verifier) \<Rightarrow>
            if got \<noteq> nonce then loginFail e 400 expired else callback_exchange e r nonce provider verifier })
      (\<lambda>_. signed_in e cfg r m0)"
    if "tx \<noteq> []" "Cookie r (oauthCookieName cfg) = Some tx"
      "verifyState (v_mac e) (v_key e) (query r ''state'') t1 = Inr nonce" for tx nonce t1
    by (intro wt_bind [OF now] wt_bind [OF take] ex wt_sum wt_prod wt_if fail exchange_signed) (use that in auto)
  have refused: "wtriple (unsigned cfg m0) not_allowed (\<lambda>_. signed_in e cfg r m0)"
    unfolding not_allowed_def
    by (rule wt_preserves [OF unsigned_steps(1) unsigned_signed]) (simp_all add: session_cookie_def)
  show ?thesis
    unfolding handleCallback_def
  proof (intro wt_if refused fail, rule config_run [where cfg = cfg], goal_cases)
    case 1
    show ?case
      unfolding Let_def
      by (intro wt_if fail wt_bind [OF now] wt_sum exchange) (auto split: option.splits)
  qed (simp add: unsigned_def)
qed


text \<open>A browser that starts the sign-in with the demonstration's provider and comes back.\<close>

definition start_request :: request where
  "start_request = req0\<lparr>rq_Path := ''/login'', rq_Query := [(''provider'', ''google'')]\<rparr>"

definition started :: "nat srv" where
  "started = (snd (run_state (ServeHTTP demo_env [] start_request) (demo_srv oidc_config)))\<lparr>sv_out := []\<rparr>"

definition back_request :: request where
  "back_request = req0\<lparr>rq_Path := ''/oidc/callback'',
     rq_Query := [(''state'', signState (\<lambda>k s. s) ''k'' ''e8'' (1002 * second)), (''code'', ''code'')],
     rq_Cookies := [(''__Host-bootstash-oauth'', ''e9'')]\<rparr>"

lemma back_signs_in:
  "sv_out started = []"
  "list_ex (session_cookie oidc_config) (sv_out (snd (run_state (ServeHTTP demo_env [] back_request) started)))"
  by code_simp+


end
