(* ===== verification/Web_Logout.thy ===== *)
theory Web_Logout
  imports Web_Properties
begin

text \<open>
  Signing out: the session is gone from the store, not only from the browser.
\<close>

section \<open>A session that is gone\<close>

lemma os_read_file_bytes: "os_read_file n w = (Inr b, w1) \<Longrightarrow> bytes w n = Some b"
  by (auto simp: os_read_file_def bytes_def fault_def fget_def split: prod.splits option.splits if_splits list.splits)

lemma os_read_file_calm: "os_read_file n w = (r, w1) \<Longrightarrow> od_faults w = [] \<Longrightarrow> w1 = w"
  by (auto simp: os_read_file_def fault_def split: prod.splits option.splits if_splits)

lemma no_session_file:
  assumes "sess_in c w (sess_name i) = None"
  shows "isl (fst (GetSession c i t w))"
  using assms sessionPath_Some [of i]
  by (auto simp: GetSession_def sess_in_def split: option.splits prod.splits sum.splits dest!: os_read_file_bytes)

text \<open>Whatever fails later, no lookup finds it.\<close>

definition gone :: "codec \<Rightarrow> string \<Rightarrow> osdir \<Rightarrow> bool" where
  "gone c i w \<longleftrightarrow> sess_in c w (sess_name i) = None \<or> sessionPath i = None"

lemma gone_GetSession:
  assumes "gone c i w"
  shows "isl (fst (GetSession c i t (w\<lparr>od_faults := fs\<rparr>)))"
proof (cases "sessionPath i")
  case (Some p)
  have "bytes (w\<lparr>od_faults := fs\<rparr>) = bytes w" by (simp add: bytes_def fget_def fun_eq_iff)
  with assms Some show ?thesis by (intro no_session_file) (simp add: gone_def sess_in_def)
qed (simp add: GetSession_def)

lemma fdel_faults: "od_faults (fdel n w) = od_faults w"
  by (simp add: fdel_def)

text \<open>Loading a session without faults: it is there, or it is gone afterwards.\<close>

lemma load_or_gone:
  assumes "od_faults w = []" "GetSession c i now w = (r, w')" "named c w"
  shows "od_faults w' = [] \<and> (case r of Inl _ \<Rightarrow> gone c i w' | Inr s \<Rightarrow> s_ID s = i \<and> w' = w \<and> sessionPath i \<noteq> None \<and>
    sess_in c w (sess_name i) = Some s)"
proof (cases "sessionPath i = None \<or> sess_in c w (sess_name i) = None")
  case True
  have "w' = w \<and> isl r"
  proof (cases "sessionPath i")
    case None
    with assms(2) show ?thesis by (auto simp: GetSession_def)
  next
    case (Some p)
    with True have "isl r" using no_session_file [of c w i now] assms(2) by simp
    moreover have "sess_in c w p = None" using True Some sessionPath_Some [of i] by auto
    ultimately show ?thesis using assms(1,2) Some
      by (auto simp: GetSession_def sess_in_def split: prod.splits sum.splits option.splits if_splits
          dest: os_read_file_calm os_read_file_bytes)
  qed
  with True assms(1) show ?thesis by (auto simp: gone_def split: sum.splits)
next
  case False
  then obtain s where s: "sess_in c w (sess_name i) = Some s" "sessionPath i \<noteq> None" by auto
  have "s_ID s = i" using assms(3) s(1) by (auto simp: named_def dest!: spec [of _ "sess_name i"])
  then show ?thesis
    using GetSession_of [OF assms(1) s, of now] assms(1,2) s
    by (auto simp: gone_def sess_in_def fdel_faults split: if_splits)
qed

lemma delete_gone:
  assumes "od_faults w = []" "sess_in c w (sess_name i) = Some s" "sessionPath i \<noteq> None"
  shows "gone c i (snd (DeleteSession i w))"
proof -
  obtain b where "bytes w (sess_name i) = Some b" using assms(2) by (auto simp: sess_in_def bind_eq_Some_conv)
  from os_remove_ok [OF assms(1) this] assms(3) sessionPath_Some [of i] show ?thesis
    by (auto simp: DeleteSession_def remove_quiet_def gone_def sess_in_def split: option.splits)
qed

section \<open>Following the handler\<close>

definition loaded :: "'w env \<Rightarrow> Config \<Rightarrow> string \<Rightarrow> session option \<Rightarrow> 'w srv \<Rightarrow> bool" where
  "loaded e cfg i so s \<longleftrightarrow> sv_cfg s = cfg \<and> od_faults (sv_store s) = [] \<and>
     (case so of None \<Rightarrow> gone (v_codec e) i (sv_store s)
      | Some t \<Rightarrow> s_ID t = i \<and> sessionPath i \<noteq> None \<and> sess_in (v_codec e) (sv_store s) (sess_name i) = Some t)"

definition ready :: "'w env \<Rightarrow> Config \<Rightarrow> 'w srv \<Rightarrow> bool" where
  "ready e cfg s \<longleftrightarrow> sv_cfg s = cfg \<and> od_faults (sv_store s) = [] \<and> named (v_codec e) (sv_store s)"

lemma session_loaded:
  assumes "Cookie r (cookieName cfg) = Some i"
  shows "wtriple (ready e cfg) (request_session e r) (loaded e cfg i)"
proof (rule wtripleI)
  fix s so s' assume s: "ready e cfg s" and run: "run_state (request_session e r) s = (so, s')"
  then have cfg: "sv_cfg s = cfg" by (simp add: ready_def)
  show "loaded e cfg i so s'"
  proof (cases "i = []")
    case True
    have "sessionPath [] = None" by (simp add: sessionPath_def safeID_def)
    with True s run assms cfg show ?thesis
      by (simp add: request_session_def gets_def loaded_def ready_def gone_def)
  next
    case False
    obtain now w1 where n: "v_now e (sv_world s) = (now, w1)" by (cases "v_now e (sv_world s)") blast
    obtain g d where g: "GetSession (v_codec e) i now (sv_store s) = (g, d)"
      by (cases "GetSession (v_codec e) i now (sv_store s)") blast
    have "so = (case g of Inl _ \<Rightarrow> None | Inr t \<Rightarrow> Some t)" "s' = s\<lparr>sv_world := w1, sv_store := d\<rparr>"
      using run False assms cfg n g
      by (auto simp: request_session_def gets_def sys_def on_store_def split: sum.splits)
    with load_or_gone [OF _ g] s show ?thesis
      by (auto simp: loaded_def ready_def split: sum.splits)
  qed
qed

text \<open>What the answer is: the session is gone, the cookie is cleared, and the browser goes to the login page.\<close>

definition signed_out :: "'w env \<Rightarrow> Config \<Rightarrow> string \<Rightarrow> 'w srv \<Rightarrow> bool" where
  "signed_out e cfg i s \<longleftrightarrow> gone (v_codec e) i (sv_store s) \<and>
     (\<exists>before. sv_out s = before @
        [SetCookie \<lparr>ck_Name = cookieName cfg, ck_Value = [], ck_Path = ''/'', ck_Secure = https cfg,
           ck_HttpOnly = True, ck_SameSiteLax = True, ck_MaxAge = - 1, ck_Expires = None\<rparr>, Redirect ''/login'' 302])"

lemma logout_done:
  assumes "rq_Method r = m_post" "checkCSRF cfg r" "Cookie r (cookieName cfg) = Some i"
  shows "wtriple (ready e cfg) (handleLogout e r) (\<lambda>_. signed_out e cfg i)"
proof -
  let ?gone = "\<lambda>s :: 'a srv. sv_cfg s = cfg \<and> gone (v_codec e) i (sv_store s)"
  have csrf: "wtriple (ready e cfg) (requireCSRF e r) (\<lambda>ok s. ok \<and> ready e cfg s)"
    using assms(2) by (intro wtripleI) (auto simp: requireCSRF_def gets_def ready_def)
  have delete: "wtriple (loaded e cfg i so)
      (case so of None \<Rightarrow> ret () | Some s \<Rightarrow> do { _ \<leftarrow> on_store (DeleteSession (s_ID s)); ret () }) (\<lambda>_. ?gone)" for so
  proof (rule wtripleI)
    fix s u s' assume l: "loaded e cfg i so s"
      and run: "run_state (case so of None \<Rightarrow> ret () | Some s \<Rightarrow> do { _ \<leftarrow> on_store (DeleteSession (s_ID s)); ret () }) s = (u, s')"
    show "?gone s'"
      using l run delete_gone [of "sv_store s" "v_codec e" i]
      by (cases so) (auto simp: loaded_def on_store_def split: prod.splits)
  qed
  have clear: "wtriple ?gone (do { _ \<leftarrow> clearSessionCookie; emit (Redirect ''/login'' 302) }) (\<lambda>_. signed_out e cfg i)"
    by (rule wtripleI) (auto simp: clearSessionCookie_def setCookie_def gets_def emit_def modify_def signed_out_def)
  show ?thesis
    unfolding handleLogout_def using assms(1)
    by (simp, intro wt_bind [OF csrf] wt_pure wt_if wt_bind [OF session_loaded [OF assms(3)]] wt_bind [OF delete] clear) auto
qed

text \<open>
  C20. Signing out revokes the session: when a browser posts to \<open>/logout\<close> from the site itself with
  a session cookie, no file system call failing meanwhile, then afterwards no lookup finds the
  session of that cookie, at any time and whatever calls fail from then on, so a copy of the
  cookie is worth nothing; the response ends by clearing the cookie and going to the login page.
  The store is assumed to keep each session under its own identifier (C12).
\<close>

theorem logout_revokes:
  assumes "rq_Path r = ''/logout''" "rq_Method r = m_post" "checkCSRF (sv_cfg s) r"
    and "Cookie r (cookieName (sv_cfg s)) = Some i"
    and "named (v_codec e) (sv_store s)" "od_faults (sv_store s) = []"
  shows "let s' = snd (run_state (ServeHTTP e style r) s) in
    signed_out e (sv_cfg s) i s' \<and> isl (fst (GetSession (v_codec e) i t ((sv_store s')\<lparr>od_faults := fs\<rparr>)))"
proof -
  have "wtriple (ready e (sv_cfg s)) setSecurityHeaders (\<lambda>_. ready e (sv_cfg s))"
    by (rule wtripleI) (auto simp: setSecurityHeaders_def emit_def modify_def ready_def)
  moreover have "route e style r = handleLogout e r" using assms(1) by (simp add: route_def)
  ultimately have t: "wtriple (ready e (sv_cfg s)) (ServeHTTP e style r) (\<lambda>_. signed_out e (sv_cfg s) i)"
    unfolding ServeHTTP_def using wt_bind logout_done [OF assms(2-4)] by metis
  have "ready e (sv_cfg s) s" using assms(5,6) by (simp add: ready_def)
  then have "signed_out e (sv_cfg s) i (snd (run_state (ServeHTTP e style r) s))"
    by (cases "run_state (ServeHTTP e style r) s") (auto dest: wtripleD [OF t])
  then show ?thesis using gone_GetSession by (auto simp: signed_out_def Let_def)
qed

text \<open>Alice signs out.\<close>

definition logout_request :: request where
  "logout_request = req0\<lparr>rq_Method := m_post, rq_Path := ''/logout'',
     rq_Header := (\<lambda>h. if h = ''Origin'' then ''https://h'' else []),
     rq_Cookies := [(''__Host-bootstash'', hex_encode [char_of (232::nat)])]\<rparr>"

lemma demo_named: "named (v_codec demo_env) (sv_store after_login)"
proof -
  have "json_codec (v_codec demo_env)" by (simp add: demo_env_def net.json_codec_axioms)
  from request_keeps [OF this demo_names demo_identities demo_start]
  have "\<exists>A. store_in demo_env A after_login" unfolding after_login_def by blast
  then show ?thesis by (auto simp: store_in_def ginv_def sinv_def)
qed

theorem logout_revokes_witness:
  "fst (GetSession net_codec (hex_encode [char_of (232::nat)]) 0 (sv_store after_login)) \<noteq> Inl ErrNotExist \<and>
   isl (fst (GetSession net_codec (hex_encode [char_of (232::nat)]) 0
     ((sv_store (snd (run_state (ServeHTTP demo_env [] logout_request) after_login)))\<lparr>od_faults := []\<rparr>)))"
proof -
  have r: "rq_Path logout_request = ''/logout''" "rq_Method logout_request = m_post"
    "checkCSRF (sv_cfg after_login) logout_request"
    "Cookie logout_request (cookieName (sv_cfg after_login)) = Some (hex_encode [char_of (232::nat)])"
    unfolding demo_cfg by code_simp+
  show ?thesis
    using logout_revokes [OF r demo_named demo_faults, of "[]" 0 "[]"] demo_session
    by (simp add: demo_env_def Let_def)
qed

end
