(* ===== verification/Web_Profiles.thy ===== *)
theory Web_Profiles
  imports Web_Ovpn
begin

text \<open>
  The title an OpenVPN profile gets is text of a user: names of files and hosts. It cannot add a
  directive to the profile.
\<close>

section \<open>Labels\<close>

definition label_char :: "char \<Rightarrow> bool" where
  "label_char c \<longleftrightarrow> (let r = byte_of c in
     in_range 97 122 r \<or> in_range 65 90 r \<or> in_range 48 57 r \<or> r = 32 \<or> r = 46 \<or> r = 95 \<or> r = 45)"

definition title_char :: "char \<Rightarrow> bool" where
  "title_char c \<longleftrightarrow> label_char c \<or> c = CHR ''['' \<or> c = CHR '']''"

lemma label_runes:
  assumes "r < 128"
  shows "utf8_encode r = [char_of r]" "byte_of (char_of r :: char) = r"
  using assms by (simp_all add: utf8_encode_def byte_of_def in_range_def)

lemma clean_label: "list_all label_char (ovpnCleanLabel s)"
proof -
  have "list_all label_char (utf8_encode
      (if in_range 97 122 r \<or> in_range 65 90 r \<or> in_range 48 57 r then r
       else if r = 32 \<or> r = 46 \<or> r = 95 \<or> r = 45 then r else 95))" for r
    by (auto simp: label_char_def label_runes in_range_def)
  then show ?thesis
    unfolding ovpnCleanLabel_def map_runes_def list_all_iff by auto
qed

lemma remote_label: "list_all label_char (remote_host ls)"
  by (induction ls) (simp_all add: Let_def clean_label)

lemma file_label: "list_all label_char (ovpnFileLabel rel)"
proof -
  have "list_all label_char ''profile''" by code_simp
  then show ?thesis by (simp add: ovpnFileLabel_def Let_def clean_label)
qed

lemma display_title: "list_all title_char (ovpnDisplayName rel body)"
proof -
  have label: "list_all label_char s \<Longrightarrow> list_all title_char s" for s
    by (simp add: list_all_iff title_char_def)
  have "list_all title_char '' [''" "list_all title_char '']''" by code_simp+
  then show ?thesis
    using label [OF file_label] label [OF remote_label]
    by (simp add: ovpnDisplayName_def ovpnRemoteHost_def Let_def)
qed

lemma title_no_newline: "list_all title_char t \<Longrightarrow> CHR 0x0A \<notin> set t"
  by (auto simp: list_all_iff title_char_def label_char_def in_range_def byte_of_def)

section \<open>The lines of a titled profile\<close>

definition has_title :: "string \<Rightarrow> bool" where
  "has_title body \<longleftrightarrow> contains body ''OVPN_ACCESS_SERVER_FRIENDLY_NAME='' \<or> contains body ''setenv FRIENDLY_NAME''"

text \<open>Two comments and one setting, whose value stands between double quotes.\<close>

definition heading :: "string \<Rightarrow> string list" where
  "heading title =
     [''# OVPN_ACCESS_SERVER_FRIENDLY_NAME='' @ title, ''# OVPN_ACCESS_SERVER_PROFILE='' @ title,
      ''setenv FRIENDLY_NAME '' @ [CHR 34] @ title @ [CHR 34]]"

lemma title_split:
  assumes "CHR 0x0A \<notin> set title"
  shows "split_sep (CHR 0x0A) (title_lines title @ body) = heading title @ split_sep (CHR 0x0A) body"
proof -
  have eq: "title_lines title @ body = (heading title ! 0) @ CHR 0x0A # (heading title ! 1) @ CHR 0x0A # (heading title ! 2) @ CHR 0x0A # body"
    by (simp add: title_lines_def heading_def newline_def)
  have "CHR 0x0A \<notin> set (heading title ! 0)" "CHR 0x0A \<notin> set (heading title ! 1)" "CHR 0x0A \<notin> set (heading title ! 2)"
    using assms by (simp_all add: heading_def)
  then show ?thesis
    unfolding eq by (simp add: split_sep_append) (simp add: heading_def)
qed

text \<open>
  C6. The name of a file or of a remote host cannot smuggle a directive into the profile handed to
  OpenVPN Connect: the lines of a titled profile are those of the file, behind two comment lines
  and one \<open>setenv FRIENDLY_NAME\<close> line, whose title has only letters, digits, space, dot, underscore,
  hyphen and square brackets, so no quote, backslash or line break; a file that names itself is
  handed out as it is.
\<close>

theorem profile_title_safe:
  "\<exists>title. list_all title_char title \<and>
     split_sep (CHR 0x0A) (ovpnTitledProfile rel body) =
       (if has_title body then [] else heading title) @ split_sep (CHR 0x0A) body"
  using display_title [of rel body] title_split [OF title_no_newline [OF display_title], of rel body body]
  by (auto simp: ovpnTitledProfile_def has_title_def)

end
