(* ===== verification/Cli_Put.thy ===== *)
theory Cli_Put
  imports Web_Server
begin

text \<open>
  The command \<open>bootstash put\<close> (\<open>cmd/bootstash/put.go\<close>): choosing the cubby of the caller, the
  destination in it, and copying files and directories through the jail. The parsed flags and the
  loaded configuration are arguments. The calls of package \<open>os\<close> by path, the working directory
  and the random source are the record \<open>cmd\<close>; output is one of its effects.

  \<open>copyInto\<close> descends the source tree. Its fuel bounds the depth and \<open>None\<close> says that it ran
  out; \<open>Cli_Properties\<close> shows how much is enough.
\<close>

section \<open>The environment of a command\<close>

record 'w cmd =
  c_kernel :: "'w kernel"
  c_uid :: int
  c_username :: "string option"
  c_cwd :: "string option"
  c_umask :: "32 word \<Rightarrow> 'w \<Rightarrow> 32 word \<times> 'w"
  c_lstat :: "string \<Rightarrow> ('w, kstat) call"
  c_mkdir :: "string \<Rightarrow> 32 word \<Rightarrow> ('w, unit) call"
  c_chmod :: "string \<Rightarrow> 32 word \<Rightarrow> ('w, unit) call"
  c_read_dir :: "string \<Rightarrow> ('w, (string \<times> kstat) list) call"
  c_open :: "string \<Rightarrow> ('w, reader) call"
  c_rand :: "nat \<Rightarrow> 'w \<Rightarrow> string option \<times> 'w"
  c_println :: "string \<Rightarrow> 'w \<Rightarrow> unit \<times> 'w"
  c_users :: user_db
  c_groups :: group_db
  c_case :: casetab
  c_sha256 :: "string \<Rightarrow> string"

record putUser =
  pu_Name :: string
  pu_UID :: int

datatype put_error =
  RunAsOwner
| NoUser
| InvalidUser string
| NoConfig
| EmailRequiresNoPAM
| BadEmail
| EmailNotAllowed string
| SetAllowedEmails
| PassEmail nat
| NoHome string
| CannotCreate string
| NotADirectory string
| MissingSetgid string
| NoCubby string
| CubbySymlink string
| NotOwned string string
| OutsideCubby string
| InvalidSource string
| OntoItself string
| IntoItself string
| SourceSymlink string
| NotRegular string
| OsError errno
| PutJail jail_error
| GetwdError

definition putFileMode :: "32 word" where "putFileMode = 0x1B0"
definition putDirMode :: "32 word" where "putDirMode = 0x1F8"

definition is_permission :: "errno \<Rightarrow> bool" where
  "is_permission e \<longleftrightarrow> e = EACCES \<or> e = EPERM"

section \<open>The caller and the cubby\<close>

definition lookupPutUser :: "'w cmd \<Rightarrow> put_error + putUser" where
  "lookupPutUser c =
     (if c_uid c = 0 then Inl RunAsOwner
      else (case c_username c of
              None \<Rightarrow> Inl NoUser
            | Some n \<Rightarrow>
                if \<not> ValidUsername n then Inl (InvalidUser n) else Inr \<lparr>pu_Name = n, pu_UID = c_uid c\<rparr>))"

definition ownedCubby :: "string \<Rightarrow> kstat \<Rightarrow> putUser \<Rightarrow> put_error + string" where
  "ownedCubby cubby st u =
     (if st_type st = FLnk then Inl (CubbySymlink cubby)
      else if st_type st \<noteq> FDir then Inl (NotADirectory cubby)
      else if st_uid st \<noteq> pu_UID u then Inl (NotOwned cubby (pu_Name u))
      else Inr cubby)"

definition pamCubby :: "'w cmd \<Rightarrow> string \<Rightarrow> putUser \<Rightarrow> 'w \<Rightarrow> (put_error + string) \<times> 'w" where
  "pamCubby c data u w =
     (if \<not> ValidUsername (pu_Name u) \<or> \<not> is_local (pu_Name u) then (Inl (InvalidUser (pu_Name u)), w)
      else (let cubby = path_join [data, ''users'', pu_Name u] in
        case c_lstat c cubby w of (r, w1) \<Rightarrow>
        (case r of
           Inl e \<Rightarrow> Inl (if e = ENOENT then NoCubby (pu_Name u) else OsError e)
         | Inr st \<Rightarrow> ownedCubby cubby st u, w1)))"

definition has_setgid :: "kstat \<Rightarrow> bool" where
  "has_setgid st \<longleftrightarrow> and (st_bits st) 0x400 \<noteq> 0"

definition copySetgid :: "'w cmd \<Rightarrow> string \<Rightarrow> string \<Rightarrow> ('w, unit) call" where
  "copySetgid c parent cubby w =
     (case c_lstat c parent w of (pr, w1) \<Rightarrow>
      case pr of
        Inl e \<Rightarrow> (Inl e, w1)
      | Inr pst \<Rightarrow>
          if \<not> has_setgid pst then (Inr (), w1)
          else (case c_lstat c cubby w1 of (r, w2) \<Rightarrow>
            case r of
              Inl e \<Rightarrow> (Inl e, w2)
            | Inr st \<Rightarrow>
                if has_setgid st then (Inr (), w2)
                else c_chmod c cubby (UnixBits (or ModeSetgid (and (st_bits st) 0x1FF))) w2))"

text \<open>The cubby of an address that does not exist yet: made with umask 0, then checked.\<close>

definition make_cubby :: "'w cmd \<Rightarrow> string \<Rightarrow> string \<Rightarrow> 'w \<Rightarrow> (put_error + string) \<times> 'w" where
  "make_cubby c home cubby w =
     (case c_umask c 0 w of (old, w1) \<Rightarrow>
      case c_mkdir c cubby 0x1F8 w1 of (mk, w2) \<Rightarrow>
      case c_umask c old w2 of (_, w3) \<Rightarrow>
      case mk of
        Inl e \<Rightarrow> (Inl (if is_permission e then CannotCreate home else OsError e), w3)
      | Inr _ \<Rightarrow>
          (case copySetgid c home cubby w3 of (cs, w4) \<Rightarrow>
           case cs of
             Inl e \<Rightarrow> (Inl (OsError e), w4)
           | Inr _ \<Rightarrow>
               (case c_lstat c cubby w4 of (r, w5) \<Rightarrow>
                (case r of
                   Inl e \<Rightarrow> Inl (OsError e)
                 | Inr cst \<Rightarrow>
                     if \<not> has_setgid cst \<or> and (st_bits cst) 0x38 \<noteq> 0x38 then Inl (MissingSetgid cubby)
                     else Inr cubby, w5))))"

definition emailCubby :: "'w cmd \<Rightarrow> string \<Rightarrow> putUser \<Rightarrow> string \<Rightarrow> 'w \<Rightarrow> (put_error + string) \<times> 'w" where
  "emailCubby c data u i w =
     (let home = path_join [data, ''home'']; cubby = path_join [home, i] in
      case c_lstat c home w of (r, w1) \<Rightarrow>
      case r of
        Inl e \<Rightarrow>
          (Inl (if e = ENOENT then NoHome home else if is_permission e then CannotCreate home else OsError e), w1)
      | Inr st \<Rightarrow>
          if st_type st \<noteq> FDir then (Inl (NotADirectory home), w1)
          else (case c_lstat c cubby w1 of (cr, w2) \<Rightarrow>
            case cr of
              Inl e \<Rightarrow>
                if is_permission e then (Inl (CannotCreate home), w2)
                else if e \<noteq> ENOENT then (Inl (OsError e), w2)
                else make_cubby c home cubby w2
            | Inr cst \<Rightarrow> (ownedCubby cubby cst u, w2)))"

definition pickPutEmail :: "casetab \<Rightarrow> Config \<Rightarrow> string \<Rightarrow> put_error + string" where
  "pickPutEmail ct cfg emailFlag =
     (if emailFlag \<noteq> [] then
        (case NormalizeEmail ct emailFlag of
           None \<Rightarrow> Inl BadEmail
         | Some n \<Rightarrow>
             if length (AllowedEmails cfg) = 0 \<or> \<not> AllowsEmail ct cfg n then Inl (EmailNotAllowed n) else Inr n)
      else (case AllowedEmails cfg of
              [] \<Rightarrow> Inl SetAllowedEmails
            | [m] \<Rightarrow> Inr m
            | ms \<Rightarrow> Inl (PassEmail (length ms))))"

definition cubbyDir :: "'w cmd \<Rightarrow> Config option \<Rightarrow> putUser \<Rightarrow> string \<Rightarrow> 'w \<Rightarrow> (put_error + string) \<times> 'w" where
  "cubbyDir c cfg u emailFlag w =
     (case cfg of
        None \<Rightarrow> (Inl NoConfig, w)
      | Some cf \<Rightarrow>
          if PAM cf then
            (if emailFlag \<noteq> [] then (Inl EmailRequiresNoPAM, w) else pamCubby c (Data cf) u w)
          else (case pickPutEmail (c_case c) cf emailFlag of
                  Inl e \<Rightarrow> (Inl e, w)
                | Inr email \<Rightarrow>
                    (case EmailCubbyID (c_case c) (c_sha256 c) email of
                       None \<Rightarrow> (Inl BadEmail, w)
                     | Some i \<Rightarrow> emailCubby c (Data cf) u i w)))"

section \<open>The destination\<close>

text \<open>\<open>filepath.Rel\<close> of a cleaned path below (or equal to) a cleaned base.\<close>

definition path_rel :: "string \<Rightarrow> string \<Rightarrow> string" where
  "path_rel base targ = (if targ = base then dot else trim_prefix targ (base @ ''/''))"

definition cubbyRel :: "string \<Rightarrow> string \<Rightarrow> put_error + string" where
  "cubbyRel cubby0 dest =
     (if dest = [] \<or> dest = dot \<or> dest = ''/'' then Inr []
      else let cubby = path_clean cubby0 in
        if is_abs dest then
          (case Confine cubby dest of
             None \<Rightarrow> Inl (OutsideCubby dest)
           | Some cleaned \<Rightarrow>
               let rel = path_rel cubby cleaned in if rel = dot then Inr [] else Inr rel)
        else (let rel = trim_prefix (path_clean dest) ''/'' in
          if rel = dotdot \<or> has_prefix rel ''../'' then Inl (PutJail ErrEscape)
          else if rel = dot then Inr [] else Inr rel))"

definition putTarget :: "string \<Rightarrow> string \<Rightarrow> put_error + string" where
  "putTarget src destRel =
     (let base = path_base (trim_right src ''/'') in
      if base = [] \<or> base = dot \<or> base = ''/'' then Inl (InvalidSource src)
      else if destRel = [] then Inr base else Inr (destRel @ ''/'' @ base))"

definition path_abs :: "string option \<Rightarrow> string \<Rightarrow> string option" where
  "path_abs cwd p = (if is_abs p then Some (path_clean p) else map_option (\<lambda>d. path_join [d, p]) cwd)"

definition refuseSelfCopy :: "'w cmd \<Rightarrow> string \<Rightarrow> string \<Rightarrow> string \<Rightarrow> put_error + unit" where
  "refuseSelfCopy c src cubby destRel =
     (case path_abs (c_cwd c) src of
        None \<Rightarrow> Inl GetwdError
      | Some s \<Rightarrow>
          (let srcAbs = path_clean s;
               destAbs = path_clean (if destRel \<noteq> [] then path_join [cubby, destRel] else cubby)
           in if srcAbs = destAbs then Inl (OntoItself src)
              else if has_prefix destAbs (srcAbs @ ''/'') then Inl (IntoItself src)
              else Inr ()))"

section \<open>Copying\<close>

text \<open>\<open>errors.Is(err, fs.ErrExist)\<close> holds of \<open>EEXIST\<close> and \<open>ENOTEMPTY\<close>.\<close>

definition mkdirExistOK :: "'w cmd \<Rightarrow> jail_root \<Rightarrow> string \<Rightarrow> 'w \<Rightarrow> (put_error + unit) \<times> 'w" where
  "mkdirExistOK c root rel w =
     (case Mkdir (c_kernel c) root rel putDirMode w of (r, w1) \<Rightarrow>
      case r of
        Inr _ \<Rightarrow> (Inr (), w1)
      | Inl e \<Rightarrow>
          if e \<noteq> Sys EEXIST \<and> e \<noteq> Sys ENOTEMPTY then (Inl (PutJail e), w1)
          else (case Stat (c_kernel c) root rel w1 of (sr, w2) \<Rightarrow>
            (case sr of
               Inl _ \<Rightarrow> Inl (PutJail e)
             | Inr (_, st) \<Rightarrow> if st_type st \<noteq> FDir then Inl (NotADirectory rel) else Inr (), w2)))"

fun mkdir_parts :: "'w cmd \<Rightarrow> jail_root \<Rightarrow> string \<Rightarrow> string list \<Rightarrow> 'w \<Rightarrow> (put_error + unit) \<times> 'w" where
  "mkdir_parts c root acc [] w = (Inr (), w)"
| "mkdir_parts c root acc (p # ps) w =
     (if p = [] \<or> p = dot then mkdir_parts c root acc ps w
      else if p = dotdot then (Inl (PutJail ErrEscape), w)
      else (let acc' = (if acc = [] then p else acc @ ''/'' @ p) in
        case mkdirExistOK c root acc' w of (r, w1) \<Rightarrow>
        case r of Inl e \<Rightarrow> (Inl e, w1) | Inr _ \<Rightarrow> mkdir_parts c root acc' ps w1))"

definition mkdirAll :: "'w cmd \<Rightarrow> jail_root \<Rightarrow> string \<Rightarrow> 'w \<Rightarrow> (put_error + unit) \<times> 'w" where
  "mkdirAll c root rel = mkdir_parts c root [] (split_sep slash rel)"

definition ensureParents :: "'w cmd \<Rightarrow> jail_root \<Rightarrow> string \<Rightarrow> 'w \<Rightarrow> (put_error + unit) \<times> 'w" where
  "ensureParents c root destRel w =
     (let dir = path_dir destRel in
      if dir = dot \<or> dir = ''/'' \<or> dir = [] then (Inr (), w) else mkdirAll c root dir w)"

definition copyFile :: "'w cmd \<Rightarrow> jail_root \<Rightarrow> string \<Rightarrow> string \<Rightarrow> 'w \<Rightarrow> (put_error + unit) \<times> 'w" where
  "copyFile c root src destRel w =
     (case ensureParents c root destRel w of (r, w1) \<Rightarrow>
      case r of
        Inl e \<Rightarrow> (Inl e, w1)
      | Inr _ \<Rightarrow>
          (case c_open c src w1 of (fr, w2) \<Rightarrow>
           case fr of
             Inl e \<Rightarrow> (Inl (OsError e), w2)
           | Inr body \<Rightarrow>
               (case c_rand c 8 w2 of (rnd, w3) \<Rightarrow>
                case Replace (c_kernel c) root destRel putFileMode rnd (fst body) (snd body) w3 of (rr, w4) \<Rightarrow>
                (case rr of Inl e \<Rightarrow> Inl (PutJail e) | Inr _ \<Rightarrow> Inr (), w4))))"

text \<open>\<open>down\<close> copies an entry; \<open>None\<close> is its running out of fuel.\<close>

fun copy_entries ::
  "(string \<Rightarrow> string \<Rightarrow> 'w \<Rightarrow> (put_error + unit) option \<times> 'w) \<Rightarrow> string \<Rightarrow> string \<Rightarrow> string list \<Rightarrow>
   'w \<Rightarrow> (put_error + unit) option \<times> 'w" where
  "copy_entries down src destRel [] w = (Some (Inr ()), w)"
| "copy_entries down src destRel (n # ns) w =
     (case down (path_join [src, n]) (if destRel \<noteq> [] then destRel @ ''/'' @ n else n) w of (r, w1) \<Rightarrow>
      case r of
        Some (Inr _) \<Rightarrow> copy_entries down src destRel ns w1
      | _ \<Rightarrow> (r, w1))"

definition copyDir ::
  "(string \<Rightarrow> string \<Rightarrow> 'w \<Rightarrow> (put_error + unit) option \<times> 'w) \<Rightarrow> 'w cmd \<Rightarrow> jail_root \<Rightarrow> string \<Rightarrow> string \<Rightarrow>
   'w \<Rightarrow> (put_error + unit) option \<times> 'w" where
  "copyDir down c root src destRel w =
     (case (if destRel \<noteq> [] then mkdirAll c root destRel w else (Inr (), w)) of (r, w1) \<Rightarrow>
      case r of
        Inl e \<Rightarrow> (Some (Inl e), w1)
      | Inr _ \<Rightarrow>
          (case c_read_dir c src w1 of (dr, w2) \<Rightarrow>
           case dr of
             Inl e \<Rightarrow> (Some (Inl (OsError e)), w2)
           | Inr ents \<Rightarrow> copy_entries down src destRel (map fst ents) w2))"

fun copyInto ::
  "nat \<Rightarrow> 'w cmd \<Rightarrow> jail_root \<Rightarrow> string \<Rightarrow> string \<Rightarrow> 'w \<Rightarrow> (put_error + unit) option \<times> 'w" where
  "copyInto 0 c root src destRel w = (None, w)"
| "copyInto (Suc n) c root src destRel w =
     (case c_lstat c src w of (r, w1) \<Rightarrow>
      case r of
        Inl e \<Rightarrow> (Some (Inl (OsError e)), w1)
      | Inr st \<Rightarrow>
          (case st_type st of
             FLnk \<Rightarrow> (Some (Inl (SourceSymlink src)), w1)
           | FDir \<Rightarrow> copyDir (copyInto n c root) c root src destRel w1
           | FReg \<Rightarrow>
               (case copyFile c root src destRel w1 of (cr, w2) \<Rightarrow>
                case cr of
                  Inl e \<Rightarrow> (Some (Inl e), w2)
                | Inr _ \<Rightarrow> (case c_println c destRel w2 of (_, w3) \<Rightarrow> (Some (Inr ()), w3)))
           | FOther \<Rightarrow> (Some (Inl (NotRegular src)), w1)))"

section \<open>The command\<close>

definition splitPutArgs :: "string list \<Rightarrow> string \<Rightarrow> (string list \<times> string) option" where
  "splitPutArgs args destFlag = (if length args < 1 then None else Some (args, destFlag))"

text \<open>The loop over the sources.\<close>

fun put_sources ::
  "nat \<Rightarrow> 'w cmd \<Rightarrow> jail_root \<Rightarrow> string \<Rightarrow> string \<Rightarrow> string list \<Rightarrow> 'w \<Rightarrow> (put_error + unit) option \<times> 'w" where
  "put_sources n c root cubby destRel [] w = (Some (Inr ()), w)"
| "put_sources n c root cubby destRel (src # srcs) w =
     (case putTarget src destRel of
        Inl e \<Rightarrow> (Some (Inl e), w)
      | Inr target \<Rightarrow>
          (case refuseSelfCopy c src cubby target of
             Inl e \<Rightarrow> (Some (Inl e), w)
           | Inr _ \<Rightarrow>
               (case copyInto n c root src target w of (r, w1) \<Rightarrow>
                case r of
                  Some (Inr _) \<Rightarrow> put_sources n c root cubby destRel srcs w1
                | _ \<Rightarrow> (r, w1))))"

text \<open>With the jail open and umask 0; both are undone afterwards.\<close>

definition put_into ::
  "nat \<Rightarrow> 'w cmd \<Rightarrow> jail_root \<Rightarrow> string \<Rightarrow> string \<Rightarrow> string list \<Rightarrow> 'w \<Rightarrow> (put_error + unit) option \<times> 'w" where
  "put_into n c root cubby destRel sources w =
     (case c_umask c 0 w of (oldMask, w1) \<Rightarrow>
      case (if destRel \<noteq> [] then mkdirAll c root destRel w1 else (Inr (), w1)) of (m, w2) \<Rightarrow>
      case (case m of
              Inl e \<Rightarrow> (Some (Inl e), w2)
            | Inr _ \<Rightarrow> put_sources n c root cubby destRel sources w2) of (r, w3) \<Rightarrow>
      case c_umask c oldMask w3 of (_, w4) \<Rightarrow>
      case CloseRoot (c_kernel c) root w4 of (_, _, w5) \<Rightarrow> (r, w5))"

definition put_run ::
  "nat \<Rightarrow> 'w cmd \<Rightarrow> putUser \<Rightarrow> Config \<Rightarrow> string \<Rightarrow> string \<Rightarrow> string list \<Rightarrow> 'w \<Rightarrow> (put_error + unit) option \<times> 'w" where
  "put_run n c u cfg emailFlag dest sources w =
     (case cubbyDir c (Some cfg) u emailFlag w of (cr, w1) \<Rightarrow>
      case cr of
        Inl e \<Rightarrow> (Some (Inl e), w1)
      | Inr cubby \<Rightarrow>
          (case cubbyRel cubby dest of
             Inl e \<Rightarrow> (Some (Inl e), w1)
           | Inr destRel \<Rightarrow>
               (case OpenRoot (c_kernel c) cubby w1 of (ro, w2) \<Rightarrow>
                case ro of
                  Inl e \<Rightarrow> (Some (Inl (OsError e)), w2)
                | Inr root \<Rightarrow> put_into n c root cubby destRel sources w2)))"

text \<open>The exit code; \<open>loaded\<close> is what \<open>LoadOperator\<close> returned.\<close>

definition putWith ::
  "nat \<Rightarrow> 'w cmd \<Rightarrow> putUser \<Rightarrow> ('e, Config) result \<Rightarrow> string \<Rightarrow> string \<Rightarrow> string list \<Rightarrow> 'w \<Rightarrow> nat option \<times> 'w" where
  "putWith n c u loaded emailFlag destFlag args w =
     (case splitPutArgs args destFlag of
        None \<Rightarrow> (Some 2, w)
      | Some (sources, dest) \<Rightarrow>
          (case loaded of
             Inl _ \<Rightarrow> (Some 1, w)
           | Inr cfg \<Rightarrow>
               (case put_run n c u cfg emailFlag dest sources w of (r, w1) \<Rightarrow>
                (map_option (\<lambda>x. case x of Inl _ \<Rightarrow> 1 | Inr _ \<Rightarrow> 0) r, w1))))"

definition runPut ::
  "nat \<Rightarrow> 'w cmd \<Rightarrow> ('e, Config) result \<Rightarrow> string \<Rightarrow> string \<Rightarrow> string list \<Rightarrow> 'w \<Rightarrow> nat option \<times> 'w" where
  "runPut n c loaded emailFlag destFlag args w =
     (case lookupPutUser c of
        Inl _ \<Rightarrow> (Some 1, w)
      | Inr u \<Rightarrow> putWith n c u loaded emailFlag destFlag args w)"

end
