(* ===== verification/Cli_Admin.thy ===== *)
theory Cli_Admin
  imports Cli_Put "HOL-Library.Product_Lexorder"
begin

text \<open>
  The other commands of \<open>cmd/bootstash\<close>: \<open>check-config\<close> with its argument loop, \<open>mkdir\<close>,
  \<open>links\<close>, \<open>unlink\<close> and the installation of the Google client file by \<open>provision-google\<close>. Parsed
  flags and loaded configurations are arguments; a command returns its exit code and the lines it
  prints. The recipe text \<open>provision-google\<close> prints is not modelled.
\<close>

section \<open>check-config\<close>

record check_paths =
  cp_defaults :: string
  cp_config :: string
  cp_secrets :: string

text \<open>The argument loop: a flag takes the next argument, and anything else ends with exit code 2.\<close>

fun check_args :: "check_paths \<Rightarrow> string list \<Rightarrow> check_paths option" where
  "check_args p [] = Some p"
| "check_args p [a] = None"
| "check_args p (a # b # rest) =
     (if a = ''-defaults'' then check_args (p\<lparr>cp_defaults := b\<rparr>) rest
      else if a = ''-config'' then check_args (p\<lparr>cp_config := b\<rparr>) rest
      else if a = ''-secrets'' then check_args (p\<lparr>cp_secrets := b\<rparr>) rest
      else None)"

text \<open>\<open>files\<close> reads a path; the result is the exit code and, when the check passes, the summary.\<close>

definition runCheck ::
  "cfgenv \<Rightarrow> check_paths \<Rightarrow> (string \<Rightarrow> cfgfile) \<Rightarrow> string list \<Rightarrow> nat \<times> (string \<times> notice) option" where
  "runCheck e p0 files args =
     (case check_args p0 args of
        None \<Rightarrow> (2, None)
      | Some p \<Rightarrow>
          (case Check e (files (cp_defaults p)) (files (cp_config p)) (files (cp_secrets p)) of
             Inl _ \<Rightarrow> (1, None)
           | Inr cfg \<Rightarrow> (0, Some (''configuration ok '' @ Summary cfg, Notice cfg))))"

section \<open>mkdir\<close>

datatype mkdir_user_error =
  RunAsRoot | NoUsersDirectory | MkInvalid string | MkUnknown string | MkCannotOwn string | MkNoGroup string
| MkLstat errno | MkNotDirectory string | MkNotOwned string | MkOwner mkdir_error

definition mkdirUser :: "'w cmd \<Rightarrow> int \<Rightarrow> Config option \<Rightarrow> string \<Rightarrow> 'w \<Rightarrow> (mkdir_user_error + unit) \<times> 'w" where
  "mkdirUser c uid cfg user w =
     (if uid \<noteq> 0 then (Inl RunAsRoot, w)
      else (case cfg of
        None \<Rightarrow> (Inl NoUsersDirectory, w)
      | Some cf \<Rightarrow>
          if \<not> PAM cf then (Inl NoUsersDirectory, w)
          else if \<not> ValidUsername user then (Inl (MkInvalid user), w)
          else (case Lookup (c_users c) user of
              Inl _ \<Rightarrow> (Inl (MkUnknown user), w)
            | Inr acct \<Rightarrow>
                if \<not> Linkable (Some acct) then (Inl (MkCannotOwn user), w)
                else (case LookupGroupGID (c_groups c) (cfg_UnixGroup cf) of
                    None \<Rightarrow> (Inl (MkNoGroup (cfg_UnixGroup cf)), w)
                  | Some gid \<Rightarrow>
                      (let users = path_join [path_clean (Data cf), ''users'']; dir = path_join [users, a_Name acct];
                           make = (\<lambda>w1. case MkdirOwner (c_kernel c) users (a_Name acct) (a_UID acct) gid w1 of (r, w2) \<Rightarrow>
                             (map_sum MkOwner id r, w2))
                       in case c_lstat c dir w of (sr, w1) \<Rightarrow>
                       case sr of
                         Inl e \<Rightarrow> if e \<noteq> ENOENT then (Inl (MkLstat e), w1) else make w1
                       | Inr st \<Rightarrow>
                           if st_type st \<noteq> FDir then (Inl (MkNotDirectory dir), w1)
                           else if st_uid st \<noteq> a_UID acct then (Inl (MkNotOwned dir), w1)
                           else make w1)))))"

definition runMkdir :: "'w cmd \<Rightarrow> ('e, Config) result \<Rightarrow> string list \<Rightarrow> 'w \<Rightarrow> nat \<times> 'w" where
  "runMkdir c loaded args w =
     (case args of
        [user] \<Rightarrow>
          (case loaded of
             Inl _ \<Rightarrow> (1, w)
           | Inr cfg \<Rightarrow>
               (case mkdirUser c (c_uid c) (Some cfg) user w of (r, w1) \<Rightarrow>
                (case r of Inl _ \<Rightarrow> 1 | Inr _ \<Rightarrow> 0, w1)))
      | _ \<Rightarrow> (2, w))"

section \<open>links and unlink\<close>

text \<open>The state directory of the configuration; \<open>osdir\<close> is that directory.\<close>

definition openState :: "('e, Config) result \<Rightarrow> osdir \<Rightarrow> bool \<times> osdir" where
  "openState loaded w =
     (case loaded of
        Inl _ \<Rightarrow> (False, w)
      | Inr _ \<Rightarrow> (case OpenStore w of (r, w1) \<Rightarrow> (case r of Inl _ \<Rightarrow> False | Inr _ \<Rightarrow> True, w1)))"

definition link_line :: "link \<Rightarrow> string" where
  "link_line l = l_PAMUser l @ '' '' @ l_Issuer l @ '' '' @ l_Subject l"

definition sort_links :: "link list \<Rightarrow> link list" where
  "sort_links = sort_key (\<lambda>l. (l_PAMUser l, l_Issuer l, l_Subject l))"

definition listLinks ::
  "codec \<Rightarrow> ('e, Config) result \<Rightarrow> string list \<Rightarrow> osdir \<Rightarrow> (nat \<times> string list) \<times> osdir" where
  "listLinks cd loaded args w =
     (if args \<noteq> [] then ((2, []), w)
      else (case openState loaded w of (ok, w1) \<Rightarrow>
        if \<not> ok then ((1, []), w1)
        else (case ListLinks cd w1 of (r, w2) \<Rightarrow>
          (case r of Inl _ \<Rightarrow> (1, []) | Inr ls \<Rightarrow> (0, map link_line (sort_links ls)), w2))))"

definition unlink_lines :: "string \<Rightarrow> link list \<Rightarrow> nat \<Rightarrow> string list" where
  "unlink_lines user removed sessions =
     (''unlinked '' @ user @ '' ('' @ show_nat (length removed) @ '' subject(s), '' @ show_nat sessions @ '' session(s))'') #
     map (\<lambda>l. ''  '' @ l_Issuer l @ '' '' @ l_Subject l) removed"

definition runUnlink ::
  "codec \<Rightarrow> ('e, Config) result \<Rightarrow> string list \<Rightarrow> osdir \<Rightarrow> (nat \<times> string list) \<times> osdir" where
  "runUnlink cd loaded args w =
     (case args of
        [user] \<Rightarrow>
          if \<not> ValidUsername user then ((2, []), w)
          else (case openState loaded w of (ok, w1) \<Rightarrow>
            if \<not> ok then ((1, []), w1)
            else (case UnlinkPAM cd user w1 of ((removed, sessions, err), w2) \<Rightarrow>
              (if err \<noteq> None then (1, [])
               else if length removed = 0 \<and> sessions = 0 then (1, [])
               else (0, unlink_lines user removed sessions), w2)))
      | _ \<Rightarrow> ((2, []), w))"

section \<open>Installing the Google client\<close>

text \<open>
  \<open>osdir\<close> is the directory of the secrets file; \<open>os.Lstat\<close> and \<open>os.Chown\<close> of that directory itself.
\<close>

definition os_chown_dir :: "int \<Rightarrow> int \<Rightarrow> unit oscall" where
  "os_chown_dir u g w = (case fault w of (ft, w1) \<Rightarrow>
     case ft of Some (e, _) \<Rightarrow> (Inl e, w1)
     | None \<Rightarrow> (case od_self w1 of None \<Rightarrow> (Inl ENOENT, w1)
        | Some d \<Rightarrow> (Inr (), w1\<lparr>od_self := Some (d\<lparr>f_uid := (if u < 0 then f_uid d else u),
                                                  f_gid := (if g < 0 then f_gid d else g)\<rparr>)\<rparr>)))"

definition chmod_dir :: "32 word \<Rightarrow> unit oscall" where
  "chmod_dir mode w =
     (case os_stat_dir w of (sr, w1) \<Rightarrow>
      case sr of
        Inl e \<Rightarrow> (Inl e, w1)
      | Inr st \<Rightarrow> if f_bits st = UnixBits mode then (Inr (), w1) else os_chmod_dir (UnixBits mode) w1)"

definition chown_dir :: "int \<Rightarrow> int \<Rightarrow> unit oscall" where
  "chown_dir uid gid w =
     (case os_stat_dir w of (sr, w1) \<Rightarrow>
      case sr of
        Inl e \<Rightarrow> (Inl e, w1)
      | Inr st \<Rightarrow>
          if new_id (f_uid st) uid = f_uid st \<and> new_id (f_gid st) gid = f_gid st then (Inr (), w1)
          else os_chown_dir uid gid w1)"

text \<open>Its error is always discarded.\<close>

definition chownGroup :: "group_db \<Rightarrow> string \<Rightarrow> (int \<Rightarrow> unit oscall) \<Rightarrow> osdir \<Rightarrow> osdir" where
  "chownGroup gdb grp chown w =
     (case LookupGroupGID gdb (if grp = [] then ''bootstash'' else grp) of
        None \<Rightarrow> w
      | Some gid \<Rightarrow> snd (chown gid w))"

datatype provision_error = ReadClient errno | BadClient config_error | NoClientSecret | Install errno

text \<open>Writing the file beside its place and renaming it.\<close>

definition install_file :: "group_db \<Rightarrow> string \<Rightarrow> string \<Rightarrow> string \<Rightarrow> unit oscall" where
  "install_file gdb grp dest b w =
     (let tmp = dest @ ''.tmp'' in
      case os_write_file tmp b 0x1A0 w of (r1, w1) \<Rightarrow>
      case r1 of Inl e \<Rightarrow> (Inl e, w1) | Inr _ \<Rightarrow>
      (case Osutil.Chmod tmp 0x1A0 w1 of (r2, w2) \<Rightarrow>
       case r2 of Inl e \<Rightarrow> (Inl e, w2) | Inr _ \<Rightarrow>
       (case os_rename tmp dest (chownGroup gdb grp (Osutil.Chown tmp (- 1)) w2) of (r3, w3) \<Rightarrow>
        case r3 of Inl e \<Rightarrow> (Inl e, w3) | Inr _ \<Rightarrow>
        (case Osutil.Chmod dest 0x1A0 w3 of (r4, w4) \<Rightarrow>
         case r4 of Inl e \<Rightarrow> (Inl e, w4) | Inr _ \<Rightarrow>
         (Inr (), chownGroup gdb grp (Osutil.Chown dest (- 1)) w4)))))"

definition install_dir :: "group_db \<Rightarrow> string \<Rightarrow> bool \<Rightarrow> unit oscall" where
  "install_dir gdb grp default_dir w =
     (case os_stat_dir w of (sr, w1) \<Rightarrow>
      let created = (sr = Inl ENOENT) in
      case os_mkdir_all 0x1E8 w1 of (r, w2) \<Rightarrow>
      case r of Inl e \<Rightarrow> (Inl e, w2) | Inr _ \<Rightarrow>
      if created \<or> default_dir then
        (case chmod_dir 0x1E8 w2 of (cr, w3) \<Rightarrow>
         case cr of Inl e \<Rightarrow> (Inl e, w3) | Inr _ \<Rightarrow> (Inr (), chownGroup gdb grp (chown_dir (- 1)) w3))
      else (Inr (), w2))"

text \<open>\<open>read\<close> is what reading the source gave.\<close>

definition installGoogleClientJSON ::
  "(string \<Rightarrow> googleClientJSON option) \<Rightarrow> group_db \<Rightarrow> errno + string \<Rightarrow> string \<Rightarrow> bool \<Rightarrow> string \<Rightarrow>
   osdir \<Rightarrow> (provision_error + unit) \<times> osdir" where
  "installGoogleClientJSON unmarshal gdb read dest default_dir grp w =
     (case read of
        Inl e \<Rightarrow> (Inl (ReadClient e), w)
      | Inr b \<Rightarrow>
          (case ParseGoogleClientJSON unmarshal b of
             Inl e \<Rightarrow> (Inl (BadClient e), w)
           | Inr (_, secret) \<Rightarrow>
               if secret = [] then (Inl NoClientSecret, w)
               else (case install_dir gdb grp default_dir w of (r1, w1) \<Rightarrow>
                 case r1 of Inl e \<Rightarrow> (Inl (Install e), w1) | Inr _ \<Rightarrow>
                 (case install_file gdb grp dest b w1 of (r2, w2) \<Rightarrow>
                  (map_sum Install id r2, w2)))))"

section \<open>The command line\<close>

datatype command = CmdUsage nat | CmdVersion | CmdCheck | CmdProvision | CmdLinks | CmdUnlink | CmdMkdir | CmdPut

text \<open>The dispatch of \<open>main\<close>; \<open>CmdUsage n\<close> prints the usage and exits with \<open>n\<close>.\<close>

definition dispatch :: "string list \<Rightarrow> command" where
  "dispatch args =
     (case args of
        [] \<Rightarrow> CmdUsage 2
      | a # _ \<Rightarrow>
          if a \<in> {''--version'', ''-version'', ''-V'', ''version''} then CmdVersion
          else if a = ''check-config'' \<or> a = ''-t'' then CmdCheck
          else if a = ''provision-google'' then CmdProvision
          else if a = ''links'' then CmdLinks
          else if a = ''unlink'' then CmdUnlink
          else if a = ''mkdir'' then CmdMkdir
          else if a = ''put'' then CmdPut
          else if a \<in> {''help'', ''-h'', ''-help'', ''--help''} then CmdUsage 0
          else CmdUsage 2)"

end
