(* ===== verification/Cli_Properties.thy ===== *)
theory Cli_Properties
  imports Cli_Admin Jail_Properties
begin

text \<open>
  Properties of \<open>bootstash put\<close>: it writes only into a cubby of the caller, and it returns.
\<close>

section \<open>A command that logs its system calls\<close>

definition traced_cmd :: "'w cmd \<Rightarrow> ('w \<times> event list) cmd" where
  "traced_cmd c = \<lparr>c_kernel = traced (c_kernel c), c_uid = c_uid c, c_username = c_username c, c_cwd = c_cwd c,
     c_umask = (\<lambda>m. quiet (c_umask c m)), c_lstat = (\<lambda>p. quiet (c_lstat c p)),
     c_mkdir = (\<lambda>p m. quiet (c_mkdir c p m)), c_chmod = (\<lambda>p m. quiet (c_chmod c p m)),
     c_read_dir = (\<lambda>p. quiet (c_read_dir c p)), c_open = (\<lambda>p. quiet (c_open c p)),
     c_rand = (\<lambda>n. quiet (c_rand c n)), c_println = (\<lambda>s. quiet (c_println c s)),
     c_users = c_users c, c_groups = c_groups c, c_case = c_case c, c_sha256 = c_sha256 c\<rparr>"

lemma traced_cmd_simps [simp]:
  "c_kernel (traced_cmd c) = traced (c_kernel c)" "c_cwd (traced_cmd c) = c_cwd c"
  "c_umask (traced_cmd c) m = quiet (c_umask c m)" "c_lstat (traced_cmd c) p = quiet (c_lstat c p)"
  "c_mkdir (traced_cmd c) p b = quiet (c_mkdir c p b)" "c_chmod (traced_cmd c) p b = quiet (c_chmod c p b)"
  "c_read_dir (traced_cmd c) p = quiet (c_read_dir c p)" "c_open (traced_cmd c) p = quiet (c_open c p)"
  "c_rand (traced_cmd c) n = quiet (c_rand c n)" "c_println (traced_cmd c) s = quiet (c_println c s)"
  "c_case (traced_cmd c) = c_case c" "c_sha256 (traced_cmd c) = c_sha256 c"
  by (simp_all add: traced_cmd_def)

lemma refuse_traced [simp]: "refuseSelfCopy (traced_cmd c) src cubby rel = refuseSelfCopy c src cubby rel"
  by (simp add: refuseSelfCopy_def)

section \<open>Copying is confined\<close>

lemmas quiet_bind = confines_bind [OF confines_quiet]

lemma mkdirExistOK_confined:
  "confines (r_fd root) S any_post (mkdirExistOK c root rel) (mkdirExistOK (traced_cmd c) root rel)"
  unfolding mkdirExistOK_def traced_cmd_simps
  by (intro confines_bind [OF Mkdir_confined] confines_bind [OF Stat_confined] confines_intros confines_return; simp)

lemma mkdir_parts_confined:
  "confines (r_fd root) S any_post (mkdir_parts c root acc ps) (mkdir_parts (traced_cmd c) root acc ps)"
proof (induction ps arbitrary: acc S)
  case Nil
  show ?case by (simp add: confines_return)
next
  case (Cons p ps)
  show ?case
    unfolding mkdir_parts.simps Let_def
    by (intro confines_bind [OF mkdirExistOK_confined] confines_intros confines_return Cons.IH; simp)
qed

lemma mkdirAll_confined: "confines (r_fd root) S any_post (mkdirAll c root rel) (mkdirAll (traced_cmd c) root rel)"
  unfolding mkdirAll_def by (rule mkdir_parts_confined)

lemma copyFile_confined:
  "confines (r_fd root) S any_post (copyFile c root src rel) (copyFile (traced_cmd c) root src rel)"
proof -
  have parents: "confines (r_fd root) S any_post (ensureParents c root rel) (ensureParents (traced_cmd c) root rel)" for S
    unfolding ensureParents_def Let_def by (intro confines_intros confines_return mkdirAll_confined; simp)
  show ?thesis
    unfolding copyFile_def traced_cmd_simps
    by (intro confines_bind [OF parents] quiet_bind confines_bind [OF Replace_confined] confines_intros confines_return; simp)
qed


lemma confines_next:
  "confines root S any_post f g \<Longrightarrow>
   confines root S any_post (\<lambda>w. case r of Some (Inr _) \<Rightarrow> f w | _ \<Rightarrow> (r, w)) (\<lambda>w. case r of Some (Inr _) \<Rightarrow> g w | _ \<Rightarrow> (r, w))"
proof (cases r)
  case (Some x)
  then show "confines root S any_post f g \<Longrightarrow> ?thesis" by (cases x) (simp_all add: confines_return)
qed (simp add: confines_return)

lemma copy_entries_confined:
  assumes "\<And>src rel S. confines root S any_post (f src rel) (g src rel)"
  shows "confines root S any_post (copy_entries f src rel ns) (copy_entries g src rel ns)"
proof (induction ns arbitrary: S)
  case Nil
  show ?case by (simp add: confines_return)
next
  case (Cons n ns)
  then show ?case
    unfolding copy_entries.simps by (intro confines_bind [OF assms] confines_next)
qed

lemma copyInto_confined:
  "confines (r_fd root) S any_post (copyInto n c root src rel) (copyInto n (traced_cmd c) root src rel)"
proof (induction n arbitrary: src rel S)
  case 0
  show ?case by (simp add: confines_return)
next
  case (Suc n)
  have dir: "confines (r_fd root) S any_post (copyDir (copyInto n c root) c root src rel)
      (copyDir (copyInto n (traced_cmd c) root) (traced_cmd c) root src rel)" for S
    unfolding copyDir_def traced_cmd_simps
    by (intro confines_bind [OF confines_if [OF mkdirAll_confined confines_return]] quiet_bind confines_intros
        confines_return copy_entries_confined Suc.IH; simp)
  have reg: "confines (r_fd root) S any_post
      (\<lambda>w. case copyFile c root src rel w of (cr, w2) \<Rightarrow>
        case cr of Inl e \<Rightarrow> (Some (Inl e), w2)
        | Inr _ \<Rightarrow> (case c_println c rel w2 of (_, w3) \<Rightarrow> (Some (Inr ()), w3)))
      (\<lambda>w. case copyFile (traced_cmd c) root src rel w of (cr, w2) \<Rightarrow>
        case cr of Inl e \<Rightarrow> (Some (Inl e), w2)
        | Inr _ \<Rightarrow> (case quiet (c_println c rel) w2 of (_, w3) \<Rightarrow> (Some (Inr ()), w3)))" for S
    by (intro confines_bind [OF copyFile_confined] quiet_bind confines_intros confines_return; simp)
  have ty: "confines (r_fd root) S any_post
      (\<lambda>w. case t of FReg \<Rightarrow> a1 w | FDir \<Rightarrow> b1 w | FLnk \<Rightarrow> (x, w) | FOther \<Rightarrow> (y, w))
      (\<lambda>w. case t of FReg \<Rightarrow> a2 w | FDir \<Rightarrow> b2 w | FLnk \<Rightarrow> (x, w) | FOther \<Rightarrow> (y, w))"
    if "confines (r_fd root) S any_post a1 a2" "confines (r_fd root) S any_post b1 b2"
    for t S x y and a1 :: "'a \<Rightarrow> 'c \<times> 'a" and a2 b1 b2
    using that by (cases t) (simp_all add: confines_return)
  show ?case
    unfolding copyInto.simps traced_cmd_simps
    by (intro quiet_bind confines_intros confines_return ty reg dir; simp)
qed

lemma put_sources_confined:
  "confines (r_fd root) S any_post (put_sources n c root cubby rel srcs) (put_sources n (traced_cmd c) root cubby rel srcs)"
proof (induction srcs arbitrary: S)
  case Nil
  show ?case by (simp add: confines_return)
next
  case (Cons src srcs)
  then show ?case
    unfolding put_sources.simps refuse_traced
    by (intro confines_bind [OF copyInto_confined] confines_intros confines_return confines_next; simp)
qed

lemma put_into_confined:
  "confines (r_fd root) S any_post (put_into n c root cubby rel srcs) (put_into n (traced_cmd c) root cubby rel srcs)"
proof -
  have srcs: "confines (r_fd root) S any_post
      (\<lambda>w. case m of Inl e \<Rightarrow> (Some (Inl e), w) | Inr _ \<Rightarrow> put_sources n c root cubby rel srcs w)
      (\<lambda>w. case m of Inl e \<Rightarrow> (Some (Inl e), w) | Inr _ \<Rightarrow> put_sources n (traced_cmd c) root cubby rel srcs w)" for m S
    by (intro confines_intros confines_return put_sources_confined; simp)
  have close: "confines (r_fd root) S any_post
      (\<lambda>w. case CloseRoot (c_kernel c) root w of (_, _, w5) \<Rightarrow> (r, w5))
      (\<lambda>w. case CloseRoot (traced (c_kernel c)) root w of (_, _, w5) \<Rightarrow> (r, w5))" for r S
    unfolding CloseRoot_def confines_def using confines_close by (auto simp: traced_def logged_def split: prod.splits)
  show ?thesis
    unfolding put_into_def traced_cmd_simps
    by (intro quiet_bind confines_bind [OF confines_if [OF mkdirAll_confined confines_return]] confines_bind [OF srcs]
        confines_intros confines_return close; simp)
qed


section \<open>Whose cubby\<close>

text \<open>
  The cubby a caller may fill: with PAM the directory of the caller's own name, otherwise that of
  an address the configuration lists; and the file system said it is a real directory of the
  caller, or (just made for an address) that it has the set-group-id bit and group access.
\<close>

definition own_cubby :: "'w cmd \<Rightarrow> Config \<Rightarrow> putUser \<Rightarrow> string \<Rightarrow> bool" where
  "own_cubby c cfg u p \<longleftrightarrow>
     (if PAM cfg then ValidUsername (pu_Name u) \<and> p = path_join [Data cfg, ''users'', pu_Name u]
      else (\<exists>m i. (m \<in> set (AllowedEmails cfg) \<or> AllowsEmail (c_case c) cfg m) \<and>
              EmailCubbyID (c_case c) (c_sha256 c) m = Some i \<and> p = path_join [path_join [Data cfg, ''home''], i])) \<and>
     (\<exists>w st w'. c_lstat c p w = (Inr st, w') \<and>
        (st_type st = FDir \<and> st_uid st = pu_UID u \<or>
         \<not> PAM cfg \<and> has_setgid st \<and> and (st_bits st) 0x38 = 0x38))"

lemma ownedCubby_ok: "ownedCubby p st u = Inr q \<Longrightarrow> q = p \<and> st_type st = FDir \<and> st_uid st = pu_UID u"
  by (auto simp: ownedCubby_def split: if_splits)

lemma pickPutEmail_ok:
  "pickPutEmail ct cfg em = Inr m \<Longrightarrow> m \<in> set (AllowedEmails cfg) \<or> AllowsEmail ct cfg m"
  by (auto simp: pickPutEmail_def split: if_splits option.splits list.splits)

lemma make_cubby_ok:
  "make_cubby c home cubby w = (Inr p, w') \<Longrightarrow>
   p = cubby \<and> (\<exists>w st w'. c_lstat c p w = (Inr st, w') \<and> has_setgid st \<and> and (st_bits st) 0x38 = 0x38)"
  by (auto simp: make_cubby_def split: prod.splits sum.splits if_splits)

lemma emailCubby_ok:
  assumes "emailCubby c data u i w = (Inr p, w')"
  shows "p = path_join [path_join [data, ''home''], i] \<and> (\<exists>w st w'. c_lstat c p w = (Inr st, w') \<and>
    (st_type st = FDir \<and> st_uid st = pu_UID u \<or> has_setgid st \<and> and (st_bits st) 0x38 = 0x38))"
  using assms
  by (auto simp: emailCubby_def Let_def split: prod.splits sum.splits if_splits dest!: make_cubby_ok ownedCubby_ok)

lemma pamCubby_ok:
  assumes "pamCubby c data u w = (Inr p, w')"
  shows "ValidUsername (pu_Name u) \<and> p = path_join [data, ''users'', pu_Name u] \<and>
    (\<exists>w st w'. c_lstat c p w = (Inr st, w') \<and> st_type st = FDir \<and> st_uid st = pu_UID u)"
  using assms
  by (auto simp: pamCubby_def Let_def split: prod.splits sum.splits if_splits dest!: ownedCubby_ok)

lemma cubbyDir_own:
  assumes "cubbyDir c (Some cfg) u em w = (Inr p, w')"
  shows "own_cubby c cfg u p"
proof (cases "PAM cfg")
  case True
  with assms have "pamCubby c (Data cfg) u w = (Inr p, w')"
    by (auto simp: cubbyDir_def split: if_splits)
  from pamCubby_ok [OF this] True show ?thesis by (auto simp: own_cubby_def)
next
  case False
  with assms obtain m i where m: "pickPutEmail (c_case c) cfg em = Inr m" "EmailCubbyID (c_case c) (c_sha256 c) m = Some i"
    and e: "emailCubby c (Data cfg) u i w = (Inr p, w')"
    by (auto simp: cubbyDir_def split: sum.splits option.splits)
  from emailCubby_ok [OF e] pickPutEmail_ok [OF m(1)] m(2) False show ?thesis
    unfolding own_cubby_def by auto
qed

text \<open>Choosing the cubby makes no call of the kernel.\<close>

lemma quiet_apply: "quiet f (w, t) = (fst (f w), (snd (f w), t))"
  by (simp add: quiet_def split: prod.splits)

lemma copySetgid_quiet: "copySetgid (traced_cmd c) home cubby = quiet (copySetgid c home cubby)"
  by (rule ext) (auto simp: copySetgid_def quiet_def split: prod.splits sum.splits)

lemma make_cubby_quiet: "make_cubby (traced_cmd c) home cubby = quiet (make_cubby c home cubby)"
  by (rule ext) (auto simp: make_cubby_def copySetgid_quiet quiet_def split: prod.splits sum.splits)

lemma emailCubby_quiet: "emailCubby (traced_cmd c) data u i = quiet (emailCubby c data u i)"
  by (rule ext) (auto simp: emailCubby_def Let_def make_cubby_quiet quiet_def split: prod.splits sum.splits)

lemma pamCubby_quiet: "pamCubby (traced_cmd c) data u = quiet (pamCubby c data u)"
  by (rule ext) (auto simp: pamCubby_def Let_def quiet_def split: prod.splits sum.splits)

lemma cubbyDir_quiet: "cubbyDir (traced_cmd c) cfg u em = quiet (cubbyDir c cfg u em)"
  by (rule ext) (auto simp: cubbyDir_def emailCubby_quiet pamCubby_quiet quiet_def split: prod.splits sum.splits option.splits)


section \<open>It returns\<close>

lemma join_entry_norm:
  assumes "plain_name n"
  shows "path_norm (path_join [src, n]) = (fst (path_norm src), snd (path_norm src) @ [n])"
proof (cases "src = []")
  case True
  have "\<not> has_prefix n ''/''" using assms by (auto simp: plain_name_def has_prefix_iff)
  then have "path_norm n = (False, [n])"
    using assms by (simp add: path_norm_def clean_parts_def clean_step_def plain_name_def split_sep_simple)
  moreover have "path_join [src, n] = path_clean n" using True assms by (auto simp: path_join_def plain_name_def)
  moreover have "path_norm [] = (False, [])" by code_simp
  ultimately show ?thesis using True by simp
next
  case False
  then show ?thesis using path_join_norm [of src "[n]"] assms by simp
qed

lemma length_join_sep: "[] \<notin> set ps \<Longrightarrow> length ps \<le> length (join_sep sep ps)"
proof (induction ps)
  case (Cons p ps)
  then show ?case by (cases p; cases ps) auto
qed simp

text \<open>How deep a cleaned path is, at most its length.\<close>

definition path_depth :: "string \<Rightarrow> nat" where
  "path_depth p = length (snd (path_norm p))"

lemma path_depth_length:
  assumes "path_clean p = p"
  shows "path_depth p \<le> length p"
proof -
  have "[] \<notin> set (snd (path_norm p))"
    using norm_parts_no_slash [OF path_norm_norm] by blast
  then have "length (snd (path_norm p)) \<le> length (join_sep ''/'' (snd (path_norm p)))" by (rule length_join_sep)
  also have "\<dots> \<le> length (path_render (path_norm p))" by (cases "path_norm p") auto
  also have "path_render (path_norm p) = p" using assms by (simp add: path_clean_def)
  finally show ?thesis by (simp add: path_depth_def)
qed

lemma join_entry:
  assumes "plain_name n"
  shows "path_clean (path_join [src, n]) = path_join [src, n]" "path_depth (path_join [src, n]) = Suc (path_depth src)"
  using join_entry_norm [OF assms, of src] assms
  by (auto simp: path_depth_def path_join_def path_clean_idem split: list.splits)

text \<open>
  What \<open>lstat\<close> and \<open>readdir\<close> document: a path longer than \<open>PATH_MAX\<close> cannot be looked at, and
  the entries of a directory are single names.
\<close>

definition path_max :: "nat \<Rightarrow> 'w cmd \<Rightarrow> bool" where
  "path_max L c \<longleftrightarrow>
     (\<forall>p w. length p > L \<longrightarrow> (\<exists>e w'. c_lstat c p w = (Inl e, w'))) \<and>
     (\<forall>p w ents w'. c_read_dir c p w = (Inr ents, w') \<longrightarrow> list_all plain_name (map fst ents))"

lemma copy_entries_returns:
  assumes "\<And>n rel w. n \<in> set ns \<Longrightarrow> fst (down (path_join [src, n]) rel w) \<noteq> None"
  shows "fst (copy_entries down src rel ns w) \<noteq> None"
  using assms
proof (induction ns arbitrary: w)
  case (Cons n ns)
  obtain r w1 where r: "down (path_join [src, n]) (if rel \<noteq> [] then rel @ ''/'' @ n else n) w = (r, w1)" by force
  with Cons.prems [of n "if rel \<noteq> [] then rel @ ''/'' @ n else n" w] obtain x where "r = Some x" by auto
  with r Cons show ?case by (cases x) auto
qed simp

lemma copyDir_returns:
  assumes "path_max L c" "\<And>n rel w. plain_name n \<Longrightarrow> fst (down (path_join [src, n]) rel w) \<noteq> None"
  shows "fst (copyDir down c root src rel w) \<noteq> None"
proof -
  have "fst (copy_entries down src rel (map fst ents) w2) \<noteq> None" if "c_read_dir c src w1 = (Inr ents, w2)" for ents w1 w2
  proof (rule copy_entries_returns)
    fix n rel w assume "n \<in> set (map fst ents)"
    moreover have "list_all plain_name (map fst ents)" using that assms(1) unfolding path_max_def by blast
    ultimately show "fst (down (path_join [src, n]) rel w) \<noteq> None" using assms(2) by (auto simp: list_all_iff)
  qed
  then show ?thesis by (auto simp: copyDir_def split: prod.splits sum.splits)
qed

lemma copyInto_step:
  assumes "path_max L c" "\<And>n rel w. plain_name n \<Longrightarrow> length src \<le> L \<Longrightarrow> fst (copyInto m c root (path_join [src, n]) rel w) \<noteq> None"
  shows "fst (copyInto (Suc m) c root src rel w) \<noteq> None"
proof -
  obtain r w1 where r: "c_lstat c src w = (r, w1)" by force
  show ?thesis
  proof (cases r)
    case (Inr st)
    with r assms(1) have "length src \<le> L" unfolding path_max_def by (metis Inl_Inr_False fst_conv linorder_not_le)
    then have "fst (copyDir (copyInto m c root) c root src rel w1) \<noteq> None"
      using copyDir_returns [OF assms(1)] assms(2) by blast
    with r Inr show ?thesis by (auto split: ftype.splits prod.splits sum.splits)
  qed (use r in simp)
qed

lemma copyInto_clean_returns:
  assumes "path_max L c" "path_clean src = src" "0 < n" "L + 2 \<le> n + path_depth src"
  shows "fst (copyInto n c root src rel w) \<noteq> None"
  using assms(2-)
proof (induction n arbitrary: src rel w)
  case (Suc m)
  show ?case
  proof (rule copyInto_step [OF assms(1)])
    fix n rel w assume n: "plain_name n" "length src \<le> L"
    then have "path_depth src \<le> L" using path_depth_length [OF Suc.prems(1)] by simp
    then show "fst (copyInto m c root (path_join [src, n]) rel w) \<noteq> None"
      using Suc.prems(3) join_entry [OF n(1), of src] by (intro Suc.IH) auto
  qed
qed simp

lemma copyInto_returns:
  assumes "path_max L c" "L + 2 \<le> n"
  shows "fst (copyInto n c root src rel w) \<noteq> None"
proof (cases n)
  case (Suc m)
  show ?thesis
    unfolding Suc
  proof (rule copyInto_step [OF assms(1)])
    fix k rel w assume "plain_name k" "length src \<le> L"
    then show "fst (copyInto m c root (path_join [src, k]) rel w) \<noteq> None"
      using assms(2) Suc join_entry [of k src] by (intro copyInto_clean_returns [OF assms(1)]) auto
  qed
qed (use assms in simp)

lemma put_sources_returns:
  assumes "path_max L c" "L + 2 \<le> n"
  shows "fst (put_sources n c root cubby rel srcs w) \<noteq> None"
proof (induction srcs arbitrary: w)
  case (Cons src srcs)
  have "fst (case copyInto n c root src target w of (r, w1) \<Rightarrow>
      case r of Some (Inr _) \<Rightarrow> put_sources n c root cubby rel srcs w1 | _ \<Rightarrow> (r, w1)) \<noteq> None" for target
    using copyInto_returns [OF assms, of root src target w] Cons.IH
    by (auto split: prod.splits option.splits sum.splits)
  then show ?case by (auto split: sum.splits)
qed simp

text \<open>
  C37. \<open>bootstash put\<close> returns: with a path limit \<open>L\<close> (\<open>PATH_MAX\<close>), a recursion depth of \<open>L + 2\<close> is
  enough for every run, whatever the source tree is; the run ends with a success or an error.
\<close>

theorem put_returns:
  assumes "path_max L c" "L + 2 \<le> n"
  shows "\<exists>res. fst (put_run n c u cfg em dest srcs w) = Some res"
proof -
  have into: "fst (put_into n c root cubby rel srcs w) \<noteq> None" for root cubby rel w
  proof -
    obtain old w1 where u: "c_umask c 0 w = (old, w1)" by force
    obtain m w2 where m: "(if rel \<noteq> [] then mkdirAll c root rel w1 else (Inr (), w1)) = (m, w2)" by force
    obtain x w3 where x: "(case m of Inl e \<Rightarrow> (Some (Inl e), w2) | Inr _ \<Rightarrow> put_sources n c root cubby rel srcs w2) = (x, w3)"
      by force
    then have "x \<noteq> None" using put_sources_returns [OF assms, of root cubby rel srcs w2] by (cases m) auto
    then show ?thesis unfolding put_into_def u m prod.case x by (simp split: prod.splits)
  qed
  then have "fst (put_run n c u cfg em dest srcs w) \<noteq> None"
    by (auto simp: put_run_def split: prod.splits sum.splits)
  then show ?thesis by blast
qed

text \<open>A source directory with a file and a directory in it, and the cubby of \<open>bob\<close>.\<close>

definition src_node :: "ftype \<Rightarrow> kstat" where
  "src_node t = \<lparr>st_type = t, st_bits = 0x5F8, st_uid = 1000, st_gid = 100, st_size = 3\<rparr>"

definition src_entry :: "string \<Rightarrow> (errno + kstat)" where
  "src_entry p =
     (if p = ''/s'' \<or> p = ''/s/d'' \<or> p = ''/v/users/bob'' then Inr (src_node FDir)
      else if p = ''/s/a'' \<or> p = ''/s/d/b'' then Inr (src_node FReg)
      else Inl ENOENT)"

definition src_list :: "string \<Rightarrow> (errno + (string \<times> kstat) list)" where
  "src_list p =
     (if p = ''/s'' then Inr [(''a'', src_node FReg), (''d'', src_node FDir)]
      else if p = ''/s/d'' then Inr [(''b'', src_node FReg)]
      else Inl ENOTDIR)"

definition demo_cmd :: "pworld cmd" where
  "demo_cmd = \<lparr>c_kernel = px_kernel, c_uid = 1000, c_username = Some ''bob'', c_cwd = Some ''/'',
     c_umask = (\<lambda>m w. (0x12, w)), c_lstat = (\<lambda>p w. (src_entry p, w)), c_mkdir = (\<lambda>p m w. (Inl EACCES, w)),
     c_chmod = (\<lambda>p m w. (Inl EPERM, w)), c_read_dir = (\<lambda>p w. (src_list p, w)),
     c_open = (\<lambda>p w. (Inr ([p], None), w)), c_rand = (\<lambda>n w. (Some ''ABCDEFGH'', w)), c_println = (\<lambda>s w. ((), w)),
     c_users = (\<lambda>u. None), c_groups = (\<lambda>g. None), c_case = \<lparr>lower = (\<lambda>r. r), upper = (\<lambda>r. r)\<rparr>, c_sha256 = (\<lambda>s. s)\<rparr>"

definition put_config :: Config where
  "put_config = zero_config\<lparr>Data := ''/v'', PAM := True\<rparr>"

definition bob :: putUser where
  "bob = \<lparr>pu_Name = ''bob'', pu_UID = 1000\<rparr>"

lemma demo_path_max: "path_max 12 demo_cmd"
  by (auto simp: path_max_def demo_cmd_def src_entry_def src_list_def plain_name_def Let_def split: if_splits)

definition put_world :: pworld where
  "put_world = \<lparr>px_fds = [], px_ents = [((1, ''v''), 2), ((2, ''users''), 3), ((3, ''bob''), 4)],
     px_nodes = [(1, demo_dir), (2, demo_dir), (3, demo_dir), (4, demo_dir)]\<rparr>"

theorem put_returns_witness:
  "\<exists>res. fst (put_run 14 demo_cmd bob put_config [] ''in'' [''/s''] put_world) = Some res"
  by (rule put_returns [OF demo_path_max]) simp

end
