(* ===== verification/Cli_Provision.thy ===== *)
theory Cli_Provision
  imports Cli_Admin
begin

text \<open>
  The command \<open>bootstash provision-google\<close> (\<open>cmd/bootstash/provision.go\<close>): the recipe it prints, the
  path of the downloaded client file from a flag or the prompt, and its installation
  (\<open>installGoogleClientJSON\<close> in \<open>Cli_Admin\<close>). The parsed flags, the loaded configuration, the output
  of \<open>gcloud\<close>, standard input and the reading of the source file are arguments.
\<close>

section \<open>The recipe\<close>

record googleSetup =
  gs_Pub :: string
  gs_Redirect :: string
  gs_Proj :: string
  gs_TLS :: bool
  gs_TLSOff :: bool
  gs_CertName :: string
  gs_Binds :: "string list"
  gs_OriginSet :: bool

text \<open>The third step's explanation of the address.\<close>

definition setup_origin :: "googleSetup \<Rightarrow> string list" where
  "setup_origin s =
     (if gs_OriginSet s then [''   PUBLIC_URL came from -origin.'']
      else if gs_TLS s then
        [''   HTTPS: PEMs found under /etc/bootstash/certs (TCP binds already'',
         ''   speak HTTPS). Finding certs does not change LISTEN or move the port'',
         ''   to 443. The port in the URI is LISTEN ('' @ join_sep '', '' (gs_Binds s) @ '').''] @
        (if gs_CertName s \<noteq> [] then [''   CERT_NAME='' @ gs_CertName s] else []) @
        [''   Browser on default HTTPS: set LISTEN (e.g. *:443) and run this again.'']
      else if gs_TLSOff s then
        [''   HTTP: TLS=no. TCP binds stay cleartext. The deploy hook does'',
         ''   not copy live/ into /etc/bootstash/certs and removes dest PEMs'',
         ''   there (User=bootstash should not hold an unused private key).'',
         ''   An explicit PUBLIC_URL keeps its scheme (proxy terminates TLS).'']
      else
        [''   HTTP: no PEMs in /etc/bootstash/certs. Do not invent https://.'',
         ''   To use HTTPS: CERT_NAME=<lineage> in /etc/default/bootstash, then'',
         ''   sudo /usr/lib/bootstash/letsencrypt-deploy sync, then run this again.'',
         ''   Do not point TLS_* at /etc/letsencrypt/live.''])"

definition printGoogleSetup :: "googleSetup \<Rightarrow> string list" where
  "printGoogleSetup s =
     (let q = (if gs_Proj s \<noteq> [] then ''?project='' @ gs_Proj s else []) in
      [''1. GCP project (once)'',
       ''   https://console.cloud.google.com/cloud-resource-manager'' @ q,
       ''   Recommend: display name bootstash. Project id bootstash if free;'',
       ''   otherwise bootstash-<tag>. One project is enough. Not the hostname.''] @
      (if gs_Proj s \<noteq> [] then [''   Current gcloud project:'' @ '' '' @ gs_Proj s]
       else [''   No gcloud project; pass -project ID or: gcloud auth login'']) @
      [[],
       ''2. Branding / consent screen (once per project)'',
       ''   https://console.cloud.google.com/auth/branding'' @ q,
       ''   Recommend: External. Testing. App name bootstash. Support email = you.'',
       ''   Add your Google account as a test user. Skip verification unless any'',
       ''   Google account must work.'',
       [],
       ''3. OAuth client (one per PUBLIC_URL)'',
       ''   https://console.cloud.google.com/auth/clients'' @ q,
       ''   Recommend: type Web application. Name can be bootstash or the host.'',
       ''   Authorized redirect URI (exact, $PUBLIC_URL/oidc/callback):'',
       ''    '' @ '' '' @ gs_Redirect s,
       ''   Paste that character-for-character. Leave other client fields empty.'',
       ''   Authorized JavaScript origins: leave empty, or'',
       ''    '' @ '' '' @ gs_Pub s,
       ''   with no path.''] @
      setup_origin s @
      [[],
       ''4. Download the client JSON from the console (Download JSON). That file'',
       ''   has web.client_id and web.client_secret. Not your Google account.'',
       ''   This command copies it to /etc/bootstash/oidc-google.json (needs root).'',
       ''   It does not write TLS certs and does not create the Google client'',
       ''   (gcloud has no API for that type).'',
       []])"

section \<open>The command\<close>

text \<open>\<open>ReadString\<close> up to a line feed fails when the input ends before one.\<close>

definition prompt :: "string \<Rightarrow> string option" where
  "prompt input =
     (if CHR 0x0A \<in> set input then Some (go_trim_space (takeWhile (\<lambda>c. c \<noteq> CHR 0x0A) input @ [CHR 0x0A])) else None)"

text \<open>\<open>None\<close>: there is no \<open>gcloud\<close>, or it failed.\<close>

definition gcloudValue :: "string option \<Rightarrow> string" where
  "gcloudValue output =
     (case output of
        None \<Rightarrow> []
      | Some out \<Rightarrow> let v = go_trim_space out in if v = [] \<or> v = ''(unset)'' then [] else v)"

record provision_flags =
  pf_origin :: string
  pf_project :: string
  pf_json :: string

definition setup_of :: "Config \<Rightarrow> provision_flags \<Rightarrow> string option \<Rightarrow> string \<Rightarrow> googleSetup" where
  "setup_of cfg fl gcloud pub =
     \<lparr>gs_Pub = pub, gs_Redirect = pub @ ''/oidc/callback'',
      gs_Proj = (if pf_project fl = [] then gcloudValue gcloud else pf_project fl),
      gs_TLS = UseTLS cfg, gs_TLSOff = DisableTLS cfg, gs_CertName = CertName cfg, gs_Binds = Binds cfg,
      gs_OriginSet = pf_origin fl \<noteq> []\<rparr>"

text \<open>
  The exit code and the lines on standard output. \<open>read\<close> reads the source file, \<open>dest\<close> is the name of
  the secrets file in its directory and \<open>default_dir\<close> says whether that is the packaged directory.
\<close>

definition provision_install ::
  "(string \<Rightarrow> googleClientJSON option) \<Rightarrow> group_db \<Rightarrow> (string \<Rightarrow> errno + string) \<Rightarrow> string \<Rightarrow> string \<Rightarrow> bool \<Rightarrow>
   string \<Rightarrow> string list \<Rightarrow> string \<Rightarrow> osdir \<Rightarrow> (nat \<times> string list) \<times> osdir" where
  "provision_install unmarshal gdb read secretsFile dest default_dir grp recipe src w =
     (if src = [] then ((1, recipe), w)
      else (case installGoogleClientJSON unmarshal gdb (read src) dest default_dir grp w of (r, w1) \<Rightarrow>
        case r of
          Inl _ \<Rightarrow> ((1, recipe), w1)
        | Inr _ \<Rightarrow> ((0, recipe @ [''Installed Google client JSON at '' @ secretsFile]), w1)))"

definition runProvision ::
  "(string \<Rightarrow> googleClientJSON option) \<Rightarrow> group_db \<Rightarrow> ('e, Config) result \<Rightarrow> provision_flags \<Rightarrow> string option \<Rightarrow>
   string \<Rightarrow> (string \<Rightarrow> errno + string) \<Rightarrow> string \<Rightarrow> string \<Rightarrow> bool \<Rightarrow> osdir \<Rightarrow> (nat \<times> string list) \<times> osdir" where
  "runProvision unmarshal gdb loaded fl gcloud input read secretsFile dest default_dir w =
     (case loaded of
        Inl _ \<Rightarrow> ((1, []), w)
      | Inr cfg \<Rightarrow>
          (let pub = (if pf_origin fl = [] then PublicURL cfg else pf_origin fl) in
           if pub = [] then ((1, []), w)
           else (let recipe = printGoogleSetup (setup_of cfg fl gcloud (trim_right pub ''/'')) in
             case (if pf_json fl = [] then prompt input else Some (pf_json fl)) of
               None \<Rightarrow> ((1, recipe), w)
             | Some src \<Rightarrow>
                 provision_install unmarshal gdb read secretsFile dest default_dir (cfg_UnixGroup cfg) recipe src w)))"

section \<open>What the command changes\<close>

lemma chownGroup_bytes:
  assumes "\<And>g w r w'. chown g w = (r, w') \<Longrightarrow> bytes w' = bytes w"
  shows "bytes (chownGroup gdb grp chown w) = bytes w"
proof -
  have "bytes (snd (chown g w)) = bytes w" for g using assms [of g w] by (cases "chown g w") simp
  then show ?thesis by (simp add: chownGroup_def split: option.split)
qed

lemma install_dir_bytes: "install_dir gdb grp d w = (r, w') \<Longrightarrow> bytes w' = bytes w"
proof -
  have "chown_dir u g w = (r, w') \<Longrightarrow> bytes w' = bytes w" for u g w r w'
    by (auto simp: chown_dir_def os_chown_dir_def split: prod.splits sum.splits option.splits if_splits dest!: os_keep(1) fault_view)
  from chownGroup_bytes [of "chown_dir (- 1)", OF this]
  have chown: "bytes (chownGroup gdb grp (chown_dir (- 1)) w1) = bytes w1" for w1 .
  have chmod: "chmod_dir m w = (r, w') \<Longrightarrow> bytes w' = bytes w" for m w r w'
    by (auto simp: chmod_dir_def split: prod.splits sum.splits if_splits dest!: os_keep(1,3))
  show "install_dir gdb grp d w = (r, w') \<Longrightarrow> bytes w' = bytes w"
    by (auto simp: install_dir_def Let_def chown split: prod.splits sum.splits if_splits dest!: os_keep(1,2) chmod)
qed

lemma install_file_bytes:
  assumes "install_file gdb grp dest b w = (r, w')"
  shows "(\<forall>x. x \<noteq> dest \<and> x \<noteq> dest @ ''.tmp'' \<longrightarrow> bytes w' x = bytes w x) \<and>
    (bytes w' dest = Some b \<or> r \<noteq> Inr () \<and> bytes w' dest = bytes w dest)"
proof -
  have ch: "bytes (chownGroup gdb grp (Osutil.Chown n (- 1)) w1) = bytes w1" for n w1
    by (rule chownGroup_bytes) (rule osutil_keep(2))
  note rename = os_rename_bytes [of "dest @ ''.tmp''" dest, simplified]
  show ?thesis
    using assms
    by (auto simp: install_file_def Let_def ch split: prod.splits sum.splits
        dest!: os_write_file_bytes osutil_keep(1) rename)
qed

lemma installGoogleClientJSON_bytes:
  assumes "installGoogleClientJSON unmarshal gdb rd dest d grp w = (r, w')"
  shows "(\<forall>x. x \<noteq> dest \<and> x \<noteq> dest @ ''.tmp'' \<longrightarrow> bytes w' x = bytes w x) \<and>
    (r \<noteq> Inr () \<and> bytes w' dest = bytes w dest \<or>
     (\<exists>b i secret. rd = Inr b \<and> ParseGoogleClientJSON unmarshal b = Inr (i, secret) \<and> secret \<noteq> [] \<and>
        bytes w' dest = Some b))"
proof -
  obtain r1 w1 where dir: "install_dir gdb grp d w = (r1, w1)" by force
  obtain r2 w2 where put: "install_file gdb grp dest (projr rd) w1 = (r2, w2)" by force
  note same = install_dir_bytes [OF dir] and written = install_file_bytes [OF put]
  show ?thesis
  proof (cases "\<exists>b i secret. rd = Inr b \<and> ParseGoogleClientJSON unmarshal b = Inr (i, secret) \<and> secret \<noteq> []")
    case True
    then obtain b i secret where ok: "rd = Inr b" "ParseGoogleClientJSON unmarshal b = Inr (i, secret)" "secret \<noteq> []"
      by blast
    show ?thesis
    proof (cases r1)
      case (Inl e)
      with assms ok dir have "r \<noteq> Inr ()" "w' = w1" by (auto simp: installGoogleClientJSON_def)
      with same show ?thesis by simp
    next
      case (Inr u)
      with assms ok dir put have "r = map_sum Install id r2" "w' = w2" by (auto simp: installGoogleClientJSON_def)
      with same written ok show ?thesis by (cases r2) auto
    qed
  next
    case False
    with assms have "r \<noteq> Inr ()" "w' = w"
      by (auto simp: installGoogleClientJSON_def split: sum.splits if_splits)
    then show ?thesis by simp
  qed
qed

text \<open>
  Whichever call fails, the secrets file afterwards holds its old bytes or the whole of a client
  file that was accepted, the latter whenever the exit code is 0, and besides its temporary file
  nothing changes.
\<close>

definition provisioned ::
  "(string \<Rightarrow> googleClientJSON option) \<Rightarrow> (string \<Rightarrow> errno + string) \<Rightarrow> string \<Rightarrow> osdir \<Rightarrow> nat \<Rightarrow> osdir \<Rightarrow> bool" where
  "provisioned unmarshal read dest w code w' \<longleftrightarrow>
     (\<forall>x. x \<noteq> dest \<and> x \<noteq> dest @ ''.tmp'' \<longrightarrow> bytes w' x = bytes w x) \<and>
     (code \<noteq> 0 \<and> bytes w' dest = bytes w dest \<or>
      (\<exists>src b i secret. read src = Inr b \<and> ParseGoogleClientJSON unmarshal b = Inr (i, secret) \<and> secret \<noteq> [] \<and>
         bytes w' dest = Some b))"

lemma provision_install_bytes:
  assumes "provision_install unmarshal gdb read secretsFile dest d grp recipe src w = ((code, out), w')"
  shows "provisioned unmarshal read dest w code w'"
proof (cases "src = []")
  case True
  with assms show ?thesis by (simp add: provision_install_def provisioned_def)
next
  case False
  obtain r w1 where run: "installGoogleClientJSON unmarshal gdb (read src) dest d grp w = (r, w1)" by force
  with assms False have code: "w' = w1" "code = 0 \<longleftrightarrow> r = Inr ()"
    by (cases r; simp add: provision_install_def; auto)+
  note result = installGoogleClientJSON_bytes [OF run]
  from result [THEN conjunct2] show ?thesis
    unfolding provisioned_def code
    by (intro conjI [OF result [THEN conjunct1]]) (elim disj_forward; blast)
qed

lemma runProvision_bytes:
  assumes "runProvision unmarshal gdb loaded fl gcloud input read secretsFile dest d w = ((code, out), w')"
  shows "provisioned unmarshal read dest w code w'"
proof (cases loaded)
  case (Inl e)
  with assms show ?thesis by (simp add: runProvision_def provisioned_def)
next
  case (Inr cfg)
  define pub where "pub = (if pf_origin fl = [] then PublicURL cfg else pf_origin fl)"
  define recipe where "recipe = printGoogleSetup (setup_of cfg fl gcloud (trim_right pub ''/''))"
  define src where "src = (if pf_json fl = [] then prompt input else Some (pf_json fl))"
  have "runProvision unmarshal gdb loaded fl gcloud input read secretsFile dest d w =
      (if pub = [] then ((1, []), w)
       else case src of None \<Rightarrow> ((1, recipe), w)
       | Some p \<Rightarrow> provision_install unmarshal gdb read secretsFile dest d (cfg_UnixGroup cfg) recipe p w)"
    by (simp only: runProvision_def Inr pub_def [symmetric] recipe_def src_def Let_def sum.case)
  with assms have "w' = w \<and> code = 1 \<or>
      (\<exists>p. provision_install unmarshal gdb read secretsFile dest d (cfg_UnixGroup cfg) recipe p w = ((code, out), w'))"
    by (cases "pub = []"; cases src) auto
  then show ?thesis
    by (elim disjE conjE exE) (simp add: provisioned_def, erule provision_install_bytes)
qed

end
