(* ===== verification/Oidc_Google.thy ===== *)
theory Oidc_Google
  imports Web_Server
begin

text \<open>
  Signing in with Google (\<open>internal/oidcgoogle\<close>): the provider with its cached discovery
  document, and the authorization-code flow. The OpenID and OAuth libraries are a parameter, the
  record \<open>oidc_lib\<close>; a discovery document is a handle. A verifier is the pair of the document
  and the client it was made for. The provider is part of the world its calls change.
\<close>

section \<open>State\<close>

definition Issuer :: string where
  "Issuer = ''https://accounts.google.com''"

record Provider =
  g_ClientID :: string
  g_ClientSecret :: string
  g_provider :: "nat option"
  g_verifier :: "(nat \<times> string) option"

record oauth_config =
  oa_ClientID :: string
  oa_ClientSecret :: string
  oa_RedirectURL :: string
  oa_provider :: nat
  oa_Scopes :: "string list"

text \<open>A verified token; the claims are what decoding leaves in the structure.\<close>

record id_token =
  it_Issuer :: string
  it_Subject :: string
  it_Nonce :: string
  it_Email :: string
  it_EmailVerified :: bool
  it_Name :: string

record 'v oidc_lib =
  ol_NewProvider :: "string \<Rightarrow> 'v \<Rightarrow> nat option \<times> 'v"
  ol_GenerateVerifier :: "'v \<Rightarrow> string \<times> 'v"
  ol_AuthCodeURL :: "oauth_config \<Rightarrow> string \<Rightarrow> string \<Rightarrow> string \<Rightarrow> string"
  ol_Exchange :: "oauth_config \<Rightarrow> string \<Rightarrow> string option \<Rightarrow> 'v \<Rightarrow> string option option \<times> 'v"
  ol_Verify :: "nat \<times> string \<Rightarrow> string \<Rightarrow> 'v \<Rightarrow> id_token option \<times> 'v"

type_synonym 'v google = "Provider \<times> 'v"

section \<open>Operations\<close>

text \<open>\<open>get\<close>: the discovery document and the verifier, fetched once.\<close>

definition get_provider :: "'v oidc_lib \<Rightarrow> 'v google \<Rightarrow> (nat \<times> (nat \<times> string)) option \<times> 'v google" where
  "get_provider l w =
     (case w of (p, v) \<Rightarrow>
      case (g_provider p, g_verifier p) of
        (Some d, Some vf) \<Rightarrow> (Some (d, vf), (p, v))
      | _ \<Rightarrow>
          (case ol_NewProvider l Issuer v of (r, v1) \<Rightarrow>
           case r of
             None \<Rightarrow> (None, (p, v1))
           | Some d \<Rightarrow>
               (let vf = (d, g_ClientID p) in
                (Some (d, vf), (p\<lparr>g_provider := Some d, g_verifier := Some vf\<rparr>, v1)))))"

definition SetClient :: "string \<Rightarrow> string \<Rightarrow> 'v google \<Rightarrow> unit \<times> 'v google" where
  "SetClient i secret w =
     (case w of (p, v) \<Rightarrow>
      if g_ClientID p = i \<and> g_ClientSecret p = secret then ((), (p, v))
      else ((), (\<lparr>g_ClientID = i, g_ClientSecret = secret, g_provider = None, g_verifier = None\<rparr>, v)))"

definition oauth :: "'v oidc_lib \<Rightarrow> string \<Rightarrow> 'v google \<Rightarrow> oauth_config option \<times> 'v google" where
  "oauth l redirectURL w =
     (case get_provider l w of (g, w1) \<Rightarrow>
      case g of
        None \<Rightarrow> (None, w1)
      | Some (d, _) \<Rightarrow>
          (Some \<lparr>oa_ClientID = g_ClientID (fst w1), oa_ClientSecret = g_ClientSecret (fst w1),
             oa_RedirectURL = redirectURL, oa_provider = d,
             oa_Scopes = [''openid'', ''email'', ''profile'']\<rparr>, w1))"

definition AuthCodeURL ::
  "'v oidc_lib \<Rightarrow> string \<Rightarrow> string \<Rightarrow> string \<Rightarrow> 'v google \<Rightarrow> (string \<times> string) option \<times> 'v google" where
  "AuthCodeURL l st nonce redirectURL w =
     (case oauth l redirectURL w of (c, w1) \<Rightarrow>
      case c of
        None \<Rightarrow> (None, w1)
      | Some cfg \<Rightarrow>
          (case ol_GenerateVerifier l (snd w1) of (verifier, v2) \<Rightarrow>
           (Some (ol_AuthCodeURL l cfg st nonce verifier, verifier), (fst w1, v2))))"

text \<open>The identity a verified token gives, unless its nonce is another one.\<close>

definition token_identity :: "string \<Rightarrow> id_token \<Rightarrow> oidc_identity option" where
  "token_identity nonce t =
     (if it_Nonce t \<noteq> nonce \<and> nonce \<noteq> [] then None
      else Some \<lparr>id_Issuer = (if it_Issuer t = [] then Issuer else it_Issuer t), id_Subject = it_Subject t,
             id_Email = it_Email t, id_EmailVerified = it_EmailVerified t, id_FullName = it_Name t\<rparr>)"

definition Exchange ::
  "'v oidc_lib \<Rightarrow> string \<Rightarrow> string \<Rightarrow> string \<Rightarrow> string \<Rightarrow> 'v google \<Rightarrow> oidc_identity option \<times> 'v google" where
  "Exchange l code nonce redirectURL verifier w =
     (case oauth l redirectURL w of (c, w1) \<Rightarrow>
      case c of
        None \<Rightarrow> (None, w1)
      | Some cfg \<Rightarrow>
          (case get_provider l w1 of (g, w2) \<Rightarrow>
           case g of
             None \<Rightarrow> (None, w2)
           | Some (_, vf) \<Rightarrow>
               (case ol_Exchange l cfg code (if verifier \<noteq> [] then Some verifier else None) (snd w2) of (tok, v3) \<Rightarrow>
                case tok of
                  None \<Rightarrow> (None, (fst w2, v3))
                | Some extra \<Rightarrow>
                    if extra = None \<or> extra = Some [] then (None, (fst w2, v3))
                    else (case ol_Verify l vf (the extra) v3 of (t, v4) \<Rightarrow>
                          (Option.bind t (token_identity nonce), (fst w2, v4))))))"

text \<open>The provider as the web server sees it: an exchange that succeeds returns no nil pointer.\<close>

definition google_idp :: "'v oidc_lib \<Rightarrow> 'v google idp" where
  "google_idp l = \<lparr>i_AuthCodeURL = AuthCodeURL l,
     i_Exchange = (\<lambda>code nonce uri verifier w. case Exchange l code nonce uri verifier w of (r, w1) \<Rightarrow>
       (map_option Some r, w1)),
     i_SetClient = Some SetClient\<rparr>"

section \<open>The cached verifier\<close>

text \<open>A cached document comes with its verifier, which is for the current client.\<close>

definition provider_ok :: "Provider \<Rightarrow> bool" where
  "provider_ok p \<longleftrightarrow>
     (case g_provider p of None \<Rightarrow> g_verifier p = None | Some d \<Rightarrow> g_verifier p = Some (d, g_ClientID p))"

lemma get_provider_ok:
  assumes "provider_ok (fst w)" "get_provider l w = (r, w1)"
  shows "provider_ok (fst w1)" "g_ClientID (fst w1) = g_ClientID (fst w)"
    "r = Some (d, vf) \<Longrightarrow> vf = (d, g_ClientID (fst w)) \<and> g_provider (fst w1) = Some d"
  using assms by (auto simp: get_provider_def provider_ok_def Let_def split: prod.splits option.splits)

lemma oauth_ok:
  assumes "provider_ok (fst w)" "oauth l uri w = (r, w1)"
  shows "provider_ok (fst w1)" "g_ClientID (fst w1) = g_ClientID (fst w)"
    "r = Some cfg \<Longrightarrow> oa_ClientID cfg = g_ClientID (fst w) \<and> oa_RedirectURL cfg = uri"
proof -
  obtain g w2 where g: "get_provider l w = (g, w2)" by (cases "get_provider l w") blast
  note ok = get_provider_ok [OF assms(1) g]
  have w: "w1 = w2" using assms(2) g by (auto simp: oauth_def split: option.splits)
  show "provider_ok (fst w1)" "g_ClientID (fst w1) = g_ClientID (fst w)" using ok(1,2) w by simp_all
  show "oa_ClientID cfg = g_ClientID (fst w) \<and> oa_RedirectURL cfg = uri" if "r = Some cfg"
    using assms(2) g that ok(2) by (auto simp: oauth_def split: option.splits)
qed

text \<open>The calls the server makes on the provider, in any order.\<close>

inductive used :: "'v oidc_lib \<Rightarrow> 'v google \<Rightarrow> 'v google \<Rightarrow> bool" for l w0 where
  Unused: "used l w0 w0"
| Client: "used l w0 w \<Longrightarrow> used l w0 (snd (SetClient i secret w))"
| Url: "used l w0 w \<Longrightarrow> used l w0 (snd (AuthCodeURL l st nonce uri w))"
| Code: "used l w0 w \<Longrightarrow> used l w0 (snd (Exchange l code nonce uri verifier w))"
| Time: "used l w0 (p, v) \<Longrightarrow> used l w0 (p, v')"

lemma AuthCodeURL_ok: "provider_ok (fst w) \<Longrightarrow> provider_ok (fst (snd (AuthCodeURL l st nonce uri w)))"
  using oauth_ok(1) [of w l uri] by (auto simp: AuthCodeURL_def split: prod.splits option.splits)

lemma Exchange_provider:
  assumes "provider_ok (fst w)"
  shows "provider_ok (fst (snd (Exchange l code nonce uri verifier w)))"
proof -
  obtain c w1 where c: "oauth l uri w = (c, w1)" by (cases "oauth l uri w") blast
  obtain g w2 where g: "get_provider l w1 = (g, w2)" by (cases "get_provider l w1") blast
  have "provider_ok (fst w1)" "provider_ok (fst w2)"
    using oauth_ok(1) [OF assms c] get_provider_ok(1) [OF _ g] by simp_all
  then show ?thesis
    using c g by (auto simp: Exchange_def split: prod.splits option.splits)
qed

lemma used_ok:
  assumes "used l w0 w" "provider_ok (fst w0)"
  shows "provider_ok (fst w)"
  using assms(1)
proof induction
  case Unused
  then show ?case by (rule assms(2))
next
  case (Client w i secret)
  then show ?case by (cases w) (auto simp: SetClient_def provider_ok_def split: option.splits)
next
  case (Url w st nonce uri)
  then show ?case using AuthCodeURL_ok by blast
next
  case (Code w code nonce uri verifier)
  then show ?case using Exchange_provider by blast
next
  case (Time p v v')
  then show ?case by simp
qed

end
