(* ===== verification/Oidc_Properties.thy ===== *)
theory Oidc_Properties
  imports Oidc_Google
begin

text \<open>
  What an identity of the Google provider rests on, in every state the server's calls lead to.
\<close>

section \<open>Following an exchange\<close>

text \<open>The token a verifier of the current client accepted, for a code exchanged under \<open>verifier\<close>.\<close>

definition vouched ::
  "'v oidc_lib \<Rightarrow> string \<Rightarrow> string \<Rightarrow> string \<Rightarrow> string \<Rightarrow> string \<Rightarrow> id_token \<Rightarrow> bool" where
  "vouched l client code nonce uri verifier t \<longleftrightarrow>
     (\<exists>cfg raw doc. oa_ClientID cfg = client \<and> oa_RedirectURL cfg = uri \<and> raw \<noteq> [] \<and>
        (\<exists>v. fst (ol_Exchange l cfg code (if verifier = [] then None else Some verifier) v) = Some (Some raw)) \<and>
        (\<exists>v. fst (ol_Verify l (doc, client) raw v) = Some t)) \<and>
     (nonce = [] \<or> it_Nonce t = nonce)"

definition identity_of :: "id_token \<Rightarrow> oidc_identity \<Rightarrow> bool" where
  "identity_of t i \<longleftrightarrow> id_Subject i = it_Subject t \<and> id_Email i = it_Email t \<and>
     id_EmailVerified i = it_EmailVerified t \<and> id_Issuer i \<noteq> [] \<and>
     (it_Issuer t \<noteq> [] \<longrightarrow> id_Issuer i = it_Issuer t)"

lemma token_identity_of:
  "token_identity nonce t = Some i \<Longrightarrow> identity_of t i \<and> (nonce = [] \<or> it_Nonce t = nonce)"
  by (auto simp: token_identity_def identity_of_def Issuer_def split: if_splits)

lemma Exchange_some:
  assumes ok: "provider_ok (fst w)" and x: "Exchange l code nonce uri verifier w = (Some i, w')"
  obtains t where "vouched l (g_ClientID (fst w)) code nonce uri verifier t" "identity_of t i"
proof -
  obtain cfg w1 where c: "oauth l uri w = (Some cfg, w1)"
    using x by (cases "oauth l uri w") (auto simp: Exchange_def split: option.splits)
  obtain doc vf w2 where g: "get_provider l w1 = (Some (doc, vf), w2)"
    using x c by (cases "get_provider l w1") (auto simp: Exchange_def split: option.splits)
  note c_ok = oauth_ok [OF ok c] and g_ok = get_provider_ok [OF oauth_ok(1) [OF ok c] g]
  obtain raw v3 where r: "ol_Exchange l cfg code (if verifier = [] then None else Some verifier) (snd w2) = (Some (Some raw), v3)"
    "raw \<noteq> []"
    using x c g by (auto simp: Exchange_def split: prod.splits option.splits if_splits)
  obtain t v4 where t: "ol_Verify l vf raw v3 = (Some t, v4)" "token_identity nonce t = Some i"
    using x c g r by (cases "ol_Verify l vf raw v3")
      (auto simp: Exchange_def bind_eq_Some_conv split: option.splits if_splits)
  have "oa_ClientID cfg = g_ClientID (fst w) \<and> oa_RedirectURL cfg = uri" by (rule c_ok(3)) simp
  moreover have "vf = (doc, g_ClientID (fst w))" using g_ok(3) c_ok(2) by simp
  ultimately have "vouched l (g_ClientID (fst w)) code nonce uri verifier t"
    using r t token_identity_of [OF t(2)] unfolding vouched_def by (metis fst_conv)
  with token_identity_of [OF t(2)] that show thesis by blast
qed

section \<open>The property\<close>

text \<open>
  C39. The Google provider gives an identity only to a token for the client configured at that
  moment: whatever calls went before, with the client replaced in between or not, a successful
  exchange presents the code with the transaction's PKCE verifier and redirect address for the
  current client, the token it gets is not empty and passes a verifier made for the current
  client, never one cached for an earlier client, its nonce is the transaction's, and the identity
  carries the token's subject, address and verification mark, under an issuer that is never empty.
\<close>

theorem exchange_verified:
  assumes "used l w0 w" "provider_ok (fst w0)" "Exchange l code nonce uri verifier w = (Some i, w')"
  shows "\<exists>t. vouched l (g_ClientID (fst w)) code nonce uri verifier t \<and> identity_of t i"
  using Exchange_some [OF used_ok [OF assms(1,2)] assms(3)] by metis

text \<open>A provider whose tokens name the client they are for; the client changes after the sign-in began.\<close>

definition demo_token :: id_token where
  "demo_token = \<lparr>it_Issuer = [], it_Subject = ''g1'', it_Nonce = ''n'', it_Email = ''a@x'', it_EmailVerified = True,
     it_Name = []\<rparr>"

definition demo_lib :: "unit oidc_lib" where
  "demo_lib = \<lparr>ol_NewProvider = (\<lambda>iss v. (Some 7, v)), ol_GenerateVerifier = (\<lambda>v. (''v'', v)),
     ol_AuthCodeURL = (\<lambda>cfg st n v. ''https://idp/'' @ st),
     ol_Exchange = (\<lambda>cfg code verifier v. (if verifier = Some ''v'' then Some (Some (oa_ClientID cfg)) else None, v)),
     ol_Verify = (\<lambda>vf raw v. (if raw = snd vf then Some demo_token else None, v))\<rparr>"

definition first_client :: "unit google" where
  "first_client = (\<lparr>g_ClientID = ''c0'', g_ClientSecret = ''s0'', g_provider = None, g_verifier = None\<rparr>, ())"

definition second_client :: "unit google" where
  "second_client = snd (SetClient ''c1'' ''s1'' (snd (AuthCodeURL demo_lib ''st'' ''n'' ''/cb'' first_client)))"

lemma demo_exchange:
  "provider_ok (fst first_client)" "g_ClientID (fst second_client) = ''c1''"
  "fst (Exchange demo_lib ''code'' ''n'' ''/cb'' ''v'' second_client) =
     Some \<lparr>id_Issuer = Issuer, id_Subject = ''g1'', id_Email = ''a@x'', id_EmailVerified = True, id_FullName = []\<rparr>"
  by code_simp+

lemma exchange_verified_witness:
  "\<exists>t. vouched demo_lib ''c1'' ''code'' ''n'' ''/cb'' ''v'' t \<and>
     identity_of t \<lparr>id_Issuer = Issuer, id_Subject = ''g1'', id_Email = ''a@x'', id_EmailVerified = True, id_FullName = []\<rparr>"
proof -
  have "used demo_lib first_client second_client"
    unfolding second_client_def by (intro used.intros)
  from exchange_verified [OF this demo_exchange(1)] demo_exchange(2,3) show ?thesis
    by (metis prod.collapse)
qed

end
