(* ===== verification/Daemon.thy ===== *)
theory Daemon
  imports Web_Ovpn
begin

text \<open>
  The daemon (\<open>cmd/bootstashd/main.go\<close>): starting up, reloading on SIGHUP and retrying listeners
  that were not ready. Signals and timers are the order in which the steps are taken; logging
  and the umask are not modelled.
\<close>

section \<open>What the flags ask for\<close>

text \<open>Print the version, check the configuration and exit, or serve it.\<close>

datatype daemon_mode = PrintVersion | CheckFailed check_error | CheckPassed string notice | Serve Config

definition daemon_mode :: "bool \<Rightarrow> bool \<Rightarrow> (check_error, Config) result \<Rightarrow> daemon_mode" where
  "daemon_mode showVersion check checked =
     (if showVersion then PrintVersion
      else (case checked of
        Inl err \<Rightarrow> CheckFailed err
      | Inr cfg \<Rightarrow>
          if check then CheckPassed (''configuration ok '' @ Summary cfg) (Notice cfg) else Serve cfg))"

section \<open>Starting\<close>

datatype start_error =
  StartCheck check_error | StartStore store_error | StartLayout errno | StartCert | StartBinds sync_error

text \<open>
  \<open>Sync\<close> wraps every error of an interface that is not there yet (\<open>fmt.Errorf\<close> with \<open>%w\<close>), so no error it
  returns is the bare value \<open>bind.ErrNotReady\<close> that \<open>main\<close> compares with: every error is fatal.
\<close>

definition start_binds :: "'w env \<Rightarrow> ('w, start_error + unit) web" where
  "start_binds e = do {
     b \<leftarrow> SyncBinds e False;
     ret (case b of None \<Rightarrow> Inr () | Some err \<Rightarrow> Inl (StartBinds err))
   }"

text \<open>
  What \<open>main\<close> does up to its loop. The key the store keeps becomes part of the environment of the
  handlers, so the continuation takes it.
\<close>

definition start_server :: "'w env \<Rightarrow> Config \<Rightarrow> ('w, start_error + unit) web" where
  "start_server e cfg = do {
     n \<leftarrow> NewServer e cfg;
     case n of
       Inl err \<Rightarrow> ret (Inl (StartLayout err))
     | Inr _ \<Rightarrow>
         if UseTLS cfg then do {
           ok \<leftarrow> LoadCertificate e (TLSCert cfg) (TLSKey cfg);
           if ok then start_binds e else ret (Inl StartCert)
         } else start_binds e
   }"

definition start_daemon ::
  "'w env \<Rightarrow> (check_error, Config) result \<Rightarrow> ('w, start_error + unit) web" where
  "start_daemon e checked =
     (case checked of
        Inl err \<Rightarrow> ret (Inl (StartCheck err))
      | Inr cfg \<Rightarrow> do {
          o1 \<leftarrow> on_store OpenStore;
          case o1 of
            Inl err \<Rightarrow> ret (Inl (StartStore err))
          | Inr _ \<Rightarrow> do {
              rnd \<leftarrow> sys (v_rand e 32);
              k \<leftarrow> on_store (EnsureCryptoKey (CryptoKey cfg) rnd);
              case k of
                Inl err \<Rightarrow> ret (Inl (StartStore err))
              | Inr key \<Rightarrow> start_server (e\<lparr>v_key := key\<rparr>) cfg
            }
        })"

section \<open>Reloading\<close>

definition reload_cert :: "'w env \<Rightarrow> Config \<Rightarrow> ('w, unit) web" where
  "reload_cert e cfg =
     (if UseTLS cfg then do { _ \<leftarrow> LoadCertificate e (TLSCert cfg) (TLSKey cfg); ret () } else ret ())"

definition reload_server :: "'w env \<Rightarrow> (check_error, Config) result \<Rightarrow> ('w, sync_error option) web" where
  "reload_server e checked =
     (case checked of
        Inl _ \<Rightarrow> ret None
      | Inr cfg \<Rightarrow> do {
          _ \<leftarrow> reload_cert e cfg;
          _ \<leftarrow> SetConfig e cfg;
          SyncBinds e True
        })"

section \<open>Retrying listeners\<close>

definition next_delay :: "int \<Rightarrow> int" where
  "next_delay delay =
     (let d = (if delay < 30 * second then delay * 2 else delay) in if d > 30 * second then 30 * second else d)"

text \<open>
  At most \<open>n\<close> attempts: the delays waited, and whether one of them succeeded.
\<close>

fun retryBinds :: "nat \<Rightarrow> 'w env \<Rightarrow> int \<Rightarrow> ('w, int list \<times> bool) web" where
  "retryBinds 0 e delay = ret ([], False)"
| "retryBinds (Suc n) e delay = do {
     err \<leftarrow> SyncBinds e False;
     if err = None then ret ([delay], True)
     else do {
       r \<leftarrow> retryBinds n e (next_delay delay);
       ret (delay # fst r, snd r)
     }
   }"

section \<open>The loop of main\<close>

text \<open>
  The datagram sent to the service manager, with its address: \<open>addr\<close> is the variable
  \<open>NOTIFY_SOCKET\<close>, a leading \<open>@\<close> stands for the NUL of an abstract socket.
\<close>

definition sdNotify :: "string \<Rightarrow> (string \<Rightarrow> bool) \<Rightarrow> string \<Rightarrow> (string \<times> string) option" where
  "sdNotify addr dial state =
     (if addr = [] then None
      else (let a = (if has_prefix addr ''@'' then nul # tl addr else addr) in
        if dial a then Some (a, state) else None))"

definition shutdown :: "'w env \<Rightarrow> ('w, unit) web" where
  "shutdown e = do { _ \<leftarrow> ServerClose e; ret () }"

text \<open>
  The signals in the order the loop takes them, a reload with what loading the configuration then
  gives. The result is what the loop tells the service manager; the loop still waits after the
  last signal of the list unless one stopped it.
\<close>

datatype signal = SigHup "(check_error, Config) result" | SigTerm

fun main_loop :: "'w env \<Rightarrow> signal list \<Rightarrow> ('w, string list) web" where
  "main_loop e [] = ret []"
| "main_loop e (SigHup checked # sigs) = do { _ \<leftarrow> reload_server e checked; main_loop e sigs }"
| "main_loop e (SigTerm # sigs) = do { _ \<leftarrow> shutdown e; ret [''STOPPING=1''] }"

end
