(* ===== verification/Daemon_Properties.thy ===== *)
theory Daemon_Properties
  imports Daemon Web_Logic
begin

text \<open>
  What a reload keeps, and how long the retry loop waits.
\<close>

section \<open>Reloading\<close>

text \<open>The sign-ins and tickets in progress; nothing is sent.\<close>

definition kept :: "'w srv \<Rightarrow> 'w srv \<Rightarrow> bool" where
  "kept s s' \<longleftrightarrow> sv_oauth s' = sv_oauth s \<and> sv_tickets s' = sv_tickets s \<and> sv_out s' = sv_out s"

definition reloaded :: "'w srv \<Rightarrow> Config \<Rightarrow> nat option \<Rightarrow> 'w srv \<Rightarrow> bool" where
  "reloaded s0 cfg c s \<longleftrightarrow> kept s0 s \<and> sv_cfg s = cfg \<and> sv_cert s = c"

lemma reloaded_calls:
  "preserves (reloaded s0 cfg c) (sys f)" "preserves (reloaded s0 cfg c) (on_store g)"
  "preserves (reloaded s0 cfg c) (SyncBinds e b)"
  unfolding preserves_def
  by (rule wtripleI, auto simp: sys_def on_store_def SyncBinds_def reloaded_def kept_def gets_def
      split: prod.splits sum.splits)+

lemma SetConfig_reloaded:
  assumes "sv_cert s = c" "kept s0 s"
  shows "reloaded s0 cfg c (snd (run_state (SetConfig e cfg) s))"
proof -
  have client: "preserves (reloaded s0 cfg c) (set_client cfg i)" for i :: "'a Identity"
    unfolding set_client_def by (intro preserves_cases reloaded_calls)
  have "preserves (reloaded s0 cfg c) (do { _ \<leftarrow> for_each (v_ids e) (set_client cfg); fixCubbies e })"
    unfolding fixCubbies_def
    by (rule preserves_bind preserves_for_each preserves_cases client reloaded_calls)+
  moreover have "reloaded s0 cfg c (s\<lparr>sv_cfg := cfg\<rparr>)"
    using assms by (simp add: reloaded_def kept_def)
  ultimately show ?thesis
    using preservesD unfolding SetConfig_def by (fastforce simp: modify_def)
qed

text \<open>The certificate after a reload: the new pair if it can be loaded, else the one before.\<close>

definition cert_after :: "'w env \<Rightarrow> Config \<Rightarrow> 'w srv \<Rightarrow> nat option" where
  "cert_after e cfg s =
     (if UseTLS cfg then
        (case fst (v_keypair e (TLSCert cfg) (TLSKey cfg) (sv_world s)) of None \<Rightarrow> sv_cert s | Some p \<Rightarrow> Some p)
      else sv_cert s)"

lemma reload_cert_after:
  "kept s (snd (run_state (reload_cert e cfg) s)) \<and> sv_cert (snd (run_state (reload_cert e cfg) s)) = cert_after e cfg s"
  by (auto simp: reload_cert_def cert_after_def LoadCertificate_def kept_def sys_def modify_def split: prod.splits option.splits)

lemma reload_accepted: "reloaded s cfg (cert_after e cfg s) (snd (run_state (reload_server e (Inr cfg)) s))"
proof -
  define s1 where "s1 = snd (run_state (reload_cert e cfg) s)"
  define s2 where "s2 = snd (run_state (SetConfig e cfg) s1)"
  have "reloaded s cfg (cert_after e cfg s) s2"
    unfolding s2_def s1_def by (rule SetConfig_reloaded) (simp_all add: reload_cert_after)
  then have "reloaded s cfg (cert_after e cfg s) (snd (run_state (SyncBinds e True) s2))"
    by (rule preservesD [OF reloaded_calls(3)])
  moreover have "snd (run_state (reload_server e (Inr cfg)) s) = snd (run_state (SyncBinds e True) s2)"
    unfolding s2_def s1_def by (simp add: reload_server_def split: prod.splits)
  ultimately show ?thesis by simp
qed

text \<open>
  C40. A reload never trades a working server for a broken one: if the new configuration is
  refused, the state is exactly what it was. If it is accepted, it is the configuration in force
  afterwards whatever else fails, the pending sign-ins and the OpenVPN tickets are kept and
  nothing is sent; the certificate is the new pair when it could be loaded and the previous one
  when it could not, and stays when TLS is off.
\<close>

theorem reload_keeps_good:
  "let s' = snd (run_state (reload_server e checked) s) in
   case checked of
     Inl err \<Rightarrow> s' = s
   | Inr cfg \<Rightarrow> sv_cfg s' = cfg \<and> kept s s' \<and> sv_cert s' = cert_after e cfg s"
proof (cases checked)
  case (Inl err)
  then show ?thesis by (simp add: reload_server_def)
next
  case (Inr cfg)
  then show ?thesis using reload_accepted [of s cfg e] by (simp add: reloaded_def)
qed

text \<open>
  Over the life of the daemon the configuration in force is the last one accepted before it was
  told to stop, and no signal drops a pending sign-in or a ticket or sends anything.
\<close>

fun in_force :: "Config \<Rightarrow> signal list \<Rightarrow> Config" where
  "in_force c [] = c"
| "in_force c (SigHup checked # sigs) = in_force (case checked of Inl _ \<Rightarrow> c | Inr cfg \<Rightarrow> cfg) sigs"
| "in_force c (SigTerm # sigs) = c"

lemma kept_trans: "kept s1 s2 \<Longrightarrow> kept s2 s3 \<Longrightarrow> kept s1 s3"
  by (simp add: kept_def)

lemma main_loop_in_force:
  "sv_cfg (snd (run_state (main_loop e sigs) s)) = in_force (sv_cfg s) sigs \<and>
   kept s (snd (run_state (main_loop e sigs) s)) \<and>
   fst (run_state (main_loop e sigs) s) = (if SigTerm \<in> set sigs then [''STOPPING=1''] else [])"
proof (induction sigs arbitrary: s)
  case Nil
  then show ?case by (simp add: kept_def)
next
  case (Cons g sigs)
  show ?case
  proof (cases g)
    case (SigHup checked)
    define s1 where "s1 = snd (run_state (reload_server e checked) s)"
    have "sv_cfg s1 = (case checked of Inl _ \<Rightarrow> sv_cfg s | Inr cfg \<Rightarrow> cfg) \<and> kept s s1"
      using reload_accepted [of s _ e]
      by (cases checked) (simp_all add: s1_def reload_server_def reloaded_def kept_def)
    moreover have "run_state (main_loop e (g # sigs)) s = run_state (main_loop e sigs) s1"
      using SigHup by (simp add: s1_def split: prod.splits)
    ultimately show ?thesis using Cons.IH [of s1] SigHup by (auto intro: kept_trans)
  qed (simp add: shutdown_def ServerClose_def kept_def sys_def split: prod.splits)
qed

section \<open>Retrying\<close>

text \<open>The delay before attempt \<open>i\<close>: it doubles up to thirty seconds.\<close>

definition backoff :: "nat \<Rightarrow> int" where
  "backoff i = min (second * 2 ^ i) (30 * second)"

lemma next_delay_backoff: "next_delay (backoff i) = backoff (Suc i)"
proof -
  have "(1::int) \<le> 2 ^ i" by simp
  then show ?thesis by (auto simp: next_delay_def backoff_def second_def min_def Let_def)
qed

lemma retry_delays:
  "\<exists>k. fst (fst (run_state (retryBinds n e (backoff i)) s)) = map backoff [i..<i + k] \<and> k \<le> n"
proof (induction n arbitrary: i s)
  case 0
  show ?case by (auto intro: exI [of _ 0])
next
  case (Suc n)
  obtain err s1 where s: "run_state (SyncBinds e False) s = (err, s1)"
    by (cases "run_state (SyncBinds e False) s") blast
  show ?case
  proof (cases "err = None")
    case True
    with s show ?thesis by (auto intro!: exI [of _ 1])
  next
    case False
    obtain k where "fst (fst (run_state (retryBinds n e (backoff (Suc i))) s1)) = map backoff [Suc i..<Suc i + k]" "k \<le> n"
      using Suc.IH by blast
    moreover have "[i..<i + Suc k] = i # [Suc i..<Suc i + k]"
      by (simp add: upt_conv_Cons del: upt_Suc)
    ultimately show ?thesis using False s
      by (intro exI [of _ "Suc k"]) (auto simp: next_delay_backoff split: prod.splits simp del: upt_Suc)
  qed
qed

text \<open>
  The loop of \<open>retryBinds\<close> waits one second, then two, and so on up to thirty, and stops at the
  first attempt that leaves every listener open.
\<close>

lemma retry_backoff:
  "\<exists>k \<le> n. fst (fst (run_state (retryBinds n e second) s)) = map backoff [0..<k]"
  using retry_delays [of n e 0 s] by (auto simp: backoff_def second_def)

end
