(* ===== verification/Spec2Isabelle.thy ===== *)
theory Spec2Isabelle
  imports Jail_Properties Store_Properties Pamauth Bind_Properties Server_State_Properties Config_Properties
    Web_Properties Web_Confinement Web_Signin Web_Logout Web_Profiles Cli_Properties Cli_Provision
    Oidc_Properties Daemon_Properties
begin

text \<open>
  A verification development for bootstash, an HTTPS daemon that gives every user a small
  directory of files, a cubby.

  \<^bold>\<open>The program.\<close> \<open>cmd/bootstashd\<close> loads a configuration (\<open>internal/config\<close>,
  \<open>internal/configcheck\<close>), opens the state directory (\<open>internal/store\<close>), and starts a web server
  (\<open>internal/web\<close>) on the listeners of \<open>internal/bind\<close>. A browser signs in with a Unix password,
  which the set-user-id helper \<open>cmd/bootstash-pam\<close> checks (\<open>internal/pamauth\<close>), or with Google
  (\<open>internal/oidcgoogle\<close>), and then reads and writes files below its own directory only, through
  \<open>internal/jail\<close>. \<open>cmd/bootstash\<close> is the administration command; its \<open>put\<close> copies files into the
  caller's cubby through the same jail.

  \<^bold>\<open>Foundations.\<close> \<open>Go_Prelude\<close>, \<open>Go_Path\<close>, \<open>Go_Url\<close> and \<open>Go_Utf8\<close> are what the source uses of
  \<open>strings\<close>, \<open>path\<close>, \<open>net/url\<close> and \<open>unicode/utf8\<close>: a Go string is a list of bytes, runes are
  decoded from it. \<open>Kernel_Api\<close> is the interface of the descriptor-based system calls: the record
  \<open>kernel\<close> of arbitrary functions of a world, its version \<open>traced\<close> that logs every call, the
  discipline \<open>confined\<close> on logs, and the locales \<open>fd_kernel\<close>, \<open>dir_kernel\<close> and \<open>file_kernel\<close>
  (with \<open>link_kernel\<close> of \<open>Jail_Resolve\<close>) with the documented laws of descriptors, directories and files. \<open>Posix_Ref\<close> interprets these locales on a
  small file system with failing calls. \<open>Go_Os\<close> is the path-based part of \<open>os\<close> on one directory,
  each call with an explicit list of faults.

  \<^bold>\<open>Components, each followed by its properties.\<close>

  \<^item> \<open>Jail\<close>, \<open>Jail_Replace\<close>: \<open>internal/jail/jail.go\<close>, every operation with its system calls in
    order. \<open>Jail_Resolve\<close>: the resolution of a path as a function on the directory tree, which the
    loops over system calls implement on every kernel that keeps the laws of the locale
    \<open>link_kernel\<close>. \<open>Jail_Properties\<close>: confinement on every kernel (C1), resolution as in a
    \<open>chroot\<close> (C2), atomic replacement (C3), no descriptor leak (C4), agreement with \<open>path.Clean\<close>
    (C5), what is stored is read back (C24).
  \<^item> \<open>Osutil\<close>: \<open>internal/osutil\<close>; \<open>Confine\<close> is exact (C25, in \<open>Server_State_Properties\<close>).
  \<^item> \<open>Session_Store\<close>: \<open>internal/store/store.go\<close>, with the locale \<open>json_codec\<close> for the laws of
    \<open>encoding/json\<close>, interpreted in \<open>Net_Codec\<close> on a concrete codec, and \<open>subject_map\<close>, the map the
    link table refines. \<open>Store_Properties\<close>: C7 to C12. \<open>Store_Grants\<close>: which Unix users the state
    can name.
  \<^item> \<open>Pamauth\<close>: \<open>internal/pamauth\<close> and \<open>cmd/bootstash-pam\<close>; C13 and C14.
  \<^item> \<open>Net_Ip\<close>, \<open>Bind_Spec\<close>, \<open>Bind_Manager\<close>: \<open>internal/bind\<close>, with the listeners as a state machine
    whose reachable states are \<open>mgr_run\<close>. \<open>Bind_Properties\<close>: C15 to C18.
  \<^item> \<open>Web_State\<close>: the tables of \<open>internal/web/server.go\<close>, tickets, transactions and signed state.
    \<open>Server_State_Properties\<close>: C19, C21 to C23 and C25.
  \<^item> \<open>Config_Parse\<close>, \<open>Config_Load\<close>: \<open>internal/config\<close> and \<open>internal/configcheck\<close>.
    \<open>Config_Lemmas\<close>, \<open>Config_Properties\<close>: C26 to C31.
  \<^item> \<open>Web_Server\<close> (server, cookies, sessions, \<open>csrf.go\<close>), \<open>Web_Pages\<close> (\<open>html.go\<close>, the answers to
    OpenVPN Connect), \<open>Web_Cubby\<close> (\<open>home.go\<close> and the directories of users), \<open>Web_Auth\<close>
    (\<open>auth.go\<close>), \<open>Web_Mime\<close> (\<open>mimetype.go\<close>), \<open>Web_Files\<close> (\<open>files.go\<close>) and \<open>Web_Ovpn\<close> (OpenVPN profiles and
    \<open>ServeHTTP\<close>): the handlers as programs of a state monad over the record \<open>srv\<close>, the Go
    \<open>Server\<close>, which return their effects on the response as a list of actions.
  \<^item> \<open>Cli_Put\<close>, \<open>Cli_Admin\<close>, \<open>Cli_Provision\<close>: \<open>cmd/bootstash\<close>; the last also shows that
    \<open>provision-google\<close> replaces the secrets file as a whole or not at all.
    \<open>Daemon\<close>: \<open>cmd/bootstashd\<close>. \<open>Oidc_Google\<close>: \<open>internal/oidcgoogle\<close>.

  \<^bold>\<open>Properties of the whole server.\<close> \<open>Web_Logic\<close> gives Hoare triples for handlers and
  \<open>Web_Invariant\<close>, \<open>Web_Handlers\<close> the locale \<open>web_inv\<close>: an invariant that the single calls keep is
  kept by every request. Its interpretations in \<open>Web_Properties\<close> give the shape of every response
  (C32) and, over all histories of requests, reloads, unlinks and failing calls, that a session
  for a Unix user needs that user's password (C33). \<open>Web_Trace\<close> runs handlers with a logging
  kernel; \<open>Web_Confinement\<close> shows that file requests stay in the directory of their session (C34)
  and that a request failing the cross-site check changes nothing (C35). \<open>Web_Signin\<close> follows the
  provider's callback (C38), \<open>Web_Logout\<close> the end of a session: signing out revokes it (C20);
  \<open>Oidc_Properties\<close> the provider (C39), \<open>Daemon_Properties\<close> reloading (C40) and the loop over signals,
  \<open>Web_Profiles\<close> the titles of OpenVPN profiles (C6), \<open>Cli_Properties\<close> the copies of \<open>bootstash put\<close>
  (C36, C37). \<open>Web_Demo\<close> is the concrete server of the concrete runs.

  \<^bold>\<open>Bounds and fuel.\<close> \<open>maxSymlinks\<close> bounds the walk of the jail as in the code. The recursive
  copy of \<open>put\<close> takes fuel; C37 shows that one more than the length of the longest path a
  system call takes is enough. The repair of directory trees takes a depth \<open>v_depth\<close> and reports
  whether it was reached; \<open>children_more\<close> shows that a run that does not reach it is the run for
  every larger depth. The search for OpenVPN profiles has the code's own depth limit.
  \<open>retryBinds\<close> takes the number of attempts before the daemon stops. Sizes, ports and modes keep
  their width: \<open>parseSize\<close> wraps at 64 bits, modes are 32-bit words.

  \<^bold>\<open>Parameters.\<close> The kernel, \<open>crypto/rand\<close>, the clock, \<open>encoding/json\<close>, the Unicode case tables,
  SHA-256, HMAC, the user database, PAM, \<open>crypto/tls\<close>, \<open>net/http\<close>'s parsing of requests, and the
  OpenID libraries are arguments; laws a property needs of them are its hypotheses or a
  locale.

  \<^bold>\<open>Not modelled.\<close> Requests run one at a time: mutexes, and the interleaving of two requests or
  of a request with a reload, are not modelled, nor are timeouts and the draining of
  connections. The text of the HTML templates, the dates in a listing, log lines and the
  parsing of flags make no decision of their own; the call of \<open>gcloud\<close> is its output.
  \<open>internal/version\<close> is a string, and \<open>pamauth/nopam.go\<close> the stub of builds without PAM.
\<close>

end
